theory Spec2Isabelle
  imports Main "HOL-Library.Sublist"
begin

section \<open>Text\<close>

text \<open>
  Text that the program only copies, joins, splits at a slash and prints is a HOL
  \<open>string\<close>, whose characters are the code points below U+0100. The six pictographs of
  the program's own messages lie above that range and are written as their UTF-8 bytes; no
  decision of the program reads them.
\<close>

definition cross_mark :: string where
  "cross_mark = [CHR 0xE2, CHR 0x9D, CHR 0x8C]"

definition bar_chart :: string where
  "bar_chart = [CHR 0xF0, CHR 0x9F, CHR 0x93, CHR 0x8A]"

definition calendar :: string where
  "calendar = [CHR 0xF0, CHR 0x9F, CHR 0x93, CHR 0x85]"

definition check_mark :: string where
  "check_mark = [CHR 0xE2, CHR 0x9C, CHR 0x85]"

definition eyes :: string where
  "eyes = [CHR 0xF0, CHR 0x9F, CHR 0x91, CHR 0x80]"

definition arrows :: string where
  "arrows = [CHR 0xF0, CHR 0x9F, CHR 0x94, CHR 0x84]"

text \<open>\<open>s.rstrip('/')\<close>.\<close>

definition rstrip_slash :: "string \<Rightarrow> string" where
  "rstrip_slash s = rev (dropWhile (\<lambda>c. c = CHR ''/'') (rev s))"

text \<open>\<open>s.split('/')\<close>: never empty; \<open>''''\<close> gives \<open>['''']\<close>.\<close>

fun split_slash :: "string \<Rightarrow> string list" where
  "split_slash [] = [[]]"
| "split_slash (c # cs) =
     (if c = CHR ''/'' then [] # split_slash cs
      else (case split_slash cs of
              [] \<Rightarrow> [[c]]
            | w # ws \<Rightarrow> (c # w) # ws))"

definition digit_char :: "nat \<Rightarrow> char" where
  "digit_char n = ''0123456789'' ! n"

fun str_nat :: "nat \<Rightarrow> string" where
  "str_nat n = (if n < 10 then [digit_char n] else str_nat (n div 10) @ [digit_char (n mod 10)])"

declare str_nat.simps [simp del]

definition str_int :: "int \<Rightarrow> string" where
  "str_int i = (if i < 0 then CHR ''-'' # str_nat (nat (- i)) else str_nat (nat i))"

definition zero_pad :: "nat \<Rightarrow> string \<Rightarrow> string" where
  "zero_pad w s = replicate (w - length s) CHR ''0'' @ s"

section \<open>Lines of standard input\<close>

text \<open>
  A line typed at a prompt is read by \<open>strip\<close>, \<open>isdigit\<close>, \<open>int\<close> and the date parser,
  which know every character of Unicode: a line is the list of its code points.
  \<open>ustr\<close> gives the line whose characters are those of a \<open>string\<close>.
\<close>

type_synonym ustring = "nat list"

definition ustr :: "string \<Rightarrow> ustring" where
  "ustr s = map of_char s"

text \<open>
  What the decisions of the program need of the Unicode database of the interpreter above
  U+00FF. The decimal digits of a script (category Nd) are ten consecutive code points,
  zero first: \<open>nd_zeros\<close> lists the zero of every such run (U+0660 for the Arabic-Indic
  digits). \<open>other_digits\<close> lists the characters that are digits without being decimal
  (Numeric\_Type=Digit; U+2074, a superscript). Below U+0100 the database is written out.
\<close>

record unicode_db =
  nd_zeros :: "nat list"
  other_digits :: "nat list"

text \<open>\<open>str.isspace\<close> on one character: this is what \<open>strip\<close> removes.\<close>

definition py_isspace :: "nat \<Rightarrow> bool" where
  "py_isspace c =
     ((0x09 \<le> c \<and> c \<le> 0x0D) \<or> (0x1C \<le> c \<and> c \<le> 0x20) \<or> c = 0x85 \<or> c = 0xA0
      \<or> c = 0x1680 \<or> (0x2000 \<le> c \<and> c \<le> 0x200A) \<or> c = 0x2028 \<or> c = 0x2029
      \<or> c = 0x202F \<or> c = 0x205F \<or> c = 0x3000)"

definition py_strip :: "ustring \<Rightarrow> ustring" where
  "py_strip s = rev (dropWhile py_isspace (rev (dropWhile py_isspace s)))"

text \<open>
  The value of a decimal digit: \<open>0\<close> to \<open>9\<close> and the digits of the runs of the database.
  These are the characters that \<open>int()\<close> reads and that the \<open>\d\<close> of a pattern matches.
\<close>

definition decimal_value :: "unicode_db \<Rightarrow> nat \<Rightarrow> nat option" where
  "decimal_value U c =
     (if 0x30 \<le> c \<and> c \<le> 0x39 then Some (c - 0x30)
      else if c < 0x100 then None
      else (case find (\<lambda>z. z \<le> c \<and> c < z + 10) (nd_zeros U) of
              None \<Rightarrow> None
            | Some z \<Rightarrow> Some (c - z)))"

definition is_decimal :: "unicode_db \<Rightarrow> nat \<Rightarrow> bool" where
  "is_decimal U c = (decimal_value U c \<noteq> None)"

definition digit_val :: "unicode_db \<Rightarrow> nat \<Rightarrow> nat" where
  "digit_val U c = (case decimal_value U c of None \<Rightarrow> 0 | Some v \<Rightarrow> v)"

text \<open>
  \<open>str.isdigit\<close> on one character: the decimal digits and the other digits, which below
  U+0100 are the superscripts U+00B2, U+00B3 and U+00B9.
\<close>

definition is_digit_char :: "unicode_db \<Rightarrow> nat \<Rightarrow> bool" where
  "is_digit_char U c =
     (is_decimal U c \<or> c = 0xB2 \<or> c = 0xB3 \<or> c = 0xB9
      \<or> (0x100 \<le> c \<and> c \<in> set (other_digits U)))"

definition py_isdigit :: "unicode_db \<Rightarrow> ustring \<Rightarrow> bool" where
  "py_isdigit U s = (s \<noteq> [] \<and> list_all (is_digit_char U) s)"

section \<open>Exceptions\<close>

datatype exn =
    EOFError
  | ValueError
  | OverflowError
  | KeyError string
  | TypeError
  | AttributeError
  | RequestException string
  | SystemExit nat

section \<open>Dates\<close>

record datetime =
  year :: nat
  month :: nat
  day :: nat
  hour :: nat
  minute :: nat
  second :: nat
  microsecond :: nat

definition is_leap :: "nat \<Rightarrow> bool" where
  "is_leap y = (y mod 4 = 0 \<and> (y mod 100 \<noteq> 0 \<or> y mod 400 = 0))"

definition days_in_month :: "nat \<Rightarrow> nat \<Rightarrow> nat" where
  "days_in_month y m =
     (if m = 2 then (if is_leap y then 29 else 28)
      else if m = 4 \<or> m = 6 \<or> m = 9 \<or> m = 11 then 30 else 31)"

text \<open>What the \<open>datetime\<close> constructor accepts as a date: years 1 to 9999.\<close>

definition valid_date :: "nat \<Rightarrow> nat \<Rightarrow> nat \<Rightarrow> bool" where
  "valid_date y m d = (1 \<le> y \<and> y \<le> 9999 \<and> 1 \<le> m \<and> m \<le> 12 \<and> 1 \<le> d \<and> d \<le> days_in_month y m)"

definition days_before_year :: "nat \<Rightarrow> nat" where
  "days_before_year y = (let p = y - 1 in p * 365 + p div 4 - p div 100 + p div 400)"

definition days_before_month :: "nat \<Rightarrow> nat \<Rightarrow> nat" where
  "days_before_month y m =
     [0, 0, 31, 59, 90, 120, 151, 181, 212, 243, 273, 304, 334] ! m
       + (if 2 < m \<and> is_leap y then 1 else 0)"

text \<open>\<open>toordinal\<close>: day 1 is 0001-01-01.\<close>

definition ymd2ord :: "nat \<Rightarrow> nat \<Rightarrow> nat \<Rightarrow> nat" where
  "ymd2ord y m d = days_before_year y + days_before_month y m + d"

definition toordinal :: "datetime \<Rightarrow> nat" where
  "toordinal dt = ymd2ord (year dt) (month dt) (day dt)"

definition max_ordinal :: nat where
  "max_ordinal = 3652059"

text \<open>\<open>date.fromordinal\<close>, as the standard library computes it.\<close>

definition month_day :: "bool \<Rightarrow> nat \<Rightarrow> nat \<times> nat" where
  "month_day leapyear n =
     (let m0 = (n + 50) div 32;
          p0 = [0, 0, 31, 59, 90, 120, 151, 181, 212, 243, 273, 304, 334] ! m0
                 + (if 2 < m0 \<and> leapyear then 1 else 0)
      in if n < p0
         then (let m = m0 - 1;
                   p = p0 - ([0, 31, 28, 31, 30, 31, 30, 31, 31, 30, 31, 30, 31] ! m
                               + (if m = 2 \<and> leapyear then 1 else 0))
               in (m, n - p + 1))
         else (m0, n - p0 + 1))"

definition ord2ymd :: "nat \<Rightarrow> nat \<times> nat \<times> nat" where
  "ord2ymd n =
     (let n0 = n - 1;
          n400 = n0 div 146097; r400 = n0 mod 146097;
          n100 = r400 div 36524; r100 = r400 mod 36524;
          n4 = r100 div 1461; r4 = r100 mod 1461;
          n1 = r4 div 365; r1 = r4 mod 365;
          y = n400 * 400 + 1 + n100 * 100 + n4 * 4 + n1
      in if n1 = 4 \<or> n100 = 4 then (y - 1, 12, 31)
         else (case month_day (n1 = 3 \<and> (n4 \<noteq> 24 \<or> n100 = 3)) r1 of
                 (m, d) \<Rightarrow> (y, m, d)))"

text \<open>
  \<open>dt - timedelta(days=n)\<close>: the \<open>timedelta\<close> constructor refuses more than
  999999999 days, and the subtraction refuses a result before day 1.
\<close>

definition datetime_sub_days :: "datetime \<Rightarrow> nat \<Rightarrow> exn + datetime" where
  "datetime_sub_days dt n =
     (if 999999999 < n then Inl OverflowError
      else if toordinal dt \<le> n \<or> max_ordinal < toordinal dt - n then Inl OverflowError
      else (case ord2ymd (toordinal dt - n) of
              (y, m, d) \<Rightarrow> Inr (dt\<lparr>year := y, month := m, day := d\<rparr>)))"

text \<open>
  \<open>dt.strftime('%Y-%m-%d')\<close>: the C library writes the year without padding, so a year
  below 1000 has fewer than four digits, and the month and the day in two digits.
\<close>

definition strftime_ymd :: "datetime \<Rightarrow> string" where
  "strftime_ymd dt =
     str_nat (year dt) @ ''-'' @ zero_pad 2 (str_nat (month dt))
       @ ''-'' @ zero_pad 2 (str_nat (day dt))"

text \<open>
  \<open>datetime.strptime(s, '%Y-%m-%d')\<close>, with \<open>None\<close> for its \<open>ValueError\<close>. The library
  matches the pattern
  \<^verbatim>\<open>(\d\d\d\d)-(1[0-2]|0[1-9]|[1-9])-(3[0-1]|[1-2]\d|0[1-9]|[1-9]| [1-9])\<close>
  at the start of the string, refuses text left over, reads the three groups with \<open>int\<close>
  and then builds the date. A \<open>\d\<close> is any decimal digit; the digits that the pattern
  names are those of ASCII.
\<close>

definition int_of_digits :: "unicode_db \<Rightarrow> ustring \<Rightarrow> nat" where
  "int_of_digits U s = foldl (\<lambda>a c. 10 * a + digit_val U c) 0 s"

definition month_text :: "nat \<Rightarrow> nat \<Rightarrow> bool" where
  "month_text a b =
     ((a = of_char CHR ''1'' \<and> b \<in> set (ustr ''012''))
      \<or> (a = of_char CHR ''0'' \<and> b \<in> set (ustr ''123456789'')))"

definition parse_month :: "unicode_db \<Rightarrow> ustring \<Rightarrow> (nat \<times> ustring) option" where
  "parse_month U s =
     (if 3 \<le> length s \<and> month_text (s ! 0) (s ! 1) \<and> s ! 2 = of_char CHR ''-''
      then Some (int_of_digits U (take 2 s), drop 3 s)
      else if 2 \<le> length s \<and> s ! 0 \<in> set (ustr ''123456789'') \<and> s ! 1 = of_char CHR ''-''
      then Some (int_of_digits U (take 1 s), drop 2 s)
      else None)"

definition day_text :: "unicode_db \<Rightarrow> nat \<Rightarrow> nat \<Rightarrow> bool" where
  "day_text U a b =
     ((a = of_char CHR ''3'' \<and> b \<in> set (ustr ''01''))
      \<or> (a \<in> set (ustr ''12'') \<and> is_decimal U b)
      \<or> (a = of_char CHR ''0'' \<and> b \<in> set (ustr ''123456789'')))"

definition parse_day :: "unicode_db \<Rightarrow> ustring \<Rightarrow> nat option" where
  "parse_day U s =
     (if length s = 2 \<and> day_text U (s ! 0) (s ! 1) then Some (int_of_digits U s)
      else if length s = 2 \<and> s ! 0 = of_char CHR '' '' \<and> s ! 1 \<in> set (ustr ''123456789'')
      then Some (int_of_digits U (drop 1 s))
      else if length s = 1 \<and> s ! 0 \<in> set (ustr ''123456789'') then Some (int_of_digits U s)
      else None)"

definition strptime_ymd :: "unicode_db \<Rightarrow> ustring \<Rightarrow> datetime option" where
  "strptime_ymd U s =
     (if 5 \<le> length s \<and> list_all (is_decimal U) (take 4 s) \<and> s ! 4 = of_char CHR ''-'' then
        (case parse_month U (drop 5 s) of
           None \<Rightarrow> None
         | Some (m, rest) \<Rightarrow>
             (case parse_day U rest of
                None \<Rightarrow> None
              | Some d \<Rightarrow>
                  (let y = int_of_digits U (take 4 s) in
                   if valid_date y m d
                   then Some \<lparr>year = y, month = m, day = d, hour = 0, minute = 0,
                              second = 0, microsecond = 0\<rparr>
                   else None)))
      else None)"

text \<open>
  \<open>int(s)\<close> for a string on which \<open>isdigit\<close> holds. The digits that are not decimal are
  digits to \<open>isdigit\<close> and not to \<open>int\<close>, which raises \<open>ValueError\<close> on them; it also
  raises \<open>ValueError\<close> on more than 4300 digits, the default limit of the interpreter
  (leading zeros count).
\<close>

definition max_str_digits :: nat where
  "max_str_digits = 4300"

definition py_int :: "unicode_db \<Rightarrow> ustring \<Rightarrow> exn + nat" where
  "py_int U s =
     (if s \<noteq> [] \<and> list_all (is_decimal U) s \<and> length s \<le> max_str_digits
      then Inr (int_of_digits U s)
      else Inl ValueError)"

section \<open>What the program does to the world\<close>

text \<open>
  A request as \<open>requests.get\<close> receives it. A run is observed as the list of its events, in
  order: a line printed, a line asked for with its prompt, a variable read from the
  environment, a GET sent.
\<close>

record request =
  req_url :: string
  auth :: "(string option \<times> string option) option"
  headers :: "(string \<times> string) list"
  params :: "(string \<times> string) list"

datatype event =
    Print string
  | Input string
  | Getenv string
  | Get request

section \<open>The date prompts\<close>

definition start_prompt :: string where
  "start_prompt = ''Start date (YYYY-MM-DD) or days back (e.g., '' @ [CHR 39] @ ''14''
     @ [CHR 39] @ ''): ''"

definition end_prompt :: string where
  "end_prompt = ''End date (YYYY-MM-DD) or press Enter for today: ''"

text \<open>
  The \<open>while True\<close> loop of \<open>get_start_date\<close>. The lines still to come on standard input
  are the list; \<open>input\<close> at the end of input raises \<open>EOFError\<close>. \<open>now\<close> is what
  \<open>datetime.now()\<close> returns when the call reaches it, \<open>U\<close> the Unicode database. The
  result is the events, the value returned or the exception that leaves the function, and
  the lines not read.
\<close>

fun start_date_loop :: "unicode_db \<Rightarrow> datetime \<Rightarrow> ustring list \<Rightarrow> event list \<times> (exn + datetime) \<times> ustring list" where
  "start_date_loop U now [] = ([Input start_prompt], Inl EOFError, [])"
| "start_date_loop U now (line # lines) =
     (let date_input = py_strip line in
      if py_isdigit U date_input then
        (case py_int U date_input of
           Inl e \<Rightarrow> ([Input start_prompt], Inl e, lines)
         | Inr days_back \<Rightarrow>
             (case datetime_sub_days now days_back of
                Inl e \<Rightarrow> ([Input start_prompt], Inl e, lines)
              | Inr start_date \<Rightarrow>
                  ([Input start_prompt,
                    Print (''Using start date: '' @ strftime_ymd start_date),
                    Print []], Inr start_date, lines)))
      else
        (case strptime_ymd U date_input of
           Some start_date \<Rightarrow>
             ([Input start_prompt,
               Print (''Using start date: '' @ strftime_ymd start_date),
               Print []], Inr start_date, lines)
         | None \<Rightarrow>
             (case start_date_loop U now lines of
                (evs, r, rest) \<Rightarrow>
                  ([Input start_prompt,
                    Print ''Invalid format. Please use YYYY-MM-DD or enter number of days back.'',
                    Print []] @ evs, r, rest))))"

definition get_start_date :: "unicode_db \<Rightarrow> datetime \<Rightarrow> ustring list \<Rightarrow> event list \<times> (exn + datetime) \<times> ustring list" where
  "get_start_date U now lines =
     (case start_date_loop U now lines of
        (evs, r, rest) \<Rightarrow>
          ([Print (calendar @ '' Enter the sprint start date''), Print []] @ evs, r, rest))"

fun end_date_loop :: "unicode_db \<Rightarrow> datetime \<Rightarrow> ustring list \<Rightarrow> event list \<times> (exn + datetime) \<times> ustring list" where
  "end_date_loop U now [] = ([Input end_prompt], Inl EOFError, [])"
| "end_date_loop U now (line # lines) =
     (let date_input = py_strip line in
      if date_input = [] then
        ([Input end_prompt,
          Print (''Using end date: '' @ strftime_ymd now),
          Print []], Inr now, lines)
      else
        (case strptime_ymd U date_input of
           Some end_date \<Rightarrow>
             ([Input end_prompt,
               Print (''Using end date: '' @ strftime_ymd end_date),
               Print []], Inr end_date, lines)
         | None \<Rightarrow>
             (case end_date_loop U now lines of
                (evs, r, rest) \<Rightarrow>
                  ([Input end_prompt,
                    Print ''Invalid format. Please use YYYY-MM-DD or press Enter for today.'',
                    Print []] @ evs, r, rest))))"

definition get_end_date :: "unicode_db \<Rightarrow> datetime \<Rightarrow> ustring list \<Rightarrow> event list \<times> (exn + datetime) \<times> ustring list" where
  "get_end_date U now lines =
     (case end_date_loop U now lines of
        (evs, r, rest) \<Rightarrow>
          ([Print (calendar @ '' Enter the sprint end date''), Print []] @ evs, r, rest))"

section \<open>Configuration\<close>

text \<open>The environment of the process, once \<open>load_dotenv()\<close> has added the \<open>.env\<close> file to it.\<close>

type_synonym env = "string \<Rightarrow> string option"

record sprint_summary =
  jira_url :: string
  jira_email :: "string option"
  jira_token :: "string option"
  github_token :: "string option"
  github_username :: "string option"
  start_date :: datetime
  end_date :: datetime

text \<open>\<open>not v\<close> for a value of \<open>os.getenv\<close>: \<open>None\<close> and the empty string are false.\<close>

definition falsy :: "string option \<Rightarrow> bool" where
  "falsy v = (case v of None \<Rightarrow> True | Some s \<Rightarrow> s = [])"

definition missing_vars :: "sprint_summary \<Rightarrow> string list" where
  "missing_vars s =
     (if jira_url s = [] then [''JIRA_URL''] else [])
     @ (if falsy (jira_email s) then [''JIRA_EMAIL''] else [])
     @ (if falsy (jira_token s) then [''JIRA_API_TOKEN''] else [])
     @ (if falsy (github_token s) then [''GITHUB_TOKEN''] else [])
     @ (if falsy (github_username s) then [''GITHUB_USERNAME''] else [])"

definition validate_config :: "sprint_summary \<Rightarrow> event list \<times> (exn + unit)" where
  "validate_config s =
     (let missing = missing_vars s in
      if missing \<noteq> [] then
        ([Print (cross_mark @ '' Missing required environment variables:'')]
           @ map (\<lambda>var. Print (''   - '' @ var)) missing
           @ [Print ([CHR 10] @ ''Please set these variables and try again.'')],
         Inl (SystemExit 1))
      else ([], Inr ()))"

text \<open>\<open>SprintSummary.__init__\<close>: five reads of the environment, then the validation.\<close>

definition init :: "env \<Rightarrow> datetime \<Rightarrow> datetime \<Rightarrow> event list \<times> (exn + sprint_summary)" where
  "init environ sd ed =
     (let s = \<lparr>jira_url = rstrip_slash (case environ ''JIRA_URL'' of None \<Rightarrow> [] | Some v \<Rightarrow> v),
               jira_email = environ ''JIRA_EMAIL'',
               jira_token = environ ''JIRA_API_TOKEN'',
               github_token = environ ''GITHUB_TOKEN'',
               github_username = environ ''GITHUB_USERNAME'',
               start_date = sd, end_date = ed\<rparr>
      in (case validate_config s of
            (evs, r) \<Rightarrow>
              (map Getenv [''JIRA_URL'', ''JIRA_EMAIL'', ''JIRA_API_TOKEN'', ''GITHUB_TOKEN'',
                           ''GITHUB_USERNAME''] @ evs,
               (case r of Inl e \<Rightarrow> Inl e | Inr _ \<Rightarrow> Inr s))))"

section \<open>Response bodies\<close>

text \<open>
  What \<open>response.json()\<close> returns. An object is the list of its members. A number that
  is not an integer is carried by the text Python prints for it: the program only copies
  and prints such a value.
\<close>

datatype json =
    JNull
  | JBool bool
  | JInt int
  | JFloat string
  | JStr string
  | JArr "json list"
  | JObj "(string \<times> json) list"

fun join :: "string \<Rightarrow> string list \<Rightarrow> string" where
  "join sep [] = []"
| "join sep [x] = x"
| "join sep (x # y # ys) = x @ sep @ join sep (y # ys)"

text \<open>\<open>repr\<close> of a \<open>str\<close>, for characters below U+0100.\<close>

definition printable :: "char \<Rightarrow> bool" where
  "printable c = (let n = (of_char c :: nat) in (32 \<le> n \<and> n < 127) \<or> (161 \<le> n \<and> n \<noteq> 173))"

definition hex2 :: "nat \<Rightarrow> string" where
  "hex2 n = [''0123456789abcdef'' ! (n div 16), ''0123456789abcdef'' ! (n mod 16)]"

definition repr_char :: "char \<Rightarrow> char \<Rightarrow> string" where
  "repr_char q c =
     (if c = q \<or> c = CHR 0x5C then [CHR 0x5C, c]
      else if c = CHR 0x09 then [CHR 0x5C, CHR ''t'']
      else if c = CHR 0x0A then [CHR 0x5C, CHR ''n'']
      else if c = CHR 0x0D then [CHR 0x5C, CHR ''r'']
      else if printable c then [c]
      else [CHR 0x5C, CHR ''x''] @ hex2 (of_char c))"

definition repr_str :: "string \<Rightarrow> string" where
  "repr_str s =
     (let q = (if CHR 0x27 \<in> set s \<and> CHR 0x22 \<notin> set s then CHR 0x22 else CHR 0x27)
      in [q] @ concat (map (repr_char q) s) @ [q])"

primrec py_repr :: "json \<Rightarrow> string" where
  "py_repr JNull = ''None''"
| "py_repr (JBool b) = (if b then ''True'' else ''False'')"
| "py_repr (JInt i) = str_int i"
| "py_repr (JFloat r) = r"
| "py_repr (JStr s) = repr_str s"
| "py_repr (JArr xs) = ''['' @ join '', '' (map py_repr xs) @ '']''"
| "py_repr (JObj kvs) =
     ''{'' @ join '', '' (map (\<lambda>kr. repr_str (fst kr) @ '': '' @ snd kr)
                              (map (map_prod id py_repr) kvs)) @ ''}''"

text \<open>\<open>str(v)\<close>, which is what an f-string puts in place of \<open>{v}\<close>.\<close>

definition py_str :: "json \<Rightarrow> string" where
  "py_str v = (case v of JStr s \<Rightarrow> s | _ \<Rightarrow> py_repr v)"

definition str_opt :: "string option \<Rightarrow> string" where
  "str_opt v = (case v of None \<Rightarrow> ''None'' | Some s \<Rightarrow> s)"

text \<open>\<open>v[k]\<close> with a string key: only a \<open>dict\<close> can answer.\<close>

definition subscript :: "json \<Rightarrow> string \<Rightarrow> exn + json" where
  "subscript v k =
     (case v of
        JObj kvs \<Rightarrow> (case map_of kvs k of None \<Rightarrow> Inl (KeyError k) | Some x \<Rightarrow> Inr x)
      | _ \<Rightarrow> Inl TypeError)"

text \<open>\<open>v.get(k, [])\<close>: only a \<open>dict\<close> has the method.\<close>

definition get_or_empty :: "json \<Rightarrow> string \<Rightarrow> exn + json" where
  "get_or_empty v k =
     (case v of
        JObj kvs \<Rightarrow> (case map_of kvs k of None \<Rightarrow> Inr (JArr []) | Some x \<Rightarrow> Inr x)
      | _ \<Rightarrow> Inl AttributeError)"

text \<open>What \<open>for x in v\<close> runs over: a string gives its characters, a \<open>dict\<close> its keys.\<close>

definition iterate :: "json \<Rightarrow> exn + json list" where
  "iterate v =
     (case v of
        JArr xs \<Rightarrow> Inr xs
      | JStr s \<Rightarrow> Inr (map (\<lambda>c. JStr [c]) s)
      | JObj kvs \<Rightarrow> Inr (map (\<lambda>kv. JStr (fst kv)) kvs)
      | _ \<Rightarrow> Inl TypeError)"

definition bind :: "exn + 'a \<Rightarrow> ('a \<Rightarrow> exn + 'b) \<Rightarrow> exn + 'b" where
  "bind r f = (case r of Inl e \<Rightarrow> Inl e | Inr a \<Rightarrow> f a)"

definition isOK :: "exn + 'a \<Rightarrow> bool" where
  "isOK r = (case r of Inl _ \<Rightarrow> False | Inr _ \<Rightarrow> True)"

text \<open>A loop that appends one record per element and stops at the first exception.\<close>

fun collect :: "('a \<Rightarrow> exn + 'b) \<Rightarrow> 'a list \<Rightarrow> exn + 'b list" where
  "collect f [] = Inr []"
| "collect f (x # xs) = bind (f x) (\<lambda>y. bind (collect f xs) (\<lambda>ys. Inr (y # ys)))"

section \<open>The two fetches\<close>

record ticket =
  key :: json
  summary :: json
  status :: json
  url :: string

record pr =
  number :: json
  title :: json
  repo :: string
  state :: json
  pr_url :: json
  updated :: json

text \<open>
  The outcome of the first three statements of a \<open>try\<close> block, \<open>requests.get\<close>,
  \<open>raise_for_status\<close> and \<open>json\<close>: \<open>Inl\<close> of the exception that one of them raised,
  \<open>Inr\<close> of the body otherwise. \<open>RequestException\<close> is the class that the \<open>except\<close>
  clause catches; it carries the text that \<open>str\<close> gives for the exception.
\<close>

type_synonym http = "request \<Rightarrow> exn + json"

text \<open>
  What \<open>requests.get\<close> does with a request: it raises an exception (for a transport
  failure, one of the class \<open>RequestException\<close>), or it returns a response, of which the
  program uses the status, through \<open>raise_for_status\<close>, and the body, through \<open>json\<close>,
  which returns the value read or raises. \<open>reason\<close> and \<open>resp_url\<close> are the reason phrase
  and the URL of the response, which \<open>raise_for_status\<close> puts into its message.
\<close>

record response =
  status_code :: nat
  reason :: string
  resp_url :: string
  json_body :: "exn + json"

datatype reply = Raised exn | Answered response

type_synonym server = "request \<Rightarrow> reply"

text \<open>
  \<open>response.raise_for_status()\<close>: an \<open>HTTPError\<close>, which is a \<open>RequestException\<close>, for
  the statuses 400 to 599 and nothing for any other status.
\<close>

definition raise_for_status :: "response \<Rightarrow> exn + unit" where
  "raise_for_status r =
     (if 400 \<le> status_code r \<and> status_code r < 500
      then Inl (RequestException (str_nat (status_code r) @ '' Client Error: '' @ reason r
                                    @ '' for url: '' @ resp_url r))
      else if 500 \<le> status_code r \<and> status_code r < 600
      then Inl (RequestException (str_nat (status_code r) @ '' Server Error: '' @ reason r
                                    @ '' for url: '' @ resp_url r))
      else Inr ())"

definition client :: "server \<Rightarrow> http" where
  "client srv req =
     (case srv req of
        Raised e \<Rightarrow> Inl e
      | Answered r \<Rightarrow> (case raise_for_status r of Inl e \<Rightarrow> Inl e | Inr _ \<Rightarrow> json_body r))"

definition jira_request :: "sprint_summary \<Rightarrow> request" where
  "jira_request s =
     (let start_str = strftime_ymd (start_date s);
          end_str = strftime_ymd (end_date s);
          jql = ''assignee = currentUser() AND status = Done AND updated >= '' @ [CHR 0x22]
                  @ start_str @ [CHR 0x22] @ '' AND updated <= '' @ [CHR 0x22] @ end_str
                  @ [CHR 0x22]
      in \<lparr>req_url = jira_url s @ ''/rest/api/3/search/jql'',
          auth = Some (jira_email s, jira_token s),
          headers = [],
          params = [(''jql'', jql), (''fields'', ''summary,status,key,updated''),
                    (''maxResults'', ''100'')]\<rparr>)"

text \<open>\<open>v[k1][k2]...\<close>, one subscript after the other.\<close>

fun path :: "json \<Rightarrow> string list \<Rightarrow> exn + json" where
  "path v [] = Inr v"
| "path v (k # ks) = bind (subscript v k) (\<lambda>x. path x ks)"

definition ticket_of :: "sprint_summary \<Rightarrow> json \<Rightarrow> exn + ticket" where
  "ticket_of s issue =
     bind (path issue [''key'']) (\<lambda>k.
     bind (path issue [''fields'', ''summary'']) (\<lambda>sm.
     bind (path issue [''fields'', ''status'', ''name'']) (\<lambda>nm.
     bind (path issue [''key'']) (\<lambda>k'.
       Inr \<lparr>key = k, summary = sm, status = nm,
            url = jira_url s @ ''/browse/'' @ py_str k'\<rparr>))))"

definition get_completed_jira_tickets :: "sprint_summary \<Rightarrow> http \<Rightarrow> event list \<times> (exn + ticket list)" where
  "get_completed_jira_tickets s http =
     (case http (jira_request s) of
        Inl (RequestException e) \<Rightarrow>
          ([Get (jira_request s), Print (cross_mark @ '' Error fetching JIRA tickets: '' @ e)],
           Inr [])
      | Inl e \<Rightarrow> ([Get (jira_request s)], Inl e)
      | Inr data \<Rightarrow>
          ([Get (jira_request s)],
           bind (get_or_empty data ''issues'') (\<lambda>v.
           bind (iterate v) (\<lambda>issues. collect (ticket_of s) issues))))"

definition github_request :: "sprint_summary \<Rightarrow> request" where
  "github_request s =
     (let start_str = strftime_ymd (start_date s);
          end_str = strftime_ymd (end_date s);
          query = ''is:pr reviewed-by:'' @ str_opt (github_username s) @ '' updated:''
                    @ start_str @ ''..'' @ end_str
      in \<lparr>req_url = ''https://api.github.com/search/issues'',
          auth = None,
          headers = [(''Authorization'', ''token '' @ str_opt (github_token s)),
                     (''Accept'', ''application/vnd.github.v3+json'')],
          params = [(''q'', query), (''sort'', ''updated''), (''order'', ''desc''),
                    (''per_page'', ''100'')]\<rparr>)"

text \<open>\<open>v.split('/')[-1]\<close>: only a \<open>str\<close> has the method.\<close>

definition last_segment :: "json \<Rightarrow> exn + string" where
  "last_segment v = (case v of JStr u \<Rightarrow> Inr (last (split_slash u)) | _ \<Rightarrow> Inl AttributeError)"

definition pr_of :: "json \<Rightarrow> exn + pr" where
  "pr_of item =
     bind (path item [''number'']) (\<lambda>n.
     bind (path item [''title'']) (\<lambda>t.
     bind (bind (path item [''repository_url'']) last_segment) (\<lambda>r.
     bind (path item [''state'']) (\<lambda>st.
     bind (path item [''html_url'']) (\<lambda>h.
     bind (path item [''updated_at'']) (\<lambda>u.
       Inr \<lparr>number = n, title = t, repo = r, state = st, pr_url = h, updated = u\<rparr>))))))"

definition get_github_pr_reviews :: "sprint_summary \<Rightarrow> http \<Rightarrow> event list \<times> (exn + pr list)" where
  "get_github_pr_reviews s http =
     (case http (github_request s) of
        Inl (RequestException e) \<Rightarrow>
          ([Get (github_request s),
            Print (cross_mark @ '' Error fetching GitHub PR reviews: '' @ e)],
           Inr [])
      | Inl e \<Rightarrow> ([Get (github_request s)], Inl e)
      | Inr data \<Rightarrow>
          ([Get (github_request s)],
           bind (get_or_empty data ''items'') (\<lambda>v.
           bind (iterate v) (\<lambda>items. collect pr_of items))))"

section \<open>The two reports\<close>

text \<open>One step after another: the events add up, an exception ends the sequence.\<close>

definition io_bind :: "event list \<times> (exn + 'a) \<Rightarrow> ('a \<Rightarrow> event list \<times> (exn + 'b)) \<Rightarrow> event list \<times> (exn + 'b)" where
  "io_bind m f =
     (case m of
        (evs, Inl e) \<Rightarrow> (evs, Inl e)
      | (evs, Inr a) \<Rightarrow> (case f a of (evs', r) \<Rightarrow> (evs @ evs', r)))"

definition prints :: "string list \<Rightarrow> event list \<times> (exn + unit)" where
  "prints ls = (map Print ls, Inr ())"

definition full_ticket_lines :: "ticket list \<Rightarrow> string list" where
  "full_ticket_lines tickets =
     (if tickets \<noteq> [] then
        concat (map (\<lambda>t. [py_str (key t) @ '': '' @ py_str (summary t),
                           ''   '' @ url t,
                           []]) tickets)
        @ [''Total: '' @ str_nat (length tickets) @ '' ticket(s)'']
      else [''No completed tickets found in date range.''])"

definition full_pr_lines :: "pr list \<Rightarrow> string list" where
  "full_pr_lines prs =
     (if prs \<noteq> [] then
        concat (map (\<lambda>p. [(if state p = JStr ''closed'' then check_mark else arrows)
                             @ '' ['' @ repo p @ ''] #'' @ py_str (number p) @ '': ''
                             @ py_str (title p),
                           ''   '' @ py_str (pr_url p),
                           []]) prs)
        @ [''Total: '' @ str_nat (length prs) @ '' PR(s) reviewed'']
      else [''No PR reviews found in date range.''])"

definition full_header :: "sprint_summary \<Rightarrow> string list" where
  "full_header s =
     [replicate 60 CHR ''='',
      bar_chart @ '' SPRINT SUMMARY'',
      calendar @ '' Date Range: '' @ strftime_ymd (start_date s) @ '' to ''
        @ strftime_ymd (end_date s),
      replicate 60 CHR ''='',
      [],
      check_mark @ '' COMPLETED JIRA TICKETS'',
      replicate 60 CHR ''-'']"

definition print_summary :: "sprint_summary \<Rightarrow> http \<Rightarrow> event list \<times> (exn + unit)" where
  "print_summary s http =
     io_bind (prints (full_header s)) (\<lambda>_.
     io_bind (get_completed_jira_tickets s http) (\<lambda>tickets.
     io_bind (prints (full_ticket_lines tickets
                      @ [[], replicate 60 CHR ''='', [],
                         eyes @ '' GITHUB PR REVIEWS'',
                         replicate 60 CHR ''-''])) (\<lambda>_.
     io_bind (get_github_pr_reviews s http) (\<lambda>prs.
       prints (full_pr_lines prs @ [[], replicate 60 CHR ''=''])))))"

definition concise_ticket_lines :: "ticket list \<Rightarrow> string list" where
  "concise_ticket_lines tickets =
     (if tickets \<noteq> [] then
        map (\<lambda>t. py_str (key t) @ '': '' @ py_str (summary t) @ '' - '' @ url t) tickets
      else [''None''])"

definition concise_pr_lines :: "pr list \<Rightarrow> string list" where
  "concise_pr_lines prs =
     (if prs \<noteq> [] then
        map (\<lambda>p. repo p @ '' #'' @ py_str (number p) @ '': '' @ py_str (title p) @ '' - ''
                    @ py_str (pr_url p)) prs
      else [''None''])"

definition print_concise_summary :: "sprint_summary \<Rightarrow> http \<Rightarrow> event list \<times> (exn + unit)" where
  "print_concise_summary s http =
     io_bind (prints [''Completed JIRA Tickets:'']) (\<lambda>_.
     io_bind (get_completed_jira_tickets s http) (\<lambda>tickets.
     io_bind (prints (concise_ticket_lines tickets @ [[], ''GitHub PR Reviews:''])) (\<lambda>_.
     io_bind (get_github_pr_reviews s http) (\<lambda>prs.
       prints (concise_pr_lines prs)))))"

section \<open>The program\<close>

text \<open>
  \<open>main\<close>, once the command line is parsed: \<open>concise\<close> is the flag, \<open>now1\<close> and \<open>now2\<close> are
  the clock readings of the two prompts, \<open>http\<close> is the HTTP client of the two fetches.
\<close>

definition main :: "bool \<Rightarrow> unicode_db \<Rightarrow> env \<Rightarrow> datetime \<Rightarrow> datetime \<Rightarrow> http \<Rightarrow> ustring list \<Rightarrow> event list \<times> (exn + unit)" where
  "main concise U environ now1 now2 http lines =
     (case get_start_date U now1 lines of
        (e1, Inl x, rest) \<Rightarrow> (e1, Inl x)
      | (e1, Inr sd, rest) \<Rightarrow>
          (case get_end_date U now2 rest of
             (e2, Inl x, rest') \<Rightarrow> (e1 @ e2, Inl x)
           | (e2, Inr ed, rest') \<Rightarrow>
               (case init environ sd ed of
                  (e3, Inl x) \<Rightarrow> (e1 @ e2 @ e3, Inl x)
                | (e3, Inr sprint) \<Rightarrow>
                    (case (if concise then print_concise_summary sprint http
                           else print_summary sprint http) of
                       (e4, r) \<Rightarrow> (e1 @ e2 @ e3 @ e4, r)))))"

text \<open>The exit status of the process: an exception that nothing catches ends it with 1.\<close>

definition exit_status :: "exn + unit \<Rightarrow> nat" where
  "exit_status r = (case r of Inr _ \<Rightarrow> 0 | Inl (SystemExit n) \<Rightarrow> n | Inl _ \<Rightarrow> 1)"

section \<open>Vocabulary of the properties\<close>

text \<open>The date \<open>y-m-d\<close> at midnight.\<close>

definition midnight :: "nat \<Rightarrow> nat \<Rightarrow> nat \<Rightarrow> datetime" where
  "midnight y m d =
     \<lparr>year = y, month = m, day = d, hour = 0, minute = 0, second = 0, microsecond = 0\<rparr>"

text \<open>A date written \<open>YYYY-MM-DD\<close>, in the digits \<open>0\<close> to \<open>9\<close>.\<close>

definition iso_text :: "nat \<Rightarrow> nat \<Rightarrow> nat \<Rightarrow> ustring" where
  "iso_text y m d =
     ustr (zero_pad 4 (str_nat y) @ ''-'' @ zero_pad 2 (str_nat m) @ ''-''
           @ zero_pad 2 (str_nat d))"

text \<open>
  The shape \<open>YYYY-MM-DD\<close> itself: ten characters, decimal digits but for the two hyphens.
\<close>

definition yyyy_mm_dd :: "unicode_db \<Rightarrow> ustring \<Rightarrow> bool" where
  "yyyy_mm_dd U s =
     (length s = 10 \<and> list_all (is_decimal U) (take 4 s) \<and> s ! 4 = of_char CHR ''-''
      \<and> list_all (is_decimal U) (take 2 (drop 5 s)) \<and> s ! 7 = of_char CHR ''-''
      \<and> list_all (is_decimal U) (drop 8 s))"

text \<open>
  The characters that are the decimal digit \<open>v\<close>: the one of ASCII and the one of every
  run of the database.
\<close>

definition digit_chars :: "unicode_db \<Rightarrow> nat \<Rightarrow> nat list" where
  "digit_chars U v =
     filter (\<lambda>c. decimal_value U c = Some v) ((0x30 + v) # map (\<lambda>z. z + v) (nd_zeros U))"

text \<open>
  All the ways of writing the date \<open>y-m-d\<close> that the date parser reads. The year has four
  decimal digits, of any script. The month is written in ASCII digits, with or without
  its leading zero. So is the day, a day below ten also with a space in place of the zero;
  the second digit of the days 10 to 29 can be of any script.
\<close>

definition year_texts :: "unicode_db \<Rightarrow> nat \<Rightarrow> ustring list" where
  "year_texts U y =
     concat (map (\<lambda>a. concat (map (\<lambda>b. concat (map (\<lambda>c. map (\<lambda>d. [a, b, c, d])
                    (digit_chars U (y mod 10)))
                  (digit_chars U (y div 10 mod 10))))
                (digit_chars U (y div 100 mod 10))))
             (digit_chars U (y div 1000)))"

definition month_texts :: "nat \<Rightarrow> ustring list" where
  "month_texts m = [ustr (zero_pad 2 (str_nat m)), ustr (str_nat m)]"

definition day_texts :: "unicode_db \<Rightarrow> nat \<Rightarrow> ustring list" where
  "day_texts U d =
     [ustr (zero_pad 2 (str_nat d)), ustr (str_nat d)]
     @ (if d < 10 then [ustr ('' '' @ str_nat d)] else [])
     @ (if 10 \<le> d \<and> d < 30 then map (\<lambda>b. [0x30 + d div 10, b]) (digit_chars U (d mod 10))
        else [])"

definition date_texts :: "unicode_db \<Rightarrow> nat \<Rightarrow> nat \<Rightarrow> nat \<Rightarrow> ustring list" where
  "date_texts U y m d =
     concat (map (\<lambda>yt. concat (map (\<lambda>mt. map (\<lambda>dt. yt @ ustr ''-'' @ mt @ ustr ''-'' @ dt)
                                            (day_texts U d))
                                (month_texts m)))
                 (year_texts U y))"

text \<open>
  The month and the day computed for day \<open>r\<close> of a year (counted from 0) are a date of
  that year, and that date is day \<open>r\<close>.
\<close>

definition month_day_ok :: "bool \<Rightarrow> nat \<Rightarrow> bool" where
  "month_day_ok leap r =
     (case month_day leap r of
        (m, d) \<Rightarrow>
          1 \<le> m \<and> m \<le> 12 \<and> 1 \<le> d
          \<and> d \<le> [0, 31, 28, 31, 30, 31, 30, 31, 31, 30, 31, 30, 31] ! m
                  + (if m = 2 \<and> leap then 1 else 0)
          \<and> [0, 0, 31, 59, 90, 120, 151, 181, 212, 243, 273, 304, 334] ! m
                + (if 2 < m \<and> leap then 1 else 0) + d = r + 1)"

text \<open>The kind of an event, to speak of the order of a run.\<close>

datatype kind = KPrint | KInput | KGetenv | KGet

fun kind_of :: "event \<Rightarrow> kind" where
  "kind_of (Print _) = KPrint"
| "kind_of (Input _) = KInput"
| "kind_of (Getenv _) = KGetenv"
| "kind_of (Get _) = KGet"

text \<open>
  The lines of a report, in the order of its statements: those printed before the ticket
  fetch, those printed between the two fetches for the tickets that the first returned,
  those printed after the review fetch for the reviews that it returned.
\<close>

definition lines_before_fetches :: "bool \<Rightarrow> sprint_summary \<Rightarrow> string list" where
  "lines_before_fetches concise s =
     (if concise then [''Completed JIRA Tickets:''] else full_header s)"

definition lines_between_fetches :: "bool \<Rightarrow> ticket list \<Rightarrow> string list" where
  "lines_between_fetches concise tickets =
     (if concise then concise_ticket_lines tickets @ [[], ''GitHub PR Reviews:'']
      else full_ticket_lines tickets
           @ [[], replicate 60 CHR ''='', [], eyes @ '' GITHUB PR REVIEWS'',
              replicate 60 CHR ''-''])"

definition lines_after_fetches :: "bool \<Rightarrow> pr list \<Rightarrow> string list" where
  "lines_after_fetches concise prs =
     (if concise then concise_pr_lines prs
      else full_pr_lines prs @ [[], replicate 60 CHR ''=''])"

text \<open>An issue, a search result, that has every member the program reads.\<close>

definition ticket_matches :: "sprint_summary \<Rightarrow> json \<Rightarrow> ticket \<Rightarrow> bool" where
  "ticket_matches s issue t =
     (path issue [''key''] = Inr (key t)
      \<and> path issue [''fields'', ''summary''] = Inr (summary t)
      \<and> path issue [''fields'', ''status'', ''name''] = Inr (status t)
      \<and> url t = jira_url s @ ''/browse/'' @ py_str (key t))"

definition well_formed_issue :: "json \<Rightarrow> bool" where
  "well_formed_issue issue =
     (isOK (path issue [''key'']) \<and> isOK (path issue [''fields'', ''summary''])
      \<and> isOK (path issue [''fields'', ''status'', ''name'']))"

text \<open>The last path segment of a URL: what follows its last slash.\<close>

definition last_path_segment :: "string \<Rightarrow> string" where
  "last_path_segment u = rev (takeWhile (\<lambda>c. c \<noteq> CHR ''/'') (rev u))"

definition pr_matches :: "json \<Rightarrow> pr \<Rightarrow> bool" where
  "pr_matches item p =
     (path item [''number''] = Inr (number p)
      \<and> path item [''title''] = Inr (title p)
      \<and> (case path item [''repository_url''] of
            Inr (JStr u) \<Rightarrow> repo p = last_path_segment u
          | _ \<Rightarrow> False)
      \<and> path item [''state''] = Inr (state p)
      \<and> path item [''html_url''] = Inr (pr_url p)
      \<and> path item [''updated_at''] = Inr (updated p))"

definition well_formed_item :: "json \<Rightarrow> bool" where
  "well_formed_item item =
     (isOK (path item [''number'']) \<and> isOK (path item [''title''])
      \<and> (case path item [''repository_url''] of Inr (JStr _) \<Rightarrow> True | _ \<Rightarrow> False)
      \<and> isOK (path item [''state'']) \<and> isOK (path item [''html_url''])
      \<and> isOK (path item [''updated_at'']))"

text \<open>
  The failures of a request that the fetches are to recover from: a transport error, which
  \<open>requests.get\<close> raises as a \<open>RequestException\<close>, and an answer with an error status,
  400 to 599. \<open>e\<close> is the text of the error, for an error status the message that
  \<open>raise_for_status\<close> gives to its exception.
\<close>

definition http_error_text :: "response \<Rightarrow> string" where
  "http_error_text r =
     str_nat (status_code r)
     @ (if status_code r < 500 then '' Client Error: '' else '' Server Error: '')
     @ reason r @ '' for url: '' @ resp_url r"

definition fetch_failure :: "reply \<Rightarrow> string \<Rightarrow> bool" where
  "fetch_failure a e =
     (case a of
        Raised x \<Rightarrow> x = RequestException e
      | Answered r \<Rightarrow> 400 \<le> status_code r \<and> status_code r < 600 \<and> e = http_error_text r)"

text \<open>
  The five required variables, and when one of them is of no use: not set or empty, and
  for the base URL also when nothing is left of it without its trailing slashes.
\<close>

definition required_vars :: "string list" where
  "required_vars =
     [''JIRA_URL'', ''JIRA_EMAIL'', ''JIRA_API_TOKEN'', ''GITHUB_TOKEN'', ''GITHUB_USERNAME'']"

definition unusable :: "env \<Rightarrow> string \<Rightarrow> bool" where
  "unusable environ v =
     (if v = ''JIRA_URL''
      then rstrip_slash (case environ v of None \<Rightarrow> [] | Some u \<Rightarrow> u) = []
      else (case environ v of None \<Rightarrow> True | Some u \<Rightarrow> u = []))"

section \<open>Sample inputs\<close>

text \<open>A database with the Arabic-Indic and the Devanagari digits and one superscript.\<close>

definition sample_unicode :: unicode_db where
  "sample_unicode = \<lparr>nd_zeros = [0x660, 0x966], other_digits = [0x2074]\<rparr>"

definition sample_now :: datetime where
  "sample_now =
     \<lparr>year = 2024, month = 6, day = 15, hour = 12, minute = 30, second = 0, microsecond = 5\<rparr>"

definition sample_env :: env where
  "sample_env =
     [''JIRA_URL'' \<mapsto> ''https://x.atlassian.net/'', ''JIRA_EMAIL'' \<mapsto> ''a@b.c'',
      ''JIRA_API_TOKEN'' \<mapsto> ''t'', ''GITHUB_TOKEN'' \<mapsto> ''g'', ''GITHUB_USERNAME'' \<mapsto> ''me'']"

definition sample_sprint :: sprint_summary where
  "sample_sprint =
     \<lparr>jira_url = ''https://x.atlassian.net'', jira_email = Some ''a@b.c'',
      jira_token = Some ''t'', github_token = Some ''g'', github_username = Some ''me'',
      start_date = midnight 2024 6 1, end_date = sample_now\<rparr>"

definition sample_issue :: "string \<Rightarrow> json" where
  "sample_issue k =
     JObj [(''key'', JStr k),
           (''fields'', JObj [(''summary'', JStr ''Fix''),
                              (''status'', JObj [(''name'', JStr ''Done'')])])]"

definition sample_item :: json where
  "sample_item =
     JObj [(''number'', JInt 7), (''title'', JStr ''T''),
           (''repository_url'', JStr ''https://api.github.com/repos/myorg/myrepo''),
           (''state'', JStr ''closed''), (''html_url'', JStr ''https://h''),
           (''updated_at'', JStr ''2024-06-02T00:00:00Z'')]"

text \<open>Clients: one that gets both searches answered, one with nothing to report, one out
  of reach.\<close>

definition http_sample :: http where
  "http_sample r =
     (if req_url r = ''https://api.github.com/search/issues''
      then Inr (JObj [(''items'', JArr [sample_item])])
      else Inr (JObj [(''issues'', JArr [sample_issue ''AB-1'', sample_issue ''AB-2''])]))"

definition http_empty :: http where
  "http_empty r = Inr (JObj [])"

definition http_down :: http where
  "http_down r = Inl (RequestException ''boom'')"

text \<open>
  Web servers: one out of reach, one that answers 404, and one that answers 300 with a
  body of two issues.
\<close>

definition srv_down :: server where
  "srv_down r = Raised (RequestException ''boom'')"

definition srv_404 :: server where
  "srv_404 r =
     Answered \<lparr>status_code = 404, reason = ''Not Found'', resp_url = req_url r,
               json_body = Inr (JObj [])\<rparr>"

definition srv_300 :: server where
  "srv_300 r =
     Answered \<lparr>status_code = 300, reason = ''Multiple Choices'', resp_url = req_url r,
               json_body = Inr (JObj [(''issues'', JArr [sample_issue ''AB-1'',
                                                          sample_issue ''AB-2''])])\<rparr>"

text \<open>An event that is not a line of the shape \<open>Total: ... )\<close>, the shape of a ticket count.\<close>

definition no_count :: "event \<Rightarrow> bool" where
  "no_count e =
     (case e of Print l \<Rightarrow> l = [] \<or> hd l \<noteq> CHR ''T'' \<or> last l \<noteq> CHR '')'' | _ \<Rightarrow> True)"

text \<open>An environment in which every variable is set and the base URL is a single slash.\<close>

definition slash_env :: env where
  "slash_env = sample_env(''JIRA_URL'' \<mapsto> ''/'')"

text \<open>An environment without the two tokens.\<close>

definition no_token_env :: env where
  "no_token_env = sample_env(''JIRA_API_TOKEN'' := None, ''GITHUB_TOKEN'' \<mapsto> [])"

section \<open>Sequencing\<close>

lemma io_bind_Inl: "io_bind (evs, Inl e) f = (evs, Inl e)"
  by (simp add: io_bind_def)

lemma io_bind_Inr: "io_bind (evs, Inr a) f = (evs @ fst (f a), snd (f a))"
  by (simp add: io_bind_def split: prod.splits)

lemma io_bind_prints: "io_bind (prints ls) f = (map Print ls @ fst (f ()), snd (f ()))"
  by (simp add: prints_def io_bind_Inr)

section \<open>A fetch that fails, a body without the list\<close>

lemma jira_failure:
  "http (jira_request s) = Inl (RequestException e) \<Longrightarrow>
   get_completed_jira_tickets s http =
     ([Get (jira_request s), Print (cross_mark @ '' Error fetching JIRA tickets: '' @ e)], Inr [])"
  by (simp add: get_completed_jira_tickets_def)

lemma github_failure:
  "http (github_request s) = Inl (RequestException e) \<Longrightarrow>
   get_github_pr_reviews s http =
     ([Get (github_request s), Print (cross_mark @ '' Error fetching GitHub PR reviews: '' @ e)],
      Inr [])"
  by (simp add: get_github_pr_reviews_def)

text \<open>
  Claim C10. When the body of a successful response is an object without the member
  \<open>issues\<close> (issue tracker) or \<open>items\<close> (code host), the fetch returns the empty list and
  raises nothing: the lookup falls back on the empty list.
\<close>

theorem absent_list_key_yields_empty:
  "(http (jira_request s) = Inr (JObj kvs) \<and> map_of kvs ''issues'' = None
      \<longrightarrow> get_completed_jira_tickets s http = ([Get (jira_request s)], Inr []))
   \<and> (http (github_request s) = Inr (JObj kvs') \<and> map_of kvs' ''items'' = None
      \<longrightarrow> get_github_pr_reviews s http = ([Get (github_request s)], Inr []))"
  by (simp add: get_completed_jira_tickets_def get_github_pr_reviews_def get_or_empty_def
      bind_def iterate_def)

theorem absent_list_key_yields_empty_witness:
  "http_empty (jira_request sample_sprint) = Inr (JObj [])
   \<and> map_of ([] :: (string \<times> json) list) ''issues'' = None
   \<and> get_completed_jira_tickets sample_sprint http_empty
       = ([Get (jira_request sample_sprint)], Inr [])
   \<and> http_empty (github_request sample_sprint) = Inr (JObj [])
   \<and> map_of ([] :: (string \<times> json) list) ''items'' = None
   \<and> get_github_pr_reviews sample_sprint http_empty
       = ([Get (github_request sample_sprint)], Inr [])"
  using absent_list_key_yields_empty [of http_empty sample_sprint "[]" "[]"]
  by (simp add: http_empty_def)

text \<open>
  A body that is not an object has no members at all, and no \<open>get\<close> either: the lookup
  raises \<open>AttributeError\<close>, which the \<open>try\<close> block does not catch.
\<close>

lemma body_not_an_object:
  assumes "\<forall>kvs. body \<noteq> JObj kvs"
  shows "http (jira_request s) = Inr body
           \<Longrightarrow> get_completed_jira_tickets s http = ([Get (jira_request s)], Inl AttributeError)"
    and "http (github_request s) = Inr body
           \<Longrightarrow> get_github_pr_reviews s http = ([Get (github_request s)], Inl AttributeError)"
  using assms
  by (cases body; simp add: get_completed_jira_tickets_def get_github_pr_reviews_def
      get_or_empty_def bind_def)+

section \<open>The events of the two reports\<close>

lemma print_summary_trace:
  assumes "get_completed_jira_tickets s http = (ev1, Inr ts)"
    and "get_github_pr_reviews s http = (ev2, r2)"
  shows "print_summary s http =
     (map Print (full_header s) @ ev1
        @ map Print (full_ticket_lines ts @ [[], replicate 60 CHR ''='', [],
                       eyes @ '' GITHUB PR REVIEWS'', replicate 60 CHR ''-''])
        @ ev2
        @ (case r2 of Inl e \<Rightarrow> []
           | Inr prs \<Rightarrow> map Print (full_pr_lines prs @ [[], replicate 60 CHR ''=''])),
      (case r2 of Inl e \<Rightarrow> Inl e | Inr prs \<Rightarrow> Inr ()))"
  unfolding print_summary_def io_bind_prints
  using assms by (cases r2) (simp_all add: io_bind_Inr io_bind_Inl prints_def)

lemma print_summary_raise:
  assumes "get_completed_jira_tickets s http = (ev1, Inl e)"
  shows "print_summary s http = (map Print (full_header s) @ ev1, Inl e)"
  unfolding print_summary_def io_bind_prints
  using assms by (simp add: io_bind_Inl)

lemma print_concise_summary_trace:
  assumes "get_completed_jira_tickets s http = (ev1, Inr ts)"
    and "get_github_pr_reviews s http = (ev2, r2)"
  shows "print_concise_summary s http =
     ([Print ''Completed JIRA Tickets:''] @ ev1
        @ map Print (concise_ticket_lines ts @ [[], ''GitHub PR Reviews:''])
        @ ev2
        @ (case r2 of Inl e \<Rightarrow> [] | Inr prs \<Rightarrow> map Print (concise_pr_lines prs)),
      (case r2 of Inl e \<Rightarrow> Inl e | Inr prs \<Rightarrow> Inr ()))"
  unfolding print_concise_summary_def io_bind_prints
  using assms by (cases r2) (simp_all add: io_bind_Inr io_bind_Inl prints_def)

lemma print_concise_summary_raise:
  assumes "get_completed_jira_tickets s http = (ev1, Inl e)"
  shows "print_concise_summary s http = ([Print ''Completed JIRA Tickets:''] @ ev1, Inl e)"
  unfolding print_concise_summary_def io_bind_prints
  using assms by (simp add: io_bind_Inl)

section \<open>A failed fetch stays local\<close>

lemma github_get_first: "\<exists>evs. fst (get_github_pr_reviews s http) = Get (github_request s) # evs"
  by (auto simp: get_github_pr_reviews_def split: sum.splits exn.splits)

lemma jira_get_first: "\<exists>evs. fst (get_completed_jira_tickets s http) = Get (jira_request s) # evs"
  by (auto simp: get_completed_jira_tickets_def split: sum.splits exn.splits)

lemma client_failure: "fetch_failure (srv req) e \<Longrightarrow> client srv req = Inl (RequestException e)"
  by (cases "srv req")
     (auto simp: fetch_failure_def client_def raise_for_status_def http_error_text_def)

lemma client_success:
  assumes "srv req = Answered r" "\<not> (400 \<le> status_code r \<and> status_code r < 600)"
  shows "client srv req = json_body r"
  using assms by (auto simp: client_def raise_for_status_def)

text \<open>
  Claim C4, as amended. When the GET of a fetch meets a transport error or is answered
  with an error status (400 to 599), the fetch prints a line that contains the error and
  returns the empty list: no exception leaves it. The other fetch is still sent, the
  section of the failed one is printed as empty, and the report raises only what the
  other fetch raises.
\<close>

theorem fetch_failure_is_contained:
  "(fetch_failure (srv (jira_request s)) e \<longrightarrow>
      get_completed_jira_tickets s (client srv)
        = ([Get (jira_request s), Print (cross_mark @ '' Error fetching JIRA tickets: '' @ e)],
           Inr [])
      \<and> Get (github_request s) \<in> set (fst (print_summary s (client srv)))
      \<and> Get (github_request s) \<in> set (fst (print_concise_summary s (client srv)))
      \<and> Print ''No completed tickets found in date range.''
           \<in> set (fst (print_summary s (client srv)))
      \<and> Print ''None'' \<in> set (fst (print_concise_summary s (client srv)))
      \<and> snd (print_summary s (client srv))
          = map_sum id (\<lambda>_. ()) (snd (get_github_pr_reviews s (client srv)))
      \<and> snd (print_concise_summary s (client srv))
          = map_sum id (\<lambda>_. ()) (snd (get_github_pr_reviews s (client srv))))
   \<and> (fetch_failure (srv (github_request s)) e' \<longrightarrow>
      get_github_pr_reviews s (client srv)
        = ([Get (github_request s),
            Print (cross_mark @ '' Error fetching GitHub PR reviews: '' @ e')], Inr [])
      \<and> Get (jira_request s) \<in> set (fst (print_summary s (client srv)))
      \<and> Get (jira_request s) \<in> set (fst (print_concise_summary s (client srv)))
      \<and> snd (print_summary s (client srv))
          = map_sum id (\<lambda>_. ()) (snd (get_completed_jira_tickets s (client srv)))
      \<and> snd (print_concise_summary s (client srv))
          = map_sum id (\<lambda>_. ()) (snd (get_completed_jira_tickets s (client srv)))
      \<and> (isOK (snd (get_completed_jira_tickets s (client srv))) \<longrightarrow>
           Print ''No PR reviews found in date range.''
             \<in> set (fst (print_summary s (client srv)))
           \<and> last (fst (print_concise_summary s (client srv))) = Print ''None''))"
proof (intro conjI impI)
  define http where "http = client srv"
  assume "fetch_failure (srv (jira_request s)) e"
  then have j: "http (jira_request s) = Inl (RequestException e)"
    unfolding http_def by (rule client_failure)
  note jf = jira_failure [of http s e, OF j]
  show "get_completed_jira_tickets s (client srv)
        = ([Get (jira_request s), Print (cross_mark @ '' Error fetching JIRA tickets: '' @ e)],
           Inr [])" using jf by (simp add: http_def)
  obtain ev2 r2 where g: "get_github_pr_reviews s http = (ev2, r2)"
    by (cases "get_github_pr_reviews s http")
  obtain evs where ev2: "ev2 = Get (github_request s) # evs"
    using github_get_first [of s http] g by auto
  note f = print_summary_trace [OF jf g]
  note c = print_concise_summary_trace [OF jf g]
  show "Get (github_request s) \<in> set (fst (print_summary s (client srv)))"
    unfolding http_def [symmetric] by (simp add: f ev2)
  show "Get (github_request s) \<in> set (fst (print_concise_summary s (client srv)))"
    unfolding http_def [symmetric] by (simp add: c ev2)
  show "Print ''No completed tickets found in date range.''
          \<in> set (fst (print_summary s (client srv)))"
    unfolding http_def [symmetric] by (simp add: f full_ticket_lines_def)
  show "Print ''None'' \<in> set (fst (print_concise_summary s (client srv)))"
    unfolding http_def [symmetric] by (simp add: c concise_ticket_lines_def)
  show "snd (print_summary s (client srv))
          = map_sum id (\<lambda>_. ()) (snd (get_github_pr_reviews s (client srv)))"
    unfolding http_def [symmetric] by (cases r2) (simp_all add: f g)
  show "snd (print_concise_summary s (client srv))
          = map_sum id (\<lambda>_. ()) (snd (get_github_pr_reviews s (client srv)))"
    unfolding http_def [symmetric] by (cases r2) (simp_all add: c g)
next
  define http where "http = client srv"
  assume "fetch_failure (srv (github_request s)) e'"
  then have h: "http (github_request s) = Inl (RequestException e')"
    unfolding http_def by (rule client_failure)
  note gf = github_failure [of http s e', OF h]
  show "get_github_pr_reviews s (client srv)
        = ([Get (github_request s),
            Print (cross_mark @ '' Error fetching GitHub PR reviews: '' @ e')], Inr [])"
    using gf by (simp add: http_def)
  obtain ev1 r1 where j: "get_completed_jira_tickets s http = (ev1, r1)"
    by (cases "get_completed_jira_tickets s http")
  obtain evs where ev1: "ev1 = Get (jira_request s) # evs"
    using jira_get_first [of s http] j by auto
  show "Get (jira_request s) \<in> set (fst (print_summary s (client srv)))"
    unfolding http_def [symmetric]
  proof (cases r1)
    case (Inl x) then show "Get (jira_request s) \<in> set (fst (print_summary s http))"
      using print_summary_raise [of s http ev1 x] j ev1 by simp
  next
    case (Inr ts) then show "Get (jira_request s) \<in> set (fst (print_summary s http))"
      using print_summary_trace [of s http ev1 ts, OF _ gf] j ev1 by simp
  qed
  show "Get (jira_request s) \<in> set (fst (print_concise_summary s (client srv)))"
    unfolding http_def [symmetric]
  proof (cases r1)
    case (Inl x) then show "Get (jira_request s) \<in> set (fst (print_concise_summary s http))"
      using print_concise_summary_raise [of s http ev1 x] j ev1 by simp
  next
    case (Inr ts) then show "Get (jira_request s) \<in> set (fst (print_concise_summary s http))"
      using print_concise_summary_trace [of s http ev1 ts, OF _ gf] j ev1 by simp
  qed
  show "snd (print_summary s (client srv))
          = map_sum id (\<lambda>_. ()) (snd (get_completed_jira_tickets s (client srv)))"
    unfolding http_def [symmetric]
  proof (cases r1)
    case (Inl x) then show "snd (print_summary s http)
          = map_sum id (\<lambda>_. ()) (snd (get_completed_jira_tickets s http))"
      using print_summary_raise [of s http ev1 x] j by simp
  next
    case (Inr ts) then show "snd (print_summary s http)
          = map_sum id (\<lambda>_. ()) (snd (get_completed_jira_tickets s http))"
      using print_summary_trace [of s http ev1 ts, OF _ gf] j by simp
  qed
  show "snd (print_concise_summary s (client srv))
          = map_sum id (\<lambda>_. ()) (snd (get_completed_jira_tickets s (client srv)))"
    unfolding http_def [symmetric]
  proof (cases r1)
    case (Inl x) then show "snd (print_concise_summary s http)
          = map_sum id (\<lambda>_. ()) (snd (get_completed_jira_tickets s http))"
      using print_concise_summary_raise [of s http ev1 x] j by simp
  next
    case (Inr ts) then show "snd (print_concise_summary s http)
          = map_sum id (\<lambda>_. ()) (snd (get_completed_jira_tickets s http))"
      using print_concise_summary_trace [of s http ev1 ts, OF _ gf] j by simp
  qed
  assume "isOK (snd (get_completed_jira_tickets s (client srv)))"
  then obtain ts where r1: "r1 = Inr ts"
    using j by (cases r1) (simp_all add: isOK_def http_def)
  show "Print ''No PR reviews found in date range.''
          \<in> set (fst (print_summary s (client srv)))"
    unfolding http_def [symmetric]
    using print_summary_trace [of s http ev1 ts, OF _ gf] j r1
    by (simp add: full_pr_lines_def)
  show "last (fst (print_concise_summary s (client srv))) = Print ''None''"
    unfolding http_def [symmetric]
    using print_concise_summary_trace [of s http ev1 ts, OF _ gf] j r1
    by (simp add: concise_pr_lines_def)
qed

theorem fetch_failure_is_contained_witness:
  "fetch_failure (srv_down (jira_request sample_sprint)) ''boom''
   \<and> get_completed_jira_tickets sample_sprint (client srv_down)
       = ([Get (jira_request sample_sprint),
           Print (cross_mark @ '' Error fetching JIRA tickets: boom'')], Inr [])
   \<and> fetch_failure (srv_down (github_request sample_sprint)) ''boom''
   \<and> get_github_pr_reviews sample_sprint (client srv_down)
       = ([Get (github_request sample_sprint),
           Print (cross_mark @ '' Error fetching GitHub PR reviews: boom'')], Inr [])
   \<and> Get (github_request sample_sprint)
        \<in> set (fst (print_summary sample_sprint (client srv_down)))
   \<and> Get (jira_request sample_sprint)
        \<in> set (fst (print_summary sample_sprint (client srv_down)))
   \<and> snd (print_summary sample_sprint (client srv_down)) = Inr ()
   \<and> snd (print_concise_summary sample_sprint (client srv_down)) = Inr ()
   \<and> isOK (snd (get_completed_jira_tickets sample_sprint (client srv_down)))
   \<and> Print ''No PR reviews found in date range.''
        \<in> set (fst (print_summary sample_sprint (client srv_down)))
   \<and> last (fst (print_concise_summary sample_sprint (client srv_down))) = Print ''None''
   \<and> fetch_failure (srv_404 (github_request sample_sprint))
        ''404 Client Error: Not Found for url: https://api.github.com/search/issues''
   \<and> get_github_pr_reviews sample_sprint (client srv_404)
       = ([Get (github_request sample_sprint),
           Print (cross_mark @ '' Error fetching GitHub PR reviews: ''
                    @ ''404 Client Error: Not Found for url: ''
                    @ ''https://api.github.com/search/issues'')], Inr [])"
proof -
  have d: "fetch_failure (srv_down (jira_request sample_sprint)) ''boom''"
    "fetch_failure (srv_down (github_request sample_sprint)) ''boom''"
    by (simp_all add: fetch_failure_def srv_down_def)
  have n: "str_nat 404 = ''404''"
    by (simp add: str_nat.simps digit_char_def)
  have f: "fetch_failure (srv_404 (github_request sample_sprint))
        ''404 Client Error: Not Found for url: https://api.github.com/search/issues''"
    by (simp add: fetch_failure_def srv_404_def http_error_text_def n github_request_def)
  note t1 = fetch_failure_is_contained [of srv_down sample_sprint "''boom''" "''boom''"]
  note t2 = fetch_failure_is_contained [of srv_404 sample_sprint "[]"
      "''404 Client Error: Not Found for url: https://api.github.com/search/issues''"]
  have g: "get_github_pr_reviews sample_sprint (client srv_404)
       = ([Get (github_request sample_sprint),
           Print (cross_mark @ '' Error fetching GitHub PR reviews: ''
                    @ ''404 Client Error: Not Found for url: ''
                    @ ''https://api.github.com/search/issues'')], Inr [])"
    using t2 f by simp
  show ?thesis using t1 d f g by (simp add: isOK_def)
qed

text \<open>
  The claim as it was stated fails for an answer whose status is neither a success (200
  to 299) nor an error (400 to 599): \<open>raise_for_status\<close> raises nothing for the status
  300, no line is printed, and the issues of the body are returned.
\<close>

theorem other_status_counterexample:
  "srv_300 (jira_request sample_sprint)
     = Answered \<lparr>status_code = 300, reason = ''Multiple Choices'',
                 resp_url = req_url (jira_request sample_sprint),
                 json_body = Inr (JObj [(''issues'', JArr [sample_issue ''AB-1'',
                                                           sample_issue ''AB-2''])])\<rparr>
   \<and> get_completed_jira_tickets sample_sprint (client srv_300)
       = ([Get (jira_request sample_sprint)],
          Inr [\<lparr>key = JStr ''AB-1'', summary = JStr ''Fix'', status = JStr ''Done'',
                url = ''https://x.atlassian.net/browse/AB-1''\<rparr>,
               \<lparr>key = JStr ''AB-2'', summary = JStr ''Fix'', status = JStr ''Done'',
                url = ''https://x.atlassian.net/browse/AB-2''\<rparr>])"
proof -
  have c: "client srv_300 req
             = Inr (JObj [(''issues'', JArr [sample_issue ''AB-1'', sample_issue ''AB-2''])])"
    for req
    by (simp add: client_def srv_300_def raise_for_status_def)
  have run: "get_completed_jira_tickets s (client srv_300)
       = ([Get (jira_request s)],
          Inr [\<lparr>key = JStr ''AB-1'', summary = JStr ''Fix'', status = JStr ''Done'',
                url = jira_url s @ ''/browse/AB-1''\<rparr>,
               \<lparr>key = JStr ''AB-2'', summary = JStr ''Fix'', status = JStr ''Done'',
                url = jira_url s @ ''/browse/AB-2''\<rparr>])" for s
    by (simp add: get_completed_jira_tickets_def c get_or_empty_def iterate_def
        bind_def ticket_of_def subscript_def sample_issue_def py_str_def)
  have u: "jira_url sample_sprint = ''https://x.atlassian.net''"
    by (simp add: sample_sprint_def)
  show ?thesis
    using run [of sample_sprint] by (simp add: u srv_300_def)
qed

section \<open>Empty sections\<close>

lemma jira_events_no_count: "list_all no_count (fst (get_completed_jira_tickets s http))"
  by (auto simp: get_completed_jira_tickets_def no_count_def cross_mark_def
      split: sum.splits exn.splits)

lemma github_events_no_count: "list_all no_count (fst (get_github_pr_reviews s http))"
  by (auto simp: get_github_pr_reviews_def no_count_def cross_mark_def
      split: sum.splits exn.splits)

lemma full_pr_lines_no_count: "list_all no_count (map Print (full_pr_lines prs))"
  by (auto simp: full_pr_lines_def no_count_def list_all_iff check_mark_def arrows_def)

lemma full_header_no_count: "list_all no_count (map Print (full_header s))"
  by (simp add: full_header_def no_count_def bar_chart_def calendar_def check_mark_def)

lemma count_line_is_count: "\<not> no_count (Print (''Total: '' @ str_nat n @ '' ticket(s)''))"
  by (simp add: no_count_def)

text \<open>
  Claim C9. When the ticket fetch returned the empty list, the full report prints, right
  after the events of that fetch, the line \<open>No completed tickets found in date range.\<close>
  and then the blank line and the separator: the section holds no other line, and no line
  of the whole report has the form of a ticket count. When the review fetch returned the
  empty list, the concise report ends with the label \<open>GitHub PR Reviews:\<close>, the events
  of that fetch and the line \<open>None\<close>.
\<close>

theorem empty_lists_render_as_none:
  "(get_completed_jira_tickets s http = (evs, Inr []) \<longrightarrow>
      prefix (map Print (full_header s) @ evs
              @ [Print ''No completed tickets found in date range.'', Print [],
                 Print (replicate 60 CHR ''='')])
             (fst (print_summary s http))
      \<and> (\<forall>n. Print (''Total: '' @ str_nat n @ '' ticket(s)'') \<notin> set (fst (print_summary s http))))
   \<and> (get_completed_jira_tickets s http = (evs, Inr ts)
      \<and> get_github_pr_reviews s http = (evs', Inr []) \<longrightarrow>
      fst (print_concise_summary s http)
        = [Print ''Completed JIRA Tickets:''] @ evs @ map Print (concise_ticket_lines ts)
          @ [Print [], Print ''GitHub PR Reviews:''] @ evs' @ [Print ''None''])"
proof (intro conjI impI allI)
  assume j: "get_completed_jira_tickets s http = (evs, Inr [])"
  obtain ev2 r2 where g: "get_github_pr_reviews s http = (ev2, r2)"
    by (cases "get_github_pr_reviews s http")
  note f = print_summary_trace [OF j g]
  show "prefix (map Print (full_header s) @ evs
              @ [Print ''No completed tickets found in date range.'', Print [],
                 Print (replicate 60 CHR ''='')])
             (fst (print_summary s http))"
    by (simp add: f full_ticket_lines_def)
  have e1: "list_all no_count evs" using jira_events_no_count [of s http] j by simp
  have e2: "list_all no_count ev2" using github_events_no_count [of s http] g by simp
  have tail: "list_all no_count (case r2 of Inl e \<Rightarrow> []
           | Inr prs \<Rightarrow> map Print (full_pr_lines prs @ [[], replicate 60 CHR ''='']))"
    using full_pr_lines_no_count by (cases r2) (simp_all add: no_count_def)
  have mid: "list_all no_count (map Print (full_ticket_lines [] @ [[], replicate 60 CHR ''='', [],
                       eyes @ '' GITHUB PR REVIEWS'', replicate 60 CHR ''-'']))"
    by (simp add: full_ticket_lines_def no_count_def eyes_def)
  have all: "list_all no_count (fst (print_summary s http))"
    unfolding f fst_conv list_all_append using full_header_no_count e1 e2 tail mid by blast
  fix n
  show "Print (''Total: '' @ str_nat n @ '' ticket(s)'') \<notin> set (fst (print_summary s http))"
    using all count_line_is_count [of n] by (auto simp: list_all_iff)
next
  assume a: "get_completed_jira_tickets s http = (evs, Inr ts)
      \<and> get_github_pr_reviews s http = (evs', Inr [])"
  show "fst (print_concise_summary s http)
        = [Print ''Completed JIRA Tickets:''] @ evs @ map Print (concise_ticket_lines ts)
          @ [Print [], Print ''GitHub PR Reviews:''] @ evs' @ [Print ''None'']"
    using print_concise_summary_trace [of s http evs ts evs' "Inr []"] a
    by (simp add: concise_pr_lines_def)
qed

theorem empty_lists_render_as_none_witness:
  "get_completed_jira_tickets sample_sprint http_empty = ([Get (jira_request sample_sprint)], Inr [])
   \<and> get_github_pr_reviews sample_sprint http_empty = ([Get (github_request sample_sprint)], Inr [])
   \<and> prefix (map Print (full_header sample_sprint) @ [Get (jira_request sample_sprint)]
              @ [Print ''No completed tickets found in date range.'', Print [],
                 Print (replicate 60 CHR ''='')])
             (fst (print_summary sample_sprint http_empty))
   \<and> fst (print_concise_summary sample_sprint http_empty)
        = [Print ''Completed JIRA Tickets:'', Get (jira_request sample_sprint), Print ''None'',
           Print [], Print ''GitHub PR Reviews:'', Get (github_request sample_sprint),
           Print ''None'']"
proof -
  have j: "get_completed_jira_tickets sample_sprint http_empty
             = ([Get (jira_request sample_sprint)], Inr [])"
    by (simp add: get_completed_jira_tickets_def http_empty_def get_or_empty_def bind_def
        iterate_def)
  have g: "get_github_pr_reviews sample_sprint http_empty
             = ([Get (github_request sample_sprint)], Inr [])"
    by (simp add: get_github_pr_reviews_def http_empty_def get_or_empty_def bind_def
        iterate_def)
  show ?thesis
    using empty_lists_render_as_none [of sample_sprint http_empty
        "[Get (jira_request sample_sprint)]" "[]" "[Get (github_request sample_sprint)]"] j g
    by (simp add: concise_ticket_lines_def)
qed

section \<open>From results to records\<close>

lemma collect_Inr: "collect f xs = Inr ys \<longleftrightarrow> list_all2 (\<lambda>x y. f x = Inr y) xs ys"
proof (induction xs arbitrary: ys)
  case Nil
  then show ?case by auto
next
  case (Cons x xs)
  have ih: "\<And>zs. (collect f xs = Inr zs) = list_all2 (\<lambda>x y. f x = Inr y) xs zs"
    by (rule Cons.IH)
  show ?case
    by (cases "f x"; cases "collect f xs")
       (auto simp: bind_def list_all2_Cons1 ih [symmetric])
qed

lemma collect_total: "list_all (\<lambda>x. isOK (f x)) xs \<Longrightarrow> \<exists>ys. collect f xs = Inr ys"
proof (induction xs)
  case Nil
  then show ?case by simp
next
  case (Cons x xs)
  then obtain y ys where "f x = Inr y" "collect f xs = Inr ys"
    by (auto simp: isOK_def split: sum.splits)
  then show ?case by (simp add: bind_def)
qed

lemma ticket_of_Inr: "ticket_of s issue = Inr t \<longleftrightarrow> ticket_matches s issue t"
  unfolding ticket_of_def ticket_matches_def
  by (cases "path issue [''key'']"; cases "path issue [''fields'', ''summary'']";
      cases "path issue [''fields'', ''status'', ''name'']")
     (auto simp add: bind_def)

lemma ticket_of_total: "well_formed_issue issue \<Longrightarrow> isOK (ticket_of s issue)"
  unfolding ticket_of_def well_formed_issue_def
  by (cases "path issue [''key'']"; cases "path issue [''fields'', ''summary'']";
      cases "path issue [''fields'', ''status'', ''name'']")
     (auto simp add: bind_def isOK_def)


lemma split_slash_nonempty: "split_slash u \<noteq> []"
  by (induction u) (auto split: list.splits)

lemma split_slash_plain: "CHR ''/'' \<notin> set u \<Longrightarrow> split_slash u = [u]"
  by (induction u) auto

lemma split_slash_many: "CHR ''/'' \<in> set u \<Longrightarrow> tl (split_slash u) \<noteq> []"
  by (induction u) (auto simp: split_slash_nonempty split: list.splits)

lemma last_split_slash: "last (split_slash u) = last_path_segment u"
proof (induction u)
  case Nil
  then show ?case by (simp add: last_path_segment_def)
next
  case (Cons c cs)
  show ?case
  proof (cases "CHR ''/'' \<in> set cs")
    case True
    then have tw: "takeWhile (\<lambda>c. c \<noteq> CHR ''/'') (rev cs @ [c])
                     = takeWhile (\<lambda>c. c \<noteq> CHR ''/'') (rev cs)"
      by (intro takeWhile_append1 [of "CHR ''/''"]) auto
    obtain w ws where sp: "split_slash cs = w # ws" "ws \<noteq> []"
      using split_slash_many [OF True] split_slash_nonempty [of cs]
      by (cases "split_slash cs") auto
    have "last (split_slash (c # cs)) = last (split_slash cs)"
      using sp by simp
    then show ?thesis using Cons.IH tw by (simp add: last_path_segment_def)
  next
    case False
    then have tw: "takeWhile (\<lambda>c. c \<noteq> CHR ''/'') (rev cs @ [c])
                     = rev cs @ takeWhile (\<lambda>c. c \<noteq> CHR ''/'') [c]"
      by (intro takeWhile_append2) auto
    show ?thesis
      using split_slash_plain [OF False] tw by (simp add: last_path_segment_def)
  qed
qed

lemma last_path_segment_append:
  "CHR ''/'' \<notin> set w \<Longrightarrow> last_path_segment (q @ CHR ''/'' # w) = w"
proof -
  assume a: "CHR ''/'' \<notin> set w"
  have "takeWhile (\<lambda>c. c \<noteq> CHR ''/'') (rev w @ CHR ''/'' # rev q) = rev w"
    using a by (auto simp add: takeWhile_tail)
  then show ?thesis by (simp add: last_path_segment_def)
qed

lemma pr_of_Inr: "pr_of item = Inr p \<longleftrightarrow> pr_matches item p"
  unfolding pr_of_def pr_matches_def last_segment_def
  by (cases "path item [''number'']"; cases "path item [''title'']";
      cases "path item [''repository_url'']"; cases "path item [''state'']";
      cases "path item [''html_url'']"; cases "path item [''updated_at'']")
     (auto simp add: bind_def last_split_slash split: json.splits)

lemma pr_of_total: "well_formed_item item \<Longrightarrow> isOK (pr_of item)"
  unfolding pr_of_def well_formed_item_def last_segment_def
  by (cases "path item [''number'']"; cases "path item [''title'']";
      cases "path item [''repository_url'']"; cases "path item [''state'']";
      cases "path item [''html_url'']"; cases "path item [''updated_at'']")
     (auto simp add: bind_def isOK_def split: json.splits)

text \<open>
  Claim C6. When the code host answers with an object whose \<open>items\<close> is a list of results
  that have the members the program reads, the fetch returns one record per result, in
  order, with \<open>repo\<close> the last path segment of the result's \<open>repository_url\<close>; a URL that
  ends in \<open>/myorg/myrepo\<close> gives the \<open>repo\<close> \<open>myrepo\<close>.
\<close>

theorem reviews_map_one_to_one:
  assumes "http (github_request s) = Inr (JObj kvs)"
    and "map_of kvs ''items'' = Some (JArr items)"
    and "list_all well_formed_item items"
  shows "(\<exists>prs. get_github_pr_reviews s http = ([Get (github_request s)], Inr prs)
           \<and> length prs = length items
           \<and> list_all2 pr_matches items prs)
         \<and> (\<forall>item p q. pr_of item = Inr p
               \<and> path item [''repository_url''] = Inr (JStr (q @ ''/myorg/myrepo''))
               \<longrightarrow> repo p = ''myrepo'')"
proof -
  have "list_all (\<lambda>x. isOK (pr_of x)) items"
    using assms(3) pr_of_total by (auto simp: list_all_iff)
  then obtain prs where c: "collect pr_of items = Inr prs"
    using collect_total [of pr_of items] by blast
  then have m: "list_all2 pr_matches items prs"
    by (simp add: collect_Inr pr_of_Inr)
  have "get_github_pr_reviews s http = ([Get (github_request s)], Inr prs)"
    using assms(1,2) c
    by (simp add: get_github_pr_reviews_def get_or_empty_def iterate_def bind_def)
  moreover have "last_path_segment (q @ ''/myorg/myrepo'') = ''myrepo''" for q
    using last_path_segment_append [of "''myrepo''" "q @ ''/myorg''"] by simp
  ultimately show ?thesis using m list_all2_lengthD [OF m]
    by (auto simp: pr_of_Inr pr_matches_def)
qed

theorem reviews_map_one_to_one_witness:
  "http_sample (github_request sample_sprint) = Inr (JObj [(''items'', JArr [sample_item])])
   \<and> map_of [(''items'', JArr [sample_item])] ''items'' = Some (JArr [sample_item])
   \<and> list_all well_formed_item [sample_item]
   \<and> (\<exists>prs. get_github_pr_reviews sample_sprint http_sample
                 = ([Get (github_request sample_sprint)], Inr prs)
           \<and> length prs = length [sample_item]
           \<and> list_all2 pr_matches [sample_item] prs)
   \<and> get_github_pr_reviews sample_sprint http_sample
       = ([Get (github_request sample_sprint)],
          Inr [\<lparr>number = JInt 7, title = JStr ''T'', repo = ''myrepo'', state = JStr ''closed'',
                pr_url = JStr ''https://h'', updated = JStr ''2024-06-02T00:00:00Z''\<rparr>])"
proof -
  have h1: "http_sample (github_request sample_sprint)
              = Inr (JObj [(''items'', JArr [sample_item])])"
    by (simp add: http_sample_def github_request_def)
  have h2: "map_of [(''items'', JArr [sample_item])] ''items'' = Some (JArr [sample_item])"
    by simp
  have h3: "list_all well_formed_item [sample_item]"
    by code_simp
  have run: "get_github_pr_reviews sample_sprint http_sample
       = ([Get (github_request sample_sprint)],
          Inr [\<lparr>number = JInt 7, title = JStr ''T'', repo = ''myrepo'', state = JStr ''closed'',
                pr_url = JStr ''https://h'', updated = JStr ''2024-06-02T00:00:00Z''\<rparr>])"
    by code_simp
  show ?thesis
    using reviews_map_one_to_one [of http_sample sample_sprint
        "[(''items'', JArr [sample_item])]" "[sample_item]", OF h1 h2 h3] h1 h2 h3 run
    by blast
qed

text \<open>
  Claim C5. When the issue tracker answers with an object whose \<open>issues\<close> is a list of
  issues that have the members the program reads, the fetch returns one record per issue,
  in order: \<open>key\<close>, \<open>summary\<close> and \<open>status\<close> are the issue's \<open>key\<close>, \<open>fields.summary\<close>
  and \<open>fields.status.name\<close>, and \<open>url\<close> is the base URL, \<open>/browse/\<close> and the key. Two
  issues give two records.
\<close>

theorem tickets_map_one_to_one:
  assumes "http (jira_request s) = Inr (JObj kvs)"
    and "map_of kvs ''issues'' = Some (JArr issues)"
    and "list_all well_formed_issue issues"
  shows "\<exists>tickets. get_completed_jira_tickets s http = ([Get (jira_request s)], Inr tickets)
           \<and> length tickets = length issues
           \<and> list_all2 (ticket_matches s) issues tickets
           \<and> list_all (\<lambda>t. \<forall>k. key t = JStr k \<longrightarrow> url t = jira_url s @ ''/browse/'' @ k)
                 tickets"
proof -
  have "list_all (\<lambda>x. isOK (ticket_of s x)) issues"
    using assms(3) ticket_of_total [of _ s] by (auto simp: list_all_iff)
  then obtain tickets where c: "collect (ticket_of s) issues = Inr tickets"
    using collect_total [of "ticket_of s" issues] by blast
  then have m: "list_all2 (ticket_matches s) issues tickets"
    by (simp add: collect_Inr ticket_of_Inr)
  have u: "list_all (\<lambda>t. \<forall>k. key t = JStr k \<longrightarrow> url t = jira_url s @ ''/browse/'' @ k) tickets"
    using m
    by (auto simp: list_all_iff list_all2_conv_all_nth in_set_conv_nth ticket_matches_def
        py_str_def)
  have "get_completed_jira_tickets s http = ([Get (jira_request s)], Inr tickets)"
    using assms(1,2) c
    by (simp add: get_completed_jira_tickets_def get_or_empty_def iterate_def bind_def)
  then show ?thesis using m u list_all2_lengthD [OF m] by auto
qed

theorem tickets_map_one_to_one_witness:
  "http_sample (jira_request sample_sprint)
     = Inr (JObj [(''issues'', JArr [sample_issue ''AB-1'', sample_issue ''AB-2''])])
   \<and> map_of [(''issues'', JArr [sample_issue ''AB-1'', sample_issue ''AB-2''])] ''issues''
       = Some (JArr [sample_issue ''AB-1'', sample_issue ''AB-2''])
   \<and> list_all well_formed_issue [sample_issue ''AB-1'', sample_issue ''AB-2'']
   \<and> (\<exists>tickets. get_completed_jira_tickets sample_sprint http_sample
                     = ([Get (jira_request sample_sprint)], Inr tickets)
           \<and> length tickets = length [sample_issue ''AB-1'', sample_issue ''AB-2'']
           \<and> list_all2 (ticket_matches sample_sprint)
                 [sample_issue ''AB-1'', sample_issue ''AB-2''] tickets
           \<and> list_all (\<lambda>t. \<forall>k. key t = JStr k
                               \<longrightarrow> url t = jira_url sample_sprint @ ''/browse/'' @ k) tickets)
   \<and> get_completed_jira_tickets sample_sprint http_sample
       = ([Get (jira_request sample_sprint)],
          Inr [\<lparr>key = JStr ''AB-1'', summary = JStr ''Fix'', status = JStr ''Done'',
                url = ''https://x.atlassian.net/browse/AB-1''\<rparr>,
               \<lparr>key = JStr ''AB-2'', summary = JStr ''Fix'', status = JStr ''Done'',
                url = ''https://x.atlassian.net/browse/AB-2''\<rparr>])"
proof -
  have h1: "http_sample (jira_request sample_sprint)
     = Inr (JObj [(''issues'', JArr [sample_issue ''AB-1'', sample_issue ''AB-2''])])"
    by (simp add: http_sample_def jira_request_def sample_sprint_def)
  have h2: "map_of [(''issues'', JArr [sample_issue ''AB-1'', sample_issue ''AB-2''])] ''issues''
       = Some (JArr [sample_issue ''AB-1'', sample_issue ''AB-2''])"
    by simp
  have h3: "list_all well_formed_issue [sample_issue ''AB-1'', sample_issue ''AB-2'']"
    by code_simp
  have run: "get_completed_jira_tickets sample_sprint http_sample
       = ([Get (jira_request sample_sprint)],
          Inr [\<lparr>key = JStr ''AB-1'', summary = JStr ''Fix'', status = JStr ''Done'',
                url = ''https://x.atlassian.net/browse/AB-1''\<rparr>,
               \<lparr>key = JStr ''AB-2'', summary = JStr ''Fix'', status = JStr ''Done'',
                url = ''https://x.atlassian.net/browse/AB-2''\<rparr>])"
    by code_simp
  show ?thesis
    using tickets_map_one_to_one [of http_sample sample_sprint
        "[(''issues'', JArr [sample_issue ''AB-1'', sample_issue ''AB-2''])]"
        "[sample_issue ''AB-1'', sample_issue ''AB-2'']", OF h1 h2 h3] h1 h2 h3 run
    by blast
qed

section \<open>Reading and writing dates\<close>

lemma digit_char_simps:
  "digit_char 0 = CHR ''0''" "digit_char (Suc 0) = CHR ''1''" "digit_char 1 = CHR ''1''"
  "digit_char 2 = CHR ''2''"
  "digit_char 3 = CHR ''3''" "digit_char 4 = CHR ''4''" "digit_char 5 = CHR ''5''"
  "digit_char 6 = CHR ''6''" "digit_char 7 = CHR ''7''" "digit_char 8 = CHR ''8''"
  "digit_char 9 = CHR ''9''"
  by (simp_all add: digit_char_def)

lemma lt10_cases: "(k::nat) < 10 \<Longrightarrow> k = 0 \<or> k = 1 \<or> k = 2 \<or> k = 3 \<or> k = 4 \<or> k = 5 \<or> k = 6 \<or> k = 7 \<or> k = 8 \<or> k = 9"
  by arith

lemma of_char_digit_char: "k < 10 \<Longrightarrow> of_char (digit_char k) = 48 + k"
  using lt10_cases [of k] by (auto simp: digit_char_simps)

lemma ustr_simps:
  "ustr [] = []" "ustr (c # cs) = of_char c # ustr cs" "ustr (s @ t) = ustr s @ ustr t"
  by (simp_all add: ustr_def)

lemma decimal_value_ascii: "k < 10 \<Longrightarrow> decimal_value U (48 + k) = Some k"
  by (simp add: decimal_value_def)

lemma decimal_value_lt: "decimal_value U c = Some v \<Longrightarrow> v < 10"
  by (auto simp: decimal_value_def find_Some_iff split: if_splits option.splits)

lemma decimal_value_char:
  assumes "decimal_value U c = Some v"
  shows "c = 48 + v \<or> c \<in> (\<lambda>z. z + v) ` set (nd_zeros U)"
proof (cases "48 \<le> c \<and> c \<le> 57")
  case True
  then show ?thesis using assms by (auto simp: decimal_value_def)
next
  case False
  then obtain z where z: "find (\<lambda>z. z \<le> c \<and> c < z + 10) (nd_zeros U) = Some z" "v = c - z"
    using assms by (auto simp: decimal_value_def split: if_splits option.splits)
  then have "z \<in> set (nd_zeros U)" "z \<le> c"
    by (auto simp: find_Some_iff)
  then have "c = z + v" "z \<in> set (nd_zeros U)" using z(2) by simp_all
  then show ?thesis by blast
qed

lemma digit_chars_iff: "c \<in> set (digit_chars U v) \<longleftrightarrow> decimal_value U c = Some v"
  using decimal_value_char [of U c v] by (auto simp: digit_chars_def)

lemma is_decimal_iff: "is_decimal U c \<longleftrightarrow> (\<exists>v. decimal_value U c = Some v)"
  by (simp add: is_decimal_def)

lemma digit_val_eq: "decimal_value U c = Some v \<Longrightarrow> digit_val U c = v"
  by (simp add: digit_val_def)

lemma digit_val_decimal: "is_decimal U c \<Longrightarrow> decimal_value U c = Some (digit_val U c)"
  by (auto simp: is_decimal_def digit_val_def)

lemma digit_val_lt: "digit_val U c < 10"
  using decimal_value_lt [of U c] by (cases "decimal_value U c") (simp_all add: digit_val_def)

lemma ascii_digit_not_space: "48 \<le> c \<Longrightarrow> c \<le> 57 \<Longrightarrow> \<not> py_isspace c"
  by (simp add: py_isspace_def)

lemma str_nat_1: "n < 10 \<Longrightarrow> str_nat n = [digit_char n]"
  by (simp add: str_nat.simps)

lemma str_nat_2: "10 \<le> n \<Longrightarrow> n < 100 \<Longrightarrow> str_nat n = [digit_char (n div 10), digit_char (n mod 10)]"
  by (subst str_nat.simps) (simp add: str_nat_1)

lemma str_nat_3: "100 \<le> n \<Longrightarrow> n < 1000 \<Longrightarrow>
  str_nat n = [digit_char (n div 100), digit_char (n div 10 mod 10), digit_char (n mod 10)]"
  by (subst str_nat.simps) (simp add: str_nat_2 div_mult2_eq [symmetric])

lemma str_nat_4: "1000 \<le> n \<Longrightarrow> n < 10000 \<Longrightarrow>
  str_nat n = [digit_char (n div 1000), digit_char (n div 100 mod 10),
               digit_char (n div 10 mod 10), digit_char (n mod 10)]"
  by (subst str_nat.simps) (simp add: str_nat_3 div_mult2_eq [symmetric])

lemma replicate_small: "replicate 2 x = [x, x]" "replicate 3 x = [x, x, x]"
  by (simp_all add: numeral_2_eq_2 numeral_3_eq_3)

lemma zero_pad_2: "n < 100 \<Longrightarrow> zero_pad 2 (str_nat n) = [digit_char (n div 10), digit_char (n mod 10)]"
  by (cases "n < 10") (simp_all add: zero_pad_def str_nat_1 str_nat_2 digit_char_simps)

lemma zero_pad_4: "n < 10000 \<Longrightarrow>
  zero_pad 4 (str_nat n) = [digit_char (n div 1000), digit_char (n div 100 mod 10),
               digit_char (n div 10 mod 10), digit_char (n mod 10)]"
proof -
  assume a: "n < 10000"
  consider "n < 10" | "10 \<le> n" "n < 100" | "100 \<le> n" "n < 1000" | "1000 \<le> n"
    by linarith
  then show ?thesis
  proof cases
    case 1 then show ?thesis by (simp add: zero_pad_def str_nat_1 digit_char_simps replicate_small)
  next
    case 2 then show ?thesis by (simp add: zero_pad_def str_nat_2 digit_char_simps replicate_small)
  next
    case 3 then show ?thesis by (simp add: zero_pad_def str_nat_3 digit_char_simps)
  next
    case 4 then show ?thesis using a by (simp add: zero_pad_def str_nat_4)
  qed
qed

lemma int_of_digits_small:
  "int_of_digits U [a] = digit_val U a"
  "int_of_digits U [a, b] = 10 * digit_val U a + digit_val U b"
  "int_of_digits U [a, b, c, d]
     = 1000 * digit_val U a + 100 * digit_val U b + 10 * digit_val U c + digit_val U d"
  by (simp_all add: int_of_digits_def)

lemma digit_val_simps:
  "digit_val U 48 = 0" "digit_val U 49 = 1" "digit_val U 50 = 2" "digit_val U 51 = 3" "digit_val U 52 = 4" "digit_val U 53 = 5" "digit_val U 54 = 6" "digit_val U 55 = 7" "digit_val U 56 = 8" "digit_val U 57 = 9"
  by (simp_all add: digit_val_def decimal_value_def)

lemma is_decimal_simps:
  "is_decimal U 48" "is_decimal U 49" "is_decimal U 50" "is_decimal U 51" "is_decimal U 52" "is_decimal U 53" "is_decimal U 54" "is_decimal U 55" "is_decimal U 56" "is_decimal U 57"
  by (simp_all add: is_decimal_def decimal_value_def)

lemma str_table:
  "ustr (str_nat 1) = [49]" "ustr (str_nat 2) = [50]" "ustr (str_nat 3) = [51]" "ustr (str_nat 4) = [52]" "ustr (str_nat 5) = [53]" "ustr (str_nat 6) = [54]" "ustr (str_nat 7) = [55]" "ustr (str_nat 8) = [56]" "ustr (str_nat 9) = [57]" "ustr (str_nat 10) = [49, 48]" "ustr (str_nat 11) = [49, 49]" "ustr (str_nat 12) = [49, 50]" "ustr (str_nat 13) = [49, 51]" "ustr (str_nat 14) = [49, 52]" "ustr (str_nat 15) = [49, 53]" "ustr (str_nat 16) = [49, 54]" "ustr (str_nat 17) = [49, 55]" "ustr (str_nat 18) = [49, 56]" "ustr (str_nat 19) = [49, 57]" "ustr (str_nat 20) = [50, 48]" "ustr (str_nat 21) = [50, 49]" "ustr (str_nat 22) = [50, 50]" "ustr (str_nat 23) = [50, 51]" "ustr (str_nat 24) = [50, 52]" "ustr (str_nat 25) = [50, 53]" "ustr (str_nat 26) = [50, 54]" "ustr (str_nat 27) = [50, 55]" "ustr (str_nat 28) = [50, 56]" "ustr (str_nat 29) = [50, 57]" "ustr (str_nat 30) = [51, 48]" "ustr (str_nat 31) = [51, 49]" "ustr (str_nat (Suc 0)) = [49]" "ustr (str_nat (Suc (Suc 0))) = [50]"
  by (simp_all add: str_nat.simps digit_char_def ustr_def)

lemma pad_table:
  "ustr (zero_pad 2 (str_nat 1)) = [48, 49]" "ustr (zero_pad 2 (str_nat 2)) = [48, 50]" "ustr (zero_pad 2 (str_nat 3)) = [48, 51]" "ustr (zero_pad 2 (str_nat 4)) = [48, 52]" "ustr (zero_pad 2 (str_nat 5)) = [48, 53]" "ustr (zero_pad 2 (str_nat 6)) = [48, 54]" "ustr (zero_pad 2 (str_nat 7)) = [48, 55]" "ustr (zero_pad 2 (str_nat 8)) = [48, 56]" "ustr (zero_pad 2 (str_nat 9)) = [48, 57]" "ustr (zero_pad 2 (str_nat 10)) = [49, 48]" "ustr (zero_pad 2 (str_nat 11)) = [49, 49]" "ustr (zero_pad 2 (str_nat 12)) = [49, 50]" "ustr (zero_pad 2 (str_nat 13)) = [49, 51]" "ustr (zero_pad 2 (str_nat 14)) = [49, 52]" "ustr (zero_pad 2 (str_nat 15)) = [49, 53]" "ustr (zero_pad 2 (str_nat 16)) = [49, 54]" "ustr (zero_pad 2 (str_nat 17)) = [49, 55]" "ustr (zero_pad 2 (str_nat 18)) = [49, 56]" "ustr (zero_pad 2 (str_nat 19)) = [49, 57]" "ustr (zero_pad 2 (str_nat 20)) = [50, 48]" "ustr (zero_pad 2 (str_nat 21)) = [50, 49]" "ustr (zero_pad 2 (str_nat 22)) = [50, 50]" "ustr (zero_pad 2 (str_nat 23)) = [50, 51]" "ustr (zero_pad 2 (str_nat 24)) = [50, 52]" "ustr (zero_pad 2 (str_nat 25)) = [50, 53]" "ustr (zero_pad 2 (str_nat 26)) = [50, 54]" "ustr (zero_pad 2 (str_nat 27)) = [50, 55]" "ustr (zero_pad 2 (str_nat 28)) = [50, 56]" "ustr (zero_pad 2 (str_nat 29)) = [50, 57]" "ustr (zero_pad 2 (str_nat 30)) = [51, 48]" "ustr (zero_pad 2 (str_nat 31)) = [51, 49]" "ustr (zero_pad 2 (str_nat (Suc 0))) = [48, 49]" "ustr (zero_pad 2 (str_nat (Suc (Suc 0)))) = [48, 50]"
  by (simp_all add: str_nat.simps digit_char_def ustr_def zero_pad_def)

lemma le12_cases: "1 \<le> (m::nat) \<Longrightarrow> m \<le> 12 \<Longrightarrow>
  m = 1 \<or> m = 2 \<or> m = 3 \<or> m = 4 \<or> m = 5 \<or> m = 6 \<or> m = 7 \<or> m = 8 \<or> m = 9 \<or> m = 10 \<or> m = 11 \<or> m = 12"
  by arith

lemma le31_cases: "1 \<le> (d::nat) \<Longrightarrow> d \<le> 31 \<Longrightarrow>
  d = 1 \<or> d = 2 \<or> d = 3 \<or> d = 4 \<or> d = 5 \<or> d = 6 \<or> d = 7 \<or> d = 8 \<or> d = 9 \<or> d = 10 \<or> d = 11 \<or> d = 12 \<or> d = 13 \<or> d = 14 \<or> d = 15 \<or> d = 16 \<or> d = 17 \<or> d = 18 \<or> d = 19 \<or> d = 20 \<or> d = 21 \<or> d = 22 \<or> d = 23 \<or> d = 24 \<or> d = 25 \<or> d = 26 \<or> d = 27 \<or> d = 28 \<or> d = 29 \<or> d = 30 \<or> d = 31"
  by arith

lemmas parse_eval = int_of_digits_small digit_val_simps is_decimal_simps str_table pad_table

lemma parse_month_sound:
  assumes "parse_month U t = Some (m, rest)"
  shows "1 \<le> m \<and> m \<le> 12
         \<and> (t = ustr (zero_pad 2 (str_nat m)) @ 45 # rest \<or> t = ustr (str_nat m) @ 45 # rest)"
proof (cases t)
  case Nil
  then show ?thesis using assms by (simp add: parse_month_def)
next
  case t1: (Cons a u)
  show ?thesis
  proof (cases u)
    case Nil
    then show ?thesis using assms t1 by (simp add: parse_month_def)
  next
    case t2: (Cons b v)
    show ?thesis
    proof (cases v)
      case Nil
      then show ?thesis using assms t1 t2
        by (auto simp: parse_month_def ustr_simps parse_eval split: if_splits)
    next
      case t3: (Cons c w)
      then show ?thesis using assms t1 t2
        by (auto simp: parse_month_def month_text_def ustr_simps parse_eval split: if_splits)
    qed
  qed
qed

lemma parse_month_complete_pad:
  assumes "1 \<le> m" "m \<le> 12"
  shows "parse_month U (ustr (zero_pad 2 (str_nat m)) @ 45 # rest) = Some (m, rest)"
  using le12_cases [OF assms]
  by (elim disjE) (simp_all add: parse_month_def month_text_def ustr_simps parse_eval)

lemma parse_month_complete_bare:
  assumes "1 \<le> m" "m < 10"
  shows "parse_month U (ustr (str_nat m) @ 45 # rest) = Some (m, rest)"
proof -
  have "m = 1 \<or> m = 2 \<or> m = 3 \<or> m = 4 \<or> m = 5 \<or> m = 6 \<or> m = 7 \<or> m = 8 \<or> m = 9"
    using assms by arith
  then show ?thesis
    by (elim disjE) (simp_all add: parse_month_def month_text_def ustr_simps parse_eval)
qed

lemma day_texts_iff:
  "t \<in> set (day_texts U d) \<longleftrightarrow>
     t = ustr (zero_pad 2 (str_nat d)) \<or> t = ustr (str_nat d)
     \<or> (d < 10 \<and> t = 32 # ustr (str_nat d))
     \<or> (10 \<le> d \<and> d < 30 \<and> (\<exists>b. decimal_value U b = Some (d mod 10) \<and> t = [48 + d div 10, b]))"
  by (auto simp: day_texts_def digit_chars_iff ustr_simps)

lemma two_digit_day:
  assumes "a = 49 \<or> a = 50" "is_decimal U b"
  defines "d \<equiv> 10 * (a - 48) + digit_val U b"
  shows "10 \<le> d" "d < 30" "48 + d div 10 = a" "decimal_value U b = Some (d mod 10)"
proof -
  have v: "digit_val U b < 10" by (rule digit_val_lt)
  have q: "d div 10 = a - 48" and r: "d mod 10 = digit_val U b"
    using v by (simp_all add: d_def)
  show "10 \<le> d" "d < 30" using assms(1) v by (auto simp: d_def)
  show "48 + d div 10 = a" using assms(1) q by auto
  show "decimal_value U b = Some (d mod 10)" using assms(2) r by (simp add: digit_val_decimal)
qed

lemma parse_day_sound:
  assumes "parse_day U t = Some d"
  shows "1 \<le> d \<and> d \<le> 31 \<and> t \<in> set (day_texts U d)"
proof (cases t)
  case Nil
  then show ?thesis using assms by (simp add: parse_day_def)
next
  case t1: (Cons a u)
  show ?thesis
  proof (cases u)
    case Nil
    then show ?thesis using assms t1
      by (auto simp: parse_day_def day_texts_iff ustr_simps parse_eval split: if_splits)
  next
    case t2: (Cons b v)
    show ?thesis
    proof (cases v)
      case Nil
      show ?thesis
      proof (cases "(a = 49 \<or> a = 50) \<and> is_decimal U b")
        case True
        then have dt: "day_text U a b" by (auto simp: day_text_def ustr_simps)
        have d: "d = 10 * (a - 48) + digit_val U b"
          using assms t1 t2 Nil dt True by (auto simp: parse_day_def int_of_digits_small digit_val_simps)
        note f = two_digit_day [of a U b, folded d]
        show ?thesis
          unfolding day_texts_iff t1 t2 Nil using f True by auto
      next
        case False
        then show ?thesis using assms t1 t2 Nil
          by (auto simp: parse_day_def day_text_def day_texts_iff ustr_simps parse_eval
              split: if_splits)
      qed
    next
      case t3: (Cons c w)
      then show ?thesis using assms t1 t2
        by (simp add: parse_day_def)
    qed
  qed
qed

lemma parse_day_complete_pad:
  assumes "1 \<le> d" "d \<le> 31"
  shows "parse_day U (ustr (zero_pad 2 (str_nat d))) = Some d"
  using le31_cases [OF assms]
  by (elim disjE) (simp_all add: parse_day_def day_text_def ustr_simps parse_eval)

lemma parse_day_complete_bare:
  assumes "1 \<le> d" "d \<le> 31"
  shows "parse_day U (ustr (str_nat d)) = Some d"
  using le31_cases [OF assms]
  by (elim disjE) (simp_all add: parse_day_def day_text_def ustr_simps parse_eval)

lemma parse_day_complete_space:
  assumes "1 \<le> d" "d < 10"
  shows "parse_day U (32 # ustr (str_nat d)) = Some d"
proof -
  have "d = 1 \<or> d = 2 \<or> d = 3 \<or> d = 4 \<or> d = 5 \<or> d = 6 \<or> d = 7 \<or> d = 8 \<or> d = 9"
    using assms by arith
  then show ?thesis
    by (elim disjE) (simp_all add: parse_day_def day_text_def ustr_simps parse_eval)
qed

lemma parse_day_complete_script:
  assumes "10 \<le> d" "d < 30" "decimal_value U b = Some (d mod 10)"
  shows "parse_day U [48 + d div 10, b] = Some d"
proof -
  have q: "d div 10 = 1 \<or> d div 10 = 2" using assms(1,2) by auto
  have dt: "day_text U (48 + d div 10) b"
    using q assms(3) by (auto simp: day_text_def ustr_simps is_decimal_def)
  have "digit_val U (48 + d div 10) = d div 10"
    using q by (auto simp: digit_val_simps)
  moreover have "digit_val U b = d mod 10" using assms(3) by (rule digit_val_eq)
  ultimately have "int_of_digits U [48 + d div 10, b] = d"
    by (simp add: int_of_digits_small)
  then show ?thesis using dt by (simp add: parse_day_def)
qed

lemma parse_day_complete:
  assumes "1 \<le> d" "d \<le> 31" "t \<in> set (day_texts U d)"
  shows "parse_day U t = Some d"
  using assms(3) parse_day_complete_pad [OF assms(1,2)] parse_day_complete_bare [OF assms(1,2)]
    parse_day_complete_space [OF assms(1)] parse_day_complete_script
  unfolding day_texts_iff by blast


lemma divmod10: "r < 10 \<Longrightarrow> (10 * q + r) div 10 = (q::nat) \<and> (10 * q + r) mod 10 = r"
  by simp

lemma digits4:
  fixes va vb vc vd :: nat
  assumes "va < 10" "vb < 10" "vc < 10" "vd < 10"
  defines "y \<equiv> 1000 * va + 100 * vb + 10 * vc + vd"
  shows "y div 1000 = va" "y div 100 mod 10 = vb" "y div 10 mod 10 = vc" "y mod 10 = vd"
proof -
  have y1: "y = 10 * (100 * va + 10 * vb + vc) + vd" by (simp add: y_def)
  have q1: "y div 10 = 100 * va + 10 * vb + vc" and r1: "y mod 10 = vd"
    using divmod10 [OF assms(4), of "100 * va + 10 * vb + vc"] y1 by simp_all
  have "100 * va + 10 * vb + vc = 10 * (10 * va + vb) + vc" by simp
  then have q2: "y div 10 div 10 = 10 * va + vb" and r2: "y div 10 mod 10 = vc"
    using divmod10 [OF assms(3), of "10 * va + vb"] q1 by simp_all
  have q3: "y div 10 div 10 div 10 = va" and r3: "y div 10 div 10 mod 10 = vb"
    using divmod10 [OF assms(2), of va] q2 by simp_all
  have e100: "y div 100 = y div 10 div 10" by (simp add: div_mult2_eq [symmetric])
  have e1000: "y div 1000 = y div 10 div 10 div 10" by (simp add: div_mult2_eq [symmetric])
  show "y div 1000 = va" using e1000 q3 by simp
  show "y div 100 mod 10 = vb" using e100 r3 by simp
  show "y div 10 mod 10 = vc" by (rule r2)
  show "y mod 10 = vd" by (rule r1)
qed

lemma digits4_sum:
  fixes y :: nat
  shows "1000 * (y div 1000) + 100 * (y div 100 mod 10) + 10 * (y div 10 mod 10) + y mod 10 = y"
proof -
  have e100: "y div 100 = y div 10 div 10" by (simp add: div_mult2_eq [symmetric])
  have e1000: "y div 1000 = y div 10 div 10 div 10" by (simp add: div_mult2_eq [symmetric])
  have a: "y = 10 * (y div 10) + y mod 10" by simp
  have b: "y div 10 = 10 * (y div 10 div 10) + y div 10 mod 10" by simp
  have c: "y div 10 div 10 = 10 * (y div 10 div 10 div 10) + y div 10 div 10 mod 10" by simp
  show ?thesis unfolding e100 e1000 using a b c by linarith
qed

lemma year_texts_iff:
  "t \<in> set (year_texts U y) \<longleftrightarrow>
     (\<exists>a b c d. t = [a, b, c, d] \<and> decimal_value U a = Some (y div 1000)
        \<and> decimal_value U b = Some (y div 100 mod 10)
        \<and> decimal_value U c = Some (y div 10 mod 10)
        \<and> decimal_value U d = Some (y mod 10))"
proof
  assume "t \<in> set (year_texts U y)"
  then show "\<exists>a b c d. t = [a, b, c, d] \<and> decimal_value U a = Some (y div 1000)
        \<and> decimal_value U b = Some (y div 100 mod 10)
        \<and> decimal_value U c = Some (y div 10 mod 10)
        \<and> decimal_value U d = Some (y mod 10)"
    by (auto simp: year_texts_def digit_chars_iff)
next
  assume "\<exists>a b c d. t = [a, b, c, d] \<and> decimal_value U a = Some (y div 1000)
        \<and> decimal_value U b = Some (y div 100 mod 10)
        \<and> decimal_value U c = Some (y div 10 mod 10)
        \<and> decimal_value U d = Some (y mod 10)"
  then obtain a b c d where t: "t = [a, b, c, d]"
    and m: "a \<in> set (digit_chars U (y div 1000))" "b \<in> set (digit_chars U (y div 100 mod 10))"
      "c \<in> set (digit_chars U (y div 10 mod 10))" "d \<in> set (digit_chars U (y mod 10))"
    unfolding digit_chars_iff by blast
  show "t \<in> set (year_texts U y)"
    unfolding year_texts_def t using m by (simp add: image_iff) 
qed



lemma year_sound:
  assumes "list_all (is_decimal U) [a, b, c, d]"
  shows "[a, b, c, d] \<in> set (year_texts U (int_of_digits U [a, b, c, d]))"
proof -
  define va vb vc vd where "va = digit_val U a" and "vb = digit_val U b"
    and "vc = digit_val U c" and "vd = digit_val U d"
  have bounds: "va < 10" "vb < 10" "vc < 10" "vd < 10"
    by (simp_all add: va_def vb_def vc_def vd_def digit_val_lt)
  have vals: "decimal_value U a = Some va" "decimal_value U b = Some vb"
    "decimal_value U c = Some vc" "decimal_value U d = Some vd"
    using assms by (simp_all add: va_def vb_def vc_def vd_def digit_val_decimal)
  define y where "y = 1000 * va + 100 * vb + 10 * vc + vd"
  have y: "int_of_digits U [a, b, c, d] = y"
    by (simp add: int_of_digits_small y_def va_def vb_def vc_def vd_def)
  have "y div 1000 = va" "y div 100 mod 10 = vb" "y div 10 mod 10 = vc" "y mod 10 = vd"
    using digits4 [OF bounds] unfolding y_def by simp_all
  then show ?thesis unfolding y year_texts_iff using vals by simp
qed

lemma year_complete:
  assumes "t \<in> set (year_texts U y)"
  shows "length t = 4" and "list_all (is_decimal U) t" and "int_of_digits U t = y"
proof -
  obtain a b c d where t: "t = [a, b, c, d]"
    and v: "decimal_value U a = Some (y div 1000)" "decimal_value U b = Some (y div 100 mod 10)"
      "decimal_value U c = Some (y div 10 mod 10)" "decimal_value U d = Some (y mod 10)"
    using assms unfolding year_texts_iff by blast
  show "length t = 4" by (simp add: t)
  show "list_all (is_decimal U) t" using v by (simp add: t is_decimal_def)
  show "int_of_digits U t = y"
    using digits4_sum [of y] v by (simp add: t int_of_digits_small digit_val_eq)
qed

lemma iso_year_text:
  assumes "y < 10000"
  shows "ustr (zero_pad 4 (str_nat y)) \<in> set (year_texts U y)"
proof -
  have d: "y div 1000 < 10" "y div 100 mod 10 < 10" "y div 10 mod 10 < 10" "y mod 10 < 10"
    using assms by (simp_all add: less_mult_imp_div_less)
  show ?thesis
    unfolding year_texts_iff zero_pad_4 [OF assms]
    using d by (simp add: ustr_simps of_char_digit_char decimal_value_ascii)
qed

lemma date_texts_set:
  "t \<in> set (date_texts U y m d) \<longleftrightarrow>
     (\<exists>yt\<in>set (year_texts U y). \<exists>mt\<in>set (month_texts m). \<exists>dt\<in>set (day_texts U d).
        t = yt @ 45 # mt @ 45 # dt)"
  by (auto simp: date_texts_def ustr_simps)

lemma iso_text_in_date_texts:
  assumes "y < 10000"
  shows "iso_text y m d \<in> set (date_texts U y m d)"
  unfolding date_texts_set
  using iso_year_text [OF assms, of U]
  by (auto simp: iso_text_def month_texts_def day_texts_def ustr_simps)

lemma days_in_month_le: "days_in_month y m \<le> 31"
  by (simp add: days_in_month_def)

lemma strptime_complete:
  assumes v: "valid_date y m d"
    and yt: "yt \<in> set (year_texts U y)"
    and mt: "mt \<in> set (month_texts m)"
    and dx: "dx \<in> set (day_texts U d)"
  shows "strptime_ymd U (yt @ 45 # mt @ 45 # dx) = Some (midnight y m d)"
proof -
  have mb: "1 \<le> m" "m \<le> 12" and db: "1 \<le> d" "d \<le> 31"
    using v days_in_month_le [of y m] by (auto simp: valid_date_def)
  note yc = year_complete [OF yt]
  have same: "10 \<le> m \<Longrightarrow> ustr (str_nat m) = ustr (zero_pad 2 (str_nat m))"
    using mb by (simp add: str_nat_2 zero_pad_def)
  have pm: "parse_month U (mt @ 45 # dx) = Some (m, dx)"
  proof (cases "m < 10")
    case True
    then show ?thesis
      using mt parse_month_complete_pad [OF mb] parse_month_complete_bare [OF mb(1) True]
      by (auto simp: month_texts_def)
  next
    case False
    then show ?thesis
      using mt parse_month_complete_pad [OF mb] same by (auto simp: month_texts_def)
  qed
  have pd: "parse_day U dx = Some d"
    using parse_day_complete [OF db dx] .
  have t4: "take 4 (yt @ 45 # mt @ 45 # dx) = yt"
    and n4: "(yt @ 45 # mt @ 45 # dx) ! 4 = 45"
    and d5: "drop 5 (yt @ 45 # mt @ 45 # dx) = mt @ 45 # dx"
    using yc(1) by (simp_all add: nth_append)
  show ?thesis
    unfolding strptime_ymd_def t4 n4 d5
    using yc v pm pd by (simp add: midnight_def)
qed

lemma length4: "length xs = 4 \<Longrightarrow> \<exists>a b c d. xs = [a, b, c, d]"
  by (simp add: eval_nat_numeral length_Suc_conv) blast

lemma strptime_sound:
  assumes h: "strptime_ymd U t = Some dt"
  shows "\<exists>y m d. valid_date y m d \<and> t \<in> set (date_texts U y m d) \<and> dt = midnight y m d"
proof -
  have c: "5 \<le> length t" "list_all (is_decimal U) (take 4 t)" "t ! 4 = 45"
    using h by (auto simp: strptime_ymd_def split: if_splits)
  obtain m rest where pm: "parse_month U (drop 5 t) = Some (m, rest)"
    using h c by (auto simp: strptime_ymd_def split: option.splits)
  obtain d where pd: "parse_day U rest = Some d"
    using h c pm by (auto simp: strptime_ymd_def split: option.splits)
  define y where "y = int_of_digits U (take 4 t)"
  have v: "valid_date y m d" and dt: "dt = midnight y m d"
    using h c pm pd by (auto simp: strptime_ymd_def Let_def midnight_def y_def split: if_splits)
  have "length (take 4 t) = 4" using c(1) by simp
  then obtain a b c' d' where t4: "take 4 t = [a, b, c', d']" using length4 by blast
  have Y: "take 4 t \<in> set (year_texts U y)"
    using year_sound [of U a b c' d'] c(2) by (simp add: t4 y_def)
  have "drop 4 t = t ! 4 # drop 5 t"
    using c(1) Cons_nth_drop_Suc [of 4 t] by simp
  then have split: "t = take 4 t @ 45 # drop 5 t"
    using c(3) append_take_drop_id [of 4 t] by simp
  obtain mt where mt: "mt \<in> set (month_texts m)" "drop 5 t = mt @ 45 # rest"
    using parse_month_sound [OF pm] by (auto simp: month_texts_def)
  have dx: "rest \<in> set (day_texts U d)"
    using parse_day_sound [OF pd] by simp
  have "t \<in> set (date_texts U y m d)"
    unfolding date_texts_set using mt dx split Y by force
  then show ?thesis using v dt by blast
qed

lemma strptime_date_text:
  "valid_date y m d \<Longrightarrow> t \<in> set (date_texts U y m d) \<Longrightarrow> strptime_ymd U t = Some (midnight y m d)"
  using strptime_complete by (auto simp: date_texts_set)

lemma midnight_inject: "midnight y m d = midnight y' m' d' \<longleftrightarrow> y = y' \<and> m = m' \<and> d = d'"
  by (auto simp: midnight_def)

lemma date_text_iff:
  assumes "valid_date y m d"
  shows "t \<in> set (date_texts U y m d) \<longleftrightarrow> strptime_ymd U t = Some (midnight y m d)"
proof
  assume "t \<in> set (date_texts U y m d)"
  then show "strptime_ymd U t = Some (midnight y m d)" using assms by (simp add: strptime_date_text)
next
  assume "strptime_ymd U t = Some (midnight y m d)"
  then show "t \<in> set (date_texts U y m d)"
    using strptime_sound [of U t "midnight y m d"] by (auto simp: midnight_inject)
qed

lemma py_strip_id:
  assumes "s \<noteq> []" "\<not> py_isspace (hd s)" "\<not> py_isspace (last s)"
  shows "py_strip s = s"
proof -
  have 1: "dropWhile py_isspace s = s" using assms by (simp add: dropWhile_eq_self_iff)
  have 2: "dropWhile py_isspace (rev s) = rev s"
    using assms by (simp add: dropWhile_eq_self_iff hd_rev)
  show ?thesis by (simp add: py_strip_def 1 2)
qed

lemma py_strip_iso_text:
  assumes "valid_date y m d"
  shows "py_strip (iso_text y m d) = iso_text y m d"
proof -
  have yb: "y < 10000" and mb: "m < 100" and db: "d < 100"
    using assms days_in_month_le [of y m] by (auto simp: valid_date_def)
  have e: "iso_text y m d
             = [of_char (digit_char (y div 1000)), of_char (digit_char (y div 100 mod 10)),
                of_char (digit_char (y div 10 mod 10)), of_char (digit_char (y mod 10)), 45,
                of_char (digit_char (m div 10)), of_char (digit_char (m mod 10)), 45,
                of_char (digit_char (d div 10)), of_char (digit_char (d mod 10))]"
    by (simp add: iso_text_def zero_pad_4 [OF yb] zero_pad_2 [OF mb] zero_pad_2 [OF db] ustr_simps)
  have "y div 1000 < 10" using yb by (simp add: less_mult_imp_div_less)
  then have h: "\<not> py_isspace (of_char (digit_char (y div 1000)))"
    by (simp add: of_char_digit_char ascii_digit_not_space)
  have l: "\<not> py_isspace (of_char (digit_char (d mod 10)))"
    by (simp add: of_char_digit_char ascii_digit_not_space)
  show ?thesis unfolding e by (rule py_strip_id) (simp_all add: h l)
qed

lemma isdigit_not_date: "py_isdigit U t \<Longrightarrow> strptime_ymd U t = None"
proof (cases "5 \<le> length t \<and> t ! 4 = 45")
  case True
  assume "py_isdigit U t"
  then have "\<forall>n<length t. is_digit_char U (t ! n)"
    by (simp add: py_isdigit_def list_all_length)
  moreover have "4 < length t" using True by simp
  ultimately have "is_digit_char U (t ! 4)" by blast
  then show ?thesis using True by (simp add: is_digit_char_def is_decimal_def decimal_value_def)
next
  case False
  then show ?thesis by (auto simp: strptime_ymd_def)
qed

lemma decimal_isdigit: "t \<noteq> [] \<Longrightarrow> list_all (is_decimal U) t \<Longrightarrow> py_isdigit U t"
  by (auto simp: py_isdigit_def is_digit_char_def list_all_iff)


lemmas run_eval = ustr_def py_strip_def py_isspace_def strptime_ymd_def parse_month_def
  parse_day_def month_text_def day_text_def is_decimal_def decimal_value_def int_of_digits_def
  digit_val_def valid_date_def days_in_month_def is_leap_def midnight_def sample_unicode_def
  py_isdigit_def is_digit_char_def Let_def

section \<open>Days and dates\<close>

lemma month_day_k1:
  assumes "(r + 50) div 32 = 1" "0 \<le> r" "r < 14" "r < 365"
  shows "month_day_ok leap r"
  using assms
  by (cases leap; cases "r < 0"; cases "r < 1")
     (simp_all add: month_day_ok_def month_day_def Let_def)

lemma month_day_k2:
  assumes "(r + 50) div 32 = 2" "14 \<le> r" "r < 46" "r < 365"
  shows "month_day_ok leap r"
  using assms
  by (cases leap; cases "r < 31"; cases "r < 32")
     (simp_all add: month_day_ok_def month_day_def Let_def)

lemma month_day_k3:
  assumes "(r + 50) div 32 = 3" "46 \<le> r" "r < 78" "r < 365"
  shows "month_day_ok leap r"
  using assms
  by (cases leap; cases "r < 59"; cases "r < 60")
     (simp_all add: month_day_ok_def month_day_def Let_def)

lemma month_day_k4:
  assumes "(r + 50) div 32 = 4" "78 \<le> r" "r < 110" "r < 365"
  shows "month_day_ok leap r"
  using assms
  by (cases leap; cases "r < 90"; cases "r < 91")
     (simp_all add: month_day_ok_def month_day_def Let_def)

lemma month_day_k5:
  assumes "(r + 50) div 32 = 5" "110 \<le> r" "r < 142" "r < 365"
  shows "month_day_ok leap r"
  using assms
  by (cases leap; cases "r < 120"; cases "r < 121")
     (simp_all add: month_day_ok_def month_day_def Let_def)

lemma month_day_k6:
  assumes "(r + 50) div 32 = 6" "142 \<le> r" "r < 174" "r < 365"
  shows "month_day_ok leap r"
  using assms
  by (cases leap; cases "r < 151"; cases "r < 152")
     (simp_all add: month_day_ok_def month_day_def Let_def)

lemma month_day_k7:
  assumes "(r + 50) div 32 = 7" "174 \<le> r" "r < 206" "r < 365"
  shows "month_day_ok leap r"
  using assms
  by (cases leap; cases "r < 181"; cases "r < 182")
     (simp_all add: month_day_ok_def month_day_def Let_def)

lemma month_day_k8:
  assumes "(r + 50) div 32 = 8" "206 \<le> r" "r < 238" "r < 365"
  shows "month_day_ok leap r"
  using assms
  by (cases leap; cases "r < 212"; cases "r < 213")
     (simp_all add: month_day_ok_def month_day_def Let_def)

lemma month_day_k9:
  assumes "(r + 50) div 32 = 9" "238 \<le> r" "r < 270" "r < 365"
  shows "month_day_ok leap r"
  using assms
  by (cases leap; cases "r < 243"; cases "r < 244")
     (simp_all add: month_day_ok_def month_day_def Let_def)

lemma month_day_k10:
  assumes "(r + 50) div 32 = 10" "270 \<le> r" "r < 302" "r < 365"
  shows "month_day_ok leap r"
  using assms
  by (cases leap; cases "r < 273"; cases "r < 274")
     (simp_all add: month_day_ok_def month_day_def Let_def)

lemma month_day_k11:
  assumes "(r + 50) div 32 = 11" "302 \<le> r" "r < 334" "r < 365"
  shows "month_day_ok leap r"
  using assms
  by (cases leap; cases "r < 304"; cases "r < 305")
     (simp_all add: month_day_ok_def month_day_def Let_def)

lemma month_day_k12:
  assumes "(r + 50) div 32 = 12" "334 \<le> r" "r < 366" "r < 365"
  shows "month_day_ok leap r"
  using assms
  by (cases leap; cases "r < 334"; cases "r < 335")
     (simp_all add: month_day_ok_def month_day_def Let_def)



lemma month_day_ok_all:
  assumes "r < 365"
  shows "month_day_ok leap r"
proof -
  define k where "k = (r + 50) div 32"
  have kd: "(r + 50) div 32 = k" by (simp add: k_def)
  have b: "32 * k \<le> r + 50" "r + 50 < 32 * k + 32"
    using div_times_less_eq_dividend [of "r + 50" 32] dividend_less_div_times [of 32 "r + 50"]
    by (simp_all add: k_def mult.commute)
  have "1 \<le> k" "k \<le> 12" using b assms by linarith+
  then have "k = 1 \<or> k = 2 \<or> k = 3 \<or> k = 4 \<or> k = 5 \<or> k = 6 \<or> k = 7 \<or> k = 8 \<or> k = 9
         \<or> k = 10 \<or> k = 11 \<or> k = 12"
    by (rule le12_cases)
  then show ?thesis
  proof (elim disjE)

    assume e: "k = 1"
    have "0 \<le> r" "r < 14" using b unfolding e by linarith+
    then show ?thesis using month_day_k1 [of r leap] kd assms unfolding e by blast
  next

    assume e: "k = 2"
    have "14 \<le> r" "r < 46" using b unfolding e by linarith+
    then show ?thesis using month_day_k2 [of r leap] kd assms unfolding e by blast
  next

    assume e: "k = 3"
    have "46 \<le> r" "r < 78" using b unfolding e by linarith+
    then show ?thesis using month_day_k3 [of r leap] kd assms unfolding e by blast
  next

    assume e: "k = 4"
    have "78 \<le> r" "r < 110" using b unfolding e by linarith+
    then show ?thesis using month_day_k4 [of r leap] kd assms unfolding e by blast
  next

    assume e: "k = 5"
    have "110 \<le> r" "r < 142" using b unfolding e by linarith+
    then show ?thesis using month_day_k5 [of r leap] kd assms unfolding e by blast
  next

    assume e: "k = 6"
    have "142 \<le> r" "r < 174" using b unfolding e by linarith+
    then show ?thesis using month_day_k6 [of r leap] kd assms unfolding e by blast
  next

    assume e: "k = 7"
    have "174 \<le> r" "r < 206" using b unfolding e by linarith+
    then show ?thesis using month_day_k7 [of r leap] kd assms unfolding e by blast
  next

    assume e: "k = 8"
    have "206 \<le> r" "r < 238" using b unfolding e by linarith+
    then show ?thesis using month_day_k8 [of r leap] kd assms unfolding e by blast
  next

    assume e: "k = 9"
    have "238 \<le> r" "r < 270" using b unfolding e by linarith+
    then show ?thesis using month_day_k9 [of r leap] kd assms unfolding e by blast
  next

    assume e: "k = 10"
    have "270 \<le> r" "r < 302" using b unfolding e by linarith+
    then show ?thesis using month_day_k10 [of r leap] kd assms unfolding e by blast
  next

    assume e: "k = 11"
    have "302 \<le> r" "r < 334" using b unfolding e by linarith+
    then show ?thesis using month_day_k11 [of r leap] kd assms unfolding e by blast
  next

    assume e: "k = 12"
    have "334 \<le> r" "r < 366" using b unfolding e by linarith+
    then show ?thesis using month_day_k12 [of r leap] kd assms unfolding e by blast

  qed
qed

lemma div_unique_nat: "r < c \<Longrightarrow> (c * q + r) div c = (q::nat)"
  by simp

lemma mod_unique_nat: "r < c \<Longrightarrow> (c * q + r) mod c = (r::nat)"
  by simp

lemma dby_formula:
  assumes "n100 \<le> 3" "n4 \<le> 24" "n1 \<le> 3"
  shows "days_before_year (a * 400 + 1 + n100 * 100 + n4 * 4 + n1)
           = 146097 * a + 36524 * n100 + 1461 * n4 + 365 * n1"
proof -
  define P where "P = 400 * a + 100 * n100 + 4 * n4 + n1"
  have "P = 4 * (100 * a + 25 * n100 + n4) + n1" by (simp add: P_def)
  then have d4: "P div 4 = 100 * a + 25 * n100 + n4"
    using div_unique_nat [of n1 4 "100 * a + 25 * n100 + n4"] assms by simp
  have "P = 100 * (4 * a + n100) + (4 * n4 + n1)" by (simp add: P_def)
  then have d100: "P div 100 = 4 * a + n100"
    using div_unique_nat [of "4 * n4 + n1" 100 "4 * a + n100"] assms by simp
  have "P = 400 * a + (100 * n100 + 4 * n4 + n1)" by (simp add: P_def)
  then have d400: "P div 400 = a"
    using div_unique_nat [of "100 * n100 + 4 * n4 + n1" 400 a] assms by simp
  have "a * 400 + 1 + n100 * 100 + n4 * 4 + n1 - 1 = P" by (simp add: P_def)
  then have "days_before_year (a * 400 + 1 + n100 * 100 + n4 * 4 + n1)
               = P * 365 + P div 4 - P div 100 + P div 400"
    by (simp add: days_before_year_def Let_def)
  also have "\<dots> = 146097 * a + 36524 * n100 + 1461 * n4 + 365 * n1"
    unfolding d4 d100 d400 by (simp add: P_def)
  finally show ?thesis .
qed

lemma mod_zero_small: "1 \<le> (x::nat) \<Longrightarrow> x \<le> c \<Longrightarrow> (x mod c = 0) = (x = c)"
  by (cases "x = c") simp_all

lemma leap_formula:
  assumes "n100 \<le> 3" "n4 \<le> 24" "n1 \<le> 3"
  shows "is_leap (a * 400 + 1 + n100 * 100 + n4 * 4 + n1) \<longleftrightarrow> n1 = 3 \<and> (n4 \<noteq> 24 \<or> n100 = 3)"
proof -
  define Y where "Y = a * 400 + 1 + n100 * 100 + n4 * 4 + n1"
  have e4: "Y = 4 * (100 * a + 25 * n100 + n4) + (n1 + 1)" by (simp add: Y_def)
  have m4: "Y mod 4 = (n1 + 1) mod 4"
    by (simp only: e4 mod_mult_self4)
  have e100: "Y = 100 * (4 * a + n100) + (4 * n4 + n1 + 1)" by (simp add: Y_def)
  have m100: "Y mod 100 = (4 * n4 + n1 + 1) mod 100"
    by (simp only: e100 mod_mult_self4)
  have e400: "Y = 400 * a + (100 * n100 + 4 * n4 + n1 + 1)" by (simp add: Y_def)
  have m400: "Y mod 400 = (100 * n100 + 4 * n4 + n1 + 1) mod 400"
    by (simp only: e400 mod_mult_self4)
  have c4: "(n1 + 1) mod 4 = 0 \<longleftrightarrow> n1 = 3"
    using mod_zero_small [of "n1 + 1" 4] assms(3) by auto
  have c100: "(4 * n4 + n1 + 1) mod 100 = 0 \<longleftrightarrow> n4 = 24 \<and> n1 = 3"
  proof -
    have "(4 * n4 + n1 + 1) mod 100 = 0 \<longleftrightarrow> 4 * n4 + n1 + 1 = 100"
      using mod_zero_small [of "4 * n4 + n1 + 1" 100] assms(2,3) by simp
    also have "\<dots> \<longleftrightarrow> n4 = 24 \<and> n1 = 3" using assms(2,3) by linarith
    finally show ?thesis .
  qed
  have c400: "(100 * n100 + 4 * n4 + n1 + 1) mod 400 = 0 \<longleftrightarrow> n100 = 3 \<and> n4 = 24 \<and> n1 = 3"
  proof -
    have "(100 * n100 + 4 * n4 + n1 + 1) mod 400 = 0 \<longleftrightarrow> 100 * n100 + 4 * n4 + n1 + 1 = 400"
      using mod_zero_small [of "100 * n100 + 4 * n4 + n1 + 1" 400] assms by simp
    also have "\<dots> \<longleftrightarrow> n100 = 3 \<and> n4 = 24 \<and> n1 = 3" using assms by linarith
    finally show ?thesis .
  qed
  show ?thesis
    unfolding is_leap_def Y_def [symmetric] m4 m100 m400 c4 c100 c400 by blast
qed

lemma days_in_month_table:
  assumes "1 \<le> m" "m \<le> 12"
  shows "days_in_month y m = [0, 31, 28, 31, 30, 31, 30, 31, 31, 30, 31, 30, 31] ! m
                               + (if m = 2 \<and> is_leap y then 1 else 0)"
  using le12_cases [OF assms] by (elim disjE) (simp_all add: days_in_month_def)

lemma year_bound:
  fixes a n100 n4 n1 r :: nat
  assumes "146097 * a + 36524 * n100 + 1461 * n4 + 365 * n1 + r + 1 \<le> 3652059"
    and "n100 \<le> 3" "n4 \<le> 24" "n1 \<le> 3"
  shows "a * 400 + 1 + n100 * 100 + n4 * 4 + n1 \<le> 9999"
proof -
  have a: "a \<le> 24" using assms(1) by linarith
  consider "a \<le> 23" | "a = 24" "n100 \<le> 2" | "a = 24" "n100 = 3" "n4 \<le> 23"
    | "a = 24" "n100 = 3" "n4 = 24"
    using a assms(2,3) by linarith
  then show ?thesis
  proof cases
    case 1 then show ?thesis using assms(2,3,4) by linarith
  next
    case 2 then show ?thesis using assms(3,4) by linarith
  next
    case 3 then show ?thesis using assms(4) by linarith
  next
    case 4
    then have "n1 \<le> 2" using assms(1) by linarith
    then show ?thesis using 4 by linarith
  qed
qed

lemma ord2ymd_roundtrip:
  assumes "1 \<le> n"
  shows "case ord2ymd n of (y, m, d) \<Rightarrow>
           ymd2ord y m d = n \<and> 1 \<le> y \<and> 1 \<le> m \<and> m \<le> 12 \<and> 1 \<le> d \<and> d \<le> days_in_month y m
           \<and> (n \<le> 3652059 \<longrightarrow> y \<le> 9999)"
proof -
  define n0 where "n0 = n - 1"
  define a where "a = n0 div 146097"
  define r400 where "r400 = n0 mod 146097"
  define n100 where "n100 = r400 div 36524"
  define r100 where "r100 = r400 mod 36524"
  define n4 where "n4 = r100 div 1461"
  define r4 where "r4 = r100 mod 1461"
  define n1 where "n1 = r4 div 365"
  define r1 where "r1 = r4 mod 365"
  define y where "y = a * 400 + 1 + n100 * 100 + n4 * 4 + n1"
  define L where "L \<longleftrightarrow> n1 = 3 \<and> (n4 \<noteq> 24 \<or> n100 = 3)"
  have n: "n = n0 + 1" using assms by (simp add: n0_def)
  have e400: "n0 = 146097 * a + r400" and b400: "r400 < 146097"
    by (simp_all add: a_def r400_def)
  have e100: "r400 = 36524 * n100 + r100" and b100: "r100 < 36524"
    by (simp_all add: n100_def r100_def)
  have e4: "r100 = 1461 * n4 + r4" and b4: "r4 < 1461"
    by (simp_all add: n4_def r4_def)
  have e1: "r4 = 365 * n1 + r1" and b1: "r1 < 365"
    by (simp_all add: n1_def r1_def)
  have c100: "n100 \<le> 4" using e100 b400 by linarith
  have c4: "n4 \<le> 24" using e4 b100 by linarith
  have c1: "n1 \<le> 4" using e1 b4 by linarith
  have o: "ord2ymd n = (if n1 = 4 \<or> n100 = 4 then (y - 1, 12, 31)
                        else (case month_day L r1 of (m, d) \<Rightarrow> (y, m, d)))"
    by (simp add: ord2ymd_def Let_def y_def L_def n1_def r1_def r4_def n4_def r100_def
        n100_def r400_def a_def n0_def)
  consider (century) "n100 = 4" | (year) "n100 \<le> 3" "n1 = 4" | (plain) "n100 \<le> 3" "n1 \<le> 3"
    using c100 c1 by linarith
  then show ?thesis
  proof cases
    case century
    then have z: "r100 = 0" "n4 = 0" "r4 = 0" "n1 = 0" "r1 = 0"
      using e100 b400 e4 e1 by simp_all
    have yy: "y - 1 = a * 400 + 1 + 3 * 100 + 24 * 4 + 3"
      using century z by (simp add: y_def)
    have d: "days_before_year (y - 1) = 146097 * a + 145731"
      unfolding yy using dby_formula [of 3 24 3 a] by simp
    have l: "is_leap (y - 1)"
      unfolding yy using leap_formula [of 3 24 3 a] by simp
    have nn: "n = 146097 * a + 146097" using n e400 e100 century z by simp
    have o': "ord2ymd n = (y - 1, 12, 31)" using century by (simp add: o)
    have "ymd2ord (y - 1) 12 31 = n"
      using d l by (simp add: ymd2ord_def days_before_month_def nn)
    moreover have "1 \<le> y - 1" unfolding yy by linarith
    moreover have "n \<le> 3652059 \<longrightarrow> y - 1 \<le> 9999"
      unfolding yy nn using year_bound [of a 3 24 3 365] by simp
    ultimately show ?thesis by (simp add: o' days_in_month_def)
  next
    case year
    then have z: "r4 = 1460" "r1 = 0" using e1 b4 by simp_all
    have c4': "n4 \<le> 23" using e4 b100 z by linarith
    have yy: "y - 1 = a * 400 + 1 + n100 * 100 + n4 * 4 + 3"
      using year by (simp add: y_def)
    have d: "days_before_year (y - 1) = 146097 * a + 36524 * n100 + 1461 * n4 + 1095"
      unfolding yy using dby_formula [of n100 n4 3 a] year(1) c4 by simp
    have l: "is_leap (y - 1)"
      unfolding yy using leap_formula [of n100 n4 3 a] year(1) c4 c4' by simp
    have nn: "n = 146097 * a + 36524 * n100 + 1461 * n4 + 1461"
      using n e400 e100 e4 z by simp
    have o': "ord2ymd n = (y - 1, 12, 31)" using year by (simp add: o)
    have "ymd2ord (y - 1) 12 31 = n"
      using d l by (simp add: ymd2ord_def days_before_month_def nn)
    moreover have "1 \<le> y - 1" unfolding yy by linarith
    moreover have "n \<le> 3652059 \<longrightarrow> y - 1 \<le> 9999"
      unfolding yy nn using year_bound [of a n100 n4 3 365] year(1) c4 by simp
    ultimately show ?thesis by (simp add: o' days_in_month_def)
  next
    case plain
    obtain m d where md: "month_day L r1 = (m, d)" by (cases "month_day L r1")
    have ok0: "1 \<le> m \<and> m \<le> 12 \<and> 1 \<le> d
      \<and> d \<le> [0, 31, 28, 31, 30, 31, 30, 31, 31, 30, 31, 30, 31] ! m
              + (if m = 2 \<and> L then 1 else 0)
      \<and> [0, 0, 31, 59, 90, 120, 151, 181, 212, 243, 273, 304, 334] ! m
         + (if 2 < m \<and> L then 1 else 0) + d = r1 + 1"
      using month_day_ok_all [OF b1, of L] unfolding month_day_ok_def md prod.case .
    have ok: "1 \<le> m" "m \<le> 12" "1 \<le> d"
      "d \<le> [0, 31, 28, 31, 30, 31, 30, 31, 31, 30, 31, 30, 31] ! m
              + (if m = 2 \<and> L then 1 else 0)"
      "[0, 0, 31, 59, 90, 120, 151, 181, 212, 243, 273, 304, 334] ! m
         + (if 2 < m \<and> L then 1 else 0) + d = r1 + 1"
      using ok0 by blast+
    have d: "days_before_year y = 146097 * a + 36524 * n100 + 1461 * n4 + 365 * n1"
      unfolding y_def using dby_formula [OF plain(1) c4 plain(2), of a] by simp
    have l: "is_leap y \<longleftrightarrow> L"
      unfolding y_def L_def using leap_formula [OF plain(1) c4 plain(2), of a] by simp
    have nn: "n = 146097 * a + 36524 * n100 + 1461 * n4 + 365 * n1 + r1 + 1"
      using n e400 e100 e4 e1 by simp
    have o': "ord2ymd n = (y, m, d)" using plain md by (simp add: o)
    have "ymd2ord y m d = n"
      using ok(5) d nn by (simp add: ymd2ord_def days_before_month_def l)
    moreover have "d \<le> days_in_month y m"
      using ok(4) by (simp add: days_in_month_table [OF ok(1,2)] l)
    moreover have "1 \<le> y" by (simp add: y_def)
    moreover have "n \<le> 3652059 \<longrightarrow> y \<le> 9999"
      unfolding y_def nn using year_bound [of a n100 n4 n1 r1] plain c4 by simp
    ultimately show ?thesis using ok(1,2,3) by (simp add: o')
  qed
qed

lemma month_offset_le:
  assumes "1 \<le> m" "m \<le> 12" "d \<le> days_in_month y m"
  shows "days_before_month y m + d \<le> (if is_leap y then 366 else 365)"
  using le12_cases [OF assms(1,2)] assms(3)
  by (elim disjE) (simp_all add: days_before_month_def days_in_month_def split: if_splits)

lemma days_before_year_le:
  assumes "1 \<le> y" "y \<le> 9998"
  shows "days_before_year y + 366 \<le> 3652059"
proof -
  define p where "p = y - 1"
  have p: "p \<le> 9997" using assms by (simp add: p_def)
  have a: "4 * (p div 4) \<le> p" and c: "400 * (p div 400) \<le> p" by simp_all
  have "days_before_year y = p * 365 + p div 4 - p div 100 + p div 400"
    by (simp add: days_before_year_def p_def Let_def)
  also have "\<dots> \<le> p * 365 + p div 4 + p div 400" by simp
  finally show ?thesis using a c p by linarith
qed

lemma valid_date_ordinal:
  assumes "valid_date y m d"
  shows "1 \<le> ymd2ord y m d \<and> ymd2ord y m d \<le> max_ordinal"
proof -
  have b: "1 \<le> y" "y \<le> 9999" "1 \<le> m" "m \<le> 12" "1 \<le> d" "d \<le> days_in_month y m"
    using assms by (simp_all add: valid_date_def)
  note o = month_offset_le [OF b(3,4,6)]
  show ?thesis
  proof (cases "y = 9999")
    case True
    have "days_before_year 9999 = 3651694" by (simp add: days_before_year_def)
    moreover have "\<not> is_leap 9999" by (simp add: is_leap_def)
    ultimately show ?thesis using o b(5) True by (simp add: ymd2ord_def max_ordinal_def)
  next
    case False
    then have "y \<le> 9998" using b(2) by simp
    then show ?thesis
      using days_before_year_le [OF b(1)] o b(5)
      by (simp add: ymd2ord_def max_ordinal_def split: if_splits)
  qed
qed


lemma datetime_sub_days_ok:
  assumes "n < toordinal dt" "valid_date (year dt) (month dt) (day dt)"
  shows "\<exists>sd. datetime_sub_days dt n = Inr sd \<and> valid_date (year sd) (month sd) (day sd)
           \<and> toordinal sd = toordinal dt - n
           \<and> hour sd = hour dt \<and> minute sd = minute dt \<and> second sd = second dt
           \<and> microsecond sd = microsecond dt"
proof -
  obtain y m d where o: "ord2ymd (toordinal dt - n) = (y, m, d)"
    by (cases "ord2ymd (toordinal dt - n)")
  have mx: "toordinal dt \<le> max_ordinal"
    using valid_date_ordinal [OF assms(2)] by (simp add: toordinal_def)
  have "1 \<le> toordinal dt - n" using assms(1) by simp
  moreover have "toordinal dt - n \<le> 3652059" using mx by (simp add: max_ordinal_def)
  ultimately have r: "ymd2ord y m d = toordinal dt - n" and v: "valid_date y m d"
    using ord2ymd_roundtrip [of "toordinal dt - n"] o by (simp_all add: valid_date_def)
  have big: "\<not> 999999999 < n" using assms(1) mx by (simp add: max_ordinal_def)
  have "datetime_sub_days dt n = Inr (dt\<lparr>year := y, month := m, day := d\<rparr>)"
    using assms(1) mx big o by (simp add: datetime_sub_days_def)
  then show ?thesis using r v by (simp add: toordinal_def)
qed

section \<open>The two prompts\<close>

lemma toordinal_sample_now: "toordinal sample_now = 739052"
  by (simp add: toordinal_def sample_now_def ymd2ord_def days_before_year_def
      days_before_month_def is_leap_def)

lemma valid_sample_now: "valid_date (year sample_now) (month sample_now) (day sample_now)"
  by (simp add: sample_now_def valid_date_def days_in_month_def)

text \<open>
  Claim C3, as amended. Take the start-date input stripped of surrounding white space.
  If it is a non-empty string of at most 4300 decimal digits that reads as \<open>N\<close>, and
  \<open>N\<close> days before now is not before 0001-01-01, the prompt returns now minus \<open>N\<close> days:
  a valid date of the calendar, \<open>N\<close> days before that of now, at the same time of day. If
  it is a way of writing a valid date of the years 1 to 9999 that the date parser reads
  (\<open>YYYY-MM-DD\<close> is one), the prompt returns that date at midnight, whatever the clock
  says: a date is never read as a count of days. If it is not made of digits only, the
  days-back branch is not taken: the clock is not read.
\<close>

theorem start_date_resolution:
  "(py_strip line \<noteq> [] \<and> list_all (is_decimal U) (py_strip line)
      \<and> length (py_strip line) \<le> 4300
      \<and> int_of_digits U (py_strip line) < toordinal now
      \<and> valid_date (year now) (month now) (day now) \<longrightarrow>
      (\<exists>sd. start_date_loop U now (line # lines)
               = ([Input start_prompt, Print (''Using start date: '' @ strftime_ymd sd),
                   Print []], Inr sd, lines)
            \<and> valid_date (year sd) (month sd) (day sd)
            \<and> toordinal sd = toordinal now - int_of_digits U (py_strip line)
            \<and> hour sd = hour now \<and> minute sd = minute now \<and> second sd = second now
            \<and> microsecond sd = microsecond now))
   \<and> (valid_date y m d \<and> py_strip line \<in> set (date_texts U y m d) \<longrightarrow>
      start_date_loop U now (line # lines)
        = ([Input start_prompt,
            Print (''Using start date: '' @ strftime_ymd (midnight y m d)), Print []],
           Inr (midnight y m d), lines))
   \<and> (valid_date y m d \<longrightarrow>
      py_strip (iso_text y m d) = iso_text y m d
      \<and> iso_text y m d \<in> set (date_texts U y m d))
   \<and> (\<not> py_isdigit U (py_strip line) \<longrightarrow>
      start_date_loop U now [line] = start_date_loop U now' [line])"
proof (intro conjI impI)
  assume a: "py_strip line \<noteq> [] \<and> list_all (is_decimal U) (py_strip line)
      \<and> length (py_strip line) \<le> 4300
      \<and> int_of_digits U (py_strip line) < toordinal now
      \<and> valid_date (year now) (month now) (day now)"
  then have dg: "py_isdigit U (py_strip line)" by (simp add: decimal_isdigit)
  have pi: "py_int U (py_strip line) = Inr (int_of_digits U (py_strip line))"
    using a by (simp add: py_int_def max_str_digits_def)
  obtain sd where sd: "datetime_sub_days now (int_of_digits U (py_strip line)) = Inr sd"
    and rest: "valid_date (year sd) (month sd) (day sd)"
      "toordinal sd = toordinal now - int_of_digits U (py_strip line)"
      "hour sd = hour now" "minute sd = minute now" "second sd = second now"
      "microsecond sd = microsecond now"
    using datetime_sub_days_ok [of "int_of_digits U (py_strip line)" now] a by blast
  have "start_date_loop U now (line # lines)
               = ([Input start_prompt, Print (''Using start date: '' @ strftime_ymd sd),
                   Print []], Inr sd, lines)"
    using dg pi sd by (simp add: Let_def)
  then show "\<exists>sd. start_date_loop U now (line # lines)
               = ([Input start_prompt, Print (''Using start date: '' @ strftime_ymd sd),
                   Print []], Inr sd, lines)
            \<and> valid_date (year sd) (month sd) (day sd)
            \<and> toordinal sd = toordinal now - int_of_digits U (py_strip line)
            \<and> hour sd = hour now \<and> minute sd = minute now \<and> second sd = second now
            \<and> microsecond sd = microsecond now"
    using rest by blast
next
  assume b: "valid_date y m d \<and> py_strip line \<in> set (date_texts U y m d)"
  then have p: "strptime_ymd U (py_strip line) = Some (midnight y m d)"
    by (simp add: strptime_date_text)
  then have nd: "\<not> py_isdigit U (py_strip line)" using isdigit_not_date by fastforce
  show "start_date_loop U now (line # lines)
        = ([Input start_prompt,
            Print (''Using start date: '' @ strftime_ymd (midnight y m d)), Print []],
           Inr (midnight y m d), lines)"
    using p nd by (simp add: Let_def)
next
  assume "valid_date y m d"
  then show "py_strip (iso_text y m d) = iso_text y m d" by (rule py_strip_iso_text)
next
  assume "valid_date y m d"
  then have "y < 10000" by (simp add: valid_date_def)
  then show "iso_text y m d \<in> set (date_texts U y m d)" by (rule iso_text_in_date_texts)
next
  assume "\<not> py_isdigit U (py_strip line)"
  then show "start_date_loop U now [line] = start_date_loop U now' [line]"
    by (simp add: Let_def split: option.splits)
qed

theorem start_date_resolution_witness:
  "py_strip (ustr ''14'') \<noteq> [] \<and> list_all (is_decimal sample_unicode) (py_strip (ustr ''14''))
   \<and> length (py_strip (ustr ''14'')) \<le> 4300
   \<and> int_of_digits sample_unicode (py_strip (ustr ''14'')) < toordinal sample_now
   \<and> valid_date (year sample_now) (month sample_now) (day sample_now)
   \<and> (\<exists>sd. start_date_loop sample_unicode sample_now [ustr ''14'']
               = ([Input start_prompt, Print (''Using start date: '' @ strftime_ymd sd),
                   Print []], Inr sd, [])
            \<and> valid_date (year sd) (month sd) (day sd)
            \<and> toordinal sd
                = toordinal sample_now - int_of_digits sample_unicode (py_strip (ustr ''14''))
            \<and> hour sd = hour sample_now \<and> minute sd = minute sample_now
            \<and> second sd = second sample_now \<and> microsecond sd = microsecond sample_now)
   \<and> valid_date 2024 3 5
   \<and> py_strip (ustr '' 2024-3-5 '') \<in> set (date_texts sample_unicode 2024 3 5)
   \<and> start_date_loop sample_unicode sample_now [ustr '' 2024-3-5 '']
       = ([Input start_prompt,
           Print (''Using start date: '' @ strftime_ymd (midnight 2024 3 5)), Print []],
          Inr (midnight 2024 3 5), [])
   \<and> py_strip (iso_text 2024 3 5) = iso_text 2024 3 5
   \<and> \<not> py_isdigit sample_unicode (py_strip (ustr ''abc''))
   \<and> start_date_loop sample_unicode sample_now [ustr ''abc'']
       = start_date_loop sample_unicode (midnight 2000 2 2) [ustr ''abc'']"
proof -
  have s: "py_strip (ustr ''14'') = [49, 52]" by (simp add: run_eval)
  have h1: "py_strip (ustr ''14'') \<noteq> []
      \<and> list_all (is_decimal sample_unicode) (py_strip (ustr ''14''))
      \<and> length (py_strip (ustr ''14'')) \<le> 4300
      \<and> int_of_digits sample_unicode (py_strip (ustr ''14'')) < toordinal sample_now
      \<and> valid_date (year sample_now) (month sample_now) (day sample_now)"
    unfolding s toordinal_sample_now
    by (simp add: is_decimal_simps int_of_digits_small digit_val_simps valid_sample_now)
  have v: "valid_date 2024 3 5" by (simp add: valid_date_def days_in_month_def)
  have "strptime_ymd sample_unicode (py_strip (ustr '' 2024-3-5 '')) = Some (midnight 2024 3 5)"
    by (simp add: run_eval)
  then have m: "py_strip (ustr '' 2024-3-5 '') \<in> set (date_texts sample_unicode 2024 3 5)"
    by (simp add: date_text_iff [OF v])
  have n: "\<not> py_isdigit sample_unicode (py_strip (ustr ''abc''))" by (simp add: run_eval)
  note t1 = start_date_resolution [where line = "ustr ''14''" and now = sample_now
      and lines = "[]" and y = 2024 and m = 3 and d = 5 and now' = sample_now
      and U = sample_unicode]
  note t2 = start_date_resolution [where line = "ustr '' 2024-3-5 ''" and now = sample_now
      and lines = "[]" and y = 2024 and m = 3 and d = 5 and now' = sample_now
      and U = sample_unicode]
  note t3 = start_date_resolution [where line = "ustr ''abc''" and now = sample_now
      and lines = "[]" and y = 2024 and m = 3 and d = 5 and now' = "midnight 2000 2 2"
      and U = sample_unicode]
  show ?thesis using h1 v m n t1 t2 t3 by blast
qed

text \<open>
  The claim as it was stated fails for a count of days that reaches before 0001-01-01:
  the subtraction raises \<open>OverflowError\<close>, which nothing catches.
\<close>

theorem far_days_back_counterexample:
  "ustr ''4000000'' \<noteq> [] \<and> list_all (is_decimal sample_unicode) (ustr ''4000000'')
   \<and> start_date_loop sample_unicode sample_now [ustr ''4000000'']
       = ([Input start_prompt], Inl OverflowError, [])"
proof -
  have u: "ustr ''4000000'' = [52, 48, 48, 48, 48, 48, 48]" by (simp add: ustr_def)
  have s: "py_strip [52, 48, 48, 48, 48, 48, 48] = [52, 48, 48, 48, 48, 48, 48]"
    by (rule py_strip_id) (simp_all add: py_isspace_def)
  have dc: "list_all (is_decimal sample_unicode) [52, 48, 48, 48, 48, 48, 48]"
    by (simp add: is_decimal_simps)
  have d: "py_isdigit sample_unicode [52, 48, 48, 48, 48, 48, 48]"
    using dc by (simp add: decimal_isdigit)
  have i: "py_int sample_unicode [52, 48, 48, 48, 48, 48, 48] = Inr 4000000"
    using dc by (simp add: py_int_def max_str_digits_def int_of_digits_def digit_val_simps)
  have o: "datetime_sub_days sample_now 4000000 = Inl OverflowError"
    by (simp add: datetime_sub_days_def toordinal_sample_now)
  show ?thesis unfolding u using s d i o dc by simp
qed

text \<open>
  Claim C8, as amended. Take the end-date input stripped of surrounding white space. If it
  is empty, the prompt returns now. If it is a way of writing a valid date of the years 1
  to 9999 that the date parser reads (\<open>YYYY-MM-DD\<close>, and also the forms without the
  leading zero of the month or of the day, and those with digits of another script), the
  prompt returns that date at midnight. Every other input is refused: the prompt prints
  the error and asks again.
\<close>

theorem end_date_resolution:
  "(py_strip line = [] \<longrightarrow>
      end_date_loop U now (line # lines)
        = ([Input end_prompt, Print (''Using end date: '' @ strftime_ymd now), Print []],
           Inr now, lines))
   \<and> (valid_date y m d \<and> py_strip line \<in> set (date_texts U y m d) \<longrightarrow>
      end_date_loop U now (line # lines)
        = ([Input end_prompt,
            Print (''Using end date: '' @ strftime_ymd (midnight y m d)), Print []],
           Inr (midnight y m d), lines))
   \<and> (valid_date y m d \<longrightarrow>
      py_strip (iso_text y m d) = iso_text y m d
      \<and> iso_text y m d \<in> set (date_texts U y m d))
   \<and> (py_strip line \<noteq> []
      \<and> (\<forall>y m d. valid_date y m d \<longrightarrow> py_strip line \<notin> set (date_texts U y m d)) \<longrightarrow>
      end_date_loop U now (line # lines)
        = (case end_date_loop U now lines of
             (evs, r, rest) \<Rightarrow>
               ([Input end_prompt,
                 Print ''Invalid format. Please use YYYY-MM-DD or press Enter for today.'',
                 Print []] @ evs, r, rest)))"
proof (intro conjI impI)
  assume "py_strip line = []"
  then show "end_date_loop U now (line # lines)
        = ([Input end_prompt, Print (''Using end date: '' @ strftime_ymd now), Print []],
           Inr now, lines)"
    by simp
next
  assume b: "valid_date y m d \<and> py_strip line \<in> set (date_texts U y m d)"
  then have p: "strptime_ymd U (py_strip line) = Some (midnight y m d)"
    by (simp add: strptime_date_text)
  have "strptime_ymd U [] = None" by (simp add: strptime_ymd_def)
  then have ne: "py_strip line \<noteq> []" using p by auto
  show "end_date_loop U now (line # lines)
        = ([Input end_prompt,
            Print (''Using end date: '' @ strftime_ymd (midnight y m d)), Print []],
           Inr (midnight y m d), lines)"
    using p ne by (simp add: Let_def)
next
  assume "valid_date y m d"
  then show "py_strip (iso_text y m d) = iso_text y m d" by (rule py_strip_iso_text)
next
  assume "valid_date y m d"
  then have "y < 10000" by (simp add: valid_date_def)
  then show "iso_text y m d \<in> set (date_texts U y m d)" by (rule iso_text_in_date_texts)
next
  assume c: "py_strip line \<noteq> []
      \<and> (\<forall>y m d. valid_date y m d \<longrightarrow> py_strip line \<notin> set (date_texts U y m d))"
  have "strptime_ymd U (py_strip line) = None"
  proof (cases "strptime_ymd U (py_strip line)")
    case None
    then show ?thesis .
  next
    case (Some dt)
    then show ?thesis using strptime_sound [OF Some] c by blast
  qed
  then show "end_date_loop U now (line # lines)
        = (case end_date_loop U now lines of
             (evs, r, rest) \<Rightarrow>
               ([Input end_prompt,
                 Print ''Invalid format. Please use YYYY-MM-DD or press Enter for today.'',
                 Print []] @ evs, r, rest))"
    using c by (simp add: Let_def)
qed

theorem end_date_resolution_witness:
  "py_strip [0x20, 0x3000] = []
   \<and> end_date_loop sample_unicode sample_now [[0x20, 0x3000]]
       = ([Input end_prompt, Print (''Using end date: '' @ strftime_ymd sample_now), Print []],
          Inr sample_now, [])
   \<and> valid_date 2024 3 25
   \<and> py_strip (ustr '' 2024-3-25 '') \<in> set (date_texts sample_unicode 2024 3 25)
   \<and> end_date_loop sample_unicode sample_now [ustr '' 2024-3-25 '']
       = ([Input end_prompt,
           Print (''Using end date: '' @ strftime_ymd (midnight 2024 3 25)), Print []],
          Inr (midnight 2024 3 25), [])
   \<and> py_strip [0x662, 0x660, 0x662, 0x664, 0x2D, 0x30, 0x33, 0x2D, 0x32, 0x665]
       \<in> set (date_texts sample_unicode 2024 3 25)
   \<and> end_date_loop sample_unicode sample_now
        [[0x662, 0x660, 0x662, 0x664, 0x2D, 0x30, 0x33, 0x2D, 0x32, 0x665]]
       = ([Input end_prompt,
           Print (''Using end date: '' @ strftime_ymd (midnight 2024 3 25)), Print []],
          Inr (midnight 2024 3 25), [])
   \<and> py_strip (iso_text 2024 3 25) = iso_text 2024 3 25
   \<and> py_strip (ustr ''2024-13-40'') \<noteq> []
   \<and> strptime_ymd sample_unicode (py_strip (ustr ''2024-13-40'')) = None
   \<and> end_date_loop sample_unicode sample_now [ustr ''2024-13-40'', []]
       = ([Input end_prompt,
           Print ''Invalid format. Please use YYYY-MM-DD or press Enter for today.'',
           Print [], Input end_prompt,
           Print (''Using end date: '' @ strftime_ymd sample_now), Print []],
          Inr sample_now, [])"
proof -
  have e: "py_strip [0x20, 0x3000] = []" by (simp add: run_eval)
  have e': "py_strip [] = []" by (simp add: run_eval)
  have v: "valid_date 2024 3 25" by (simp add: valid_date_def days_in_month_def)
  have "strptime_ymd sample_unicode (py_strip (ustr '' 2024-3-25 ''))
          = Some (midnight 2024 3 25)"
    by (simp add: run_eval)
  then have m: "py_strip (ustr '' 2024-3-25 '') \<in> set (date_texts sample_unicode 2024 3 25)"
    by (simp add: date_text_iff [OF v])
  have "strptime_ymd sample_unicode
          (py_strip [0x662, 0x660, 0x662, 0x664, 0x2D, 0x30, 0x33, 0x2D, 0x32, 0x665])
          = Some (midnight 2024 3 25)"
    by (simp add: run_eval)
  then have a: "py_strip [0x662, 0x660, 0x662, 0x664, 0x2D, 0x30, 0x33, 0x2D, 0x32, 0x665]
                  \<in> set (date_texts sample_unicode 2024 3 25)"
    by (simp add: date_text_iff [OF v])
  have b: "py_strip (ustr ''2024-13-40'') \<noteq> []"
    "strptime_ymd sample_unicode (py_strip (ustr ''2024-13-40'')) = None"
    by (simp_all add: run_eval)
  have nb: "\<forall>y m d. valid_date y m d
              \<longrightarrow> py_strip (ustr ''2024-13-40'') \<notin> set (date_texts sample_unicode y m d)"
    using b(2) strptime_date_text by fastforce
  note t1 = end_date_resolution [where line = "[0x20, 0x3000]" and now = sample_now
      and lines = "[]" and y = 2024 and m = 3 and d = 25 and U = sample_unicode]
  note t2 = end_date_resolution [where line = "ustr '' 2024-3-25 ''" and now = sample_now
      and lines = "[]" and y = 2024 and m = 3 and d = 25 and U = sample_unicode]
  note t3 = end_date_resolution [where line = "ustr ''2024-13-40''" and now = sample_now
      and lines = "[[]]" and y = 2024 and m = 3 and d = 25 and U = sample_unicode]
  note t4 = end_date_resolution [where line = "[]" and now = sample_now
      and lines = "[]" and y = 2024 and m = 3 and d = 25 and U = sample_unicode]
  note t5 = end_date_resolution [where
      line = "[0x662, 0x660, 0x662, 0x664, 0x2D, 0x30, 0x33, 0x2D, 0x32, 0x665]"
      and now = sample_now and lines = "[]" and y = 2024 and m = 3 and d = 25
      and U = sample_unicode]
  have r4: "end_date_loop sample_unicode sample_now [[]]
       = ([Input end_prompt, Print (''Using end date: '' @ strftime_ymd sample_now), Print []],
          Inr sample_now, [])"
    using t4 e' by blast
  have r3: "end_date_loop sample_unicode sample_now [ustr ''2024-13-40'', []]
       = ([Input end_prompt,
           Print ''Invalid format. Please use YYYY-MM-DD or press Enter for today.'',
           Print [], Input end_prompt,
           Print (''Using end date: '' @ strftime_ymd sample_now), Print []],
          Inr sample_now, [])"
    using t3 b(1) nb by (simp add: r4 del: end_date_loop.simps)
  show ?thesis using e v m a b t1 t2 t5 r3 by blast
qed

text \<open>
  The claim as it was stated fails for \<open>2024-1-5\<close>, which is not of the shape
  \<open>YYYY-MM-DD\<close> and is accepted.
\<close>

theorem short_date_counterexample:
  "ustr ''2024-1-5'' \<noteq> [] \<and> \<not> yyyy_mm_dd sample_unicode (ustr ''2024-1-5'')
   \<and> end_date_loop sample_unicode sample_now [ustr ''2024-1-5'']
       = ([Input end_prompt, Print ''Using end date: 2024-01-05'', Print []],
          Inr (midnight 2024 1 5), [])"
  by (simp add: run_eval yyyy_mm_dd_def strftime_ymd_def str_nat.simps zero_pad_def
      digit_char_def)

text \<open>
  Asking again: any number of lines that are neither digits nor a date (for the end date:
  neither empty nor a date) are each answered by the error message, and the prompt goes
  on with the lines that follow.
\<close>

lemma end_date_reprompts:
  assumes "list_all (\<lambda>l. py_strip l \<noteq> [] \<and> strptime_ymd U (py_strip l) = None) bad"
  shows "end_date_loop U now (bad @ lines)
           = (case end_date_loop U now lines of
                (evs, r, rest) \<Rightarrow>
                  (concat (map (\<lambda>l. [Input end_prompt,
                     Print ''Invalid format. Please use YYYY-MM-DD or press Enter for today.'',
                     Print []]) bad) @ evs, r, rest))"
  using assms
proof (induction bad)
  case Nil
  then show ?case by (simp split: prod.splits)
next
  case (Cons l bad)
  then show ?case by (simp add: Let_def split: prod.splits)
qed

lemma start_date_reprompts:
  assumes "list_all (\<lambda>l. \<not> py_isdigit U (py_strip l) \<and> strptime_ymd U (py_strip l) = None) bad"
  shows "start_date_loop U now (bad @ lines)
           = (case start_date_loop U now lines of
                (evs, r, rest) \<Rightarrow>
                  (concat (map (\<lambda>l. [Input start_prompt,
                     Print ''Invalid format. Please use YYYY-MM-DD or enter number of days back.'',
                     Print []]) bad) @ evs, r, rest))"
  using assms
proof (induction bad)
  case Nil
  then show ?case by (simp split: prod.splits)
next
  case (Cons l bad)
  then show ?case by (simp add: Let_def split: prod.splits)
qed

text \<open>
  Claim C7. The start-date prompt does not ask again on the line \<open>\<twosuperior>\<close> (U+00B2), which is
  neither a string of decimal digits nor a date: \<open>isdigit\<close> holds of it, the days-back
  branch is taken, and \<open>int\<close> raises \<open>ValueError\<close> outside the \<open>try\<close> block. The
  exception leaves the prompt whatever lines follow.
\<close>

theorem superscript_digit_raises:
  "\<not> list_all (is_decimal U) [0xB2] \<and> strptime_ymd U [0xB2] = None
   \<and> start_date_loop U now ([0xB2] # lines) = ([Input start_prompt], Inl ValueError, lines)"
  by (simp add: py_strip_def py_isspace_def py_isdigit_def is_digit_char_def py_int_def
      is_decimal_def decimal_value_def strptime_ymd_def Let_def)

section \<open>The order of a run\<close>

lemma jira_events_shape:
  "fst (get_completed_jira_tickets s http) = [Get (jira_request s)]
   \<or> (\<exists>l. fst (get_completed_jira_tickets s http) = [Get (jira_request s), Print l])"
  by (auto simp: get_completed_jira_tickets_def split: sum.splits exn.splits)

lemma github_events_shape:
  "fst (get_github_pr_reviews s http) = [Get (github_request s)]
   \<or> (\<exists>l. fst (get_github_pr_reviews s http) = [Get (github_request s), Print l])"
  by (auto simp: get_github_pr_reviews_def split: sum.splits exn.splits)

lemma start_loop_kinds:
  "list_all (\<lambda>e. kind_of e = KPrint \<or> kind_of e = KInput) (fst (start_date_loop U now lines))"
  by (induction lines) (auto simp: Let_def split: sum.splits option.splits prod.splits)

lemma end_loop_kinds:
  "list_all (\<lambda>e. kind_of e = KPrint \<or> kind_of e = KInput) (fst (end_date_loop U now lines))"
  by (induction lines) (auto simp: Let_def split: sum.splits option.splits prod.splits)

lemma get_start_date_kinds:
  "list_all (\<lambda>e. kind_of e = KPrint \<or> kind_of e = KInput) (fst (get_start_date U now lines))"
  using start_loop_kinds [of U now lines]
  by (cases "start_date_loop U now lines") (simp add: get_start_date_def)

lemma get_end_date_kinds:
  "list_all (\<lambda>e. kind_of e = KPrint \<or> kind_of e = KInput) (fst (get_end_date U now lines))"
  using end_loop_kinds [of U now lines]
  by (cases "end_date_loop U now lines") (simp add: get_end_date_def)

lemma init_kinds:
  "list_all (\<lambda>e. kind_of e = KGetenv \<or> kind_of e = KPrint) (fst (init environ sd ed))"
  by (simp add: init_def validate_config_def Let_def list_all_iff split: prod.splits)

lemma prints_kinds:
  "list_all (\<lambda>e. kind_of e = KPrint \<or> kind_of e = KGet) (map Print ls)"
  "filter (\<lambda>e. kind_of e = KGet) (map Print ls) = []"
  by (simp_all add: list_all_iff filter_empty_conv)

lemma full_report_kinds:
  "list_all (\<lambda>e. kind_of e = KPrint \<or> kind_of e = KGet) (fst (print_summary s http))
   \<and> list_all (\<lambda>e. kind_of e = KPrint) (take 1 (fst (print_summary s http)))
   \<and> length (filter (\<lambda>e. kind_of e = KGet) (fst (print_summary s http))) \<le> 2"
proof -
  obtain ev1 r1 where j: "get_completed_jira_tickets s http = (ev1, r1)"
    by (cases "get_completed_jira_tickets s http")
  obtain ev2 r2 where g: "get_github_pr_reviews s http = (ev2, r2)"
    by (cases "get_github_pr_reviews s http")
  have k1: "list_all (\<lambda>e. kind_of e = KPrint \<or> kind_of e = KGet) ev1"
    "length (filter (\<lambda>e. kind_of e = KGet) ev1) = 1"
    using jira_events_shape [of s http] j by auto
  have k2: "list_all (\<lambda>e. kind_of e = KPrint \<or> kind_of e = KGet) ev2"
    "length (filter (\<lambda>e. kind_of e = KGet) ev2) = 1"
    using github_events_shape [of s http] g by auto
  show ?thesis
  proof (cases r1)
    case (Inl x)
    then show ?thesis
      using print_summary_raise [of s http ev1 x] j k1
      by (simp add: prints_kinds full_header_def)
  next
    case (Inr ts)
    then show ?thesis
      using print_summary_trace [of s http ev1 ts ev2 r2] j g k1 k2
      by (cases r2) (simp_all add: prints_kinds full_header_def del: map_append)
  qed
qed

lemma concise_report_kinds:
  "list_all (\<lambda>e. kind_of e = KPrint \<or> kind_of e = KGet) (fst (print_concise_summary s http))
   \<and> list_all (\<lambda>e. kind_of e = KPrint) (take 1 (fst (print_concise_summary s http)))
   \<and> length (filter (\<lambda>e. kind_of e = KGet) (fst (print_concise_summary s http))) \<le> 2"
proof -
  obtain ev1 r1 where j: "get_completed_jira_tickets s http = (ev1, r1)"
    by (cases "get_completed_jira_tickets s http")
  obtain ev2 r2 where g: "get_github_pr_reviews s http = (ev2, r2)"
    by (cases "get_github_pr_reviews s http")
  have k1: "list_all (\<lambda>e. kind_of e = KPrint \<or> kind_of e = KGet) ev1"
    "length (filter (\<lambda>e. kind_of e = KGet) ev1) = 1"
    using jira_events_shape [of s http] j by auto
  have k2: "list_all (\<lambda>e. kind_of e = KPrint \<or> kind_of e = KGet) ev2"
    "length (filter (\<lambda>e. kind_of e = KGet) ev2) = 1"
    using github_events_shape [of s http] g by auto
  show ?thesis
  proof (cases r1)
    case (Inl x)
    then show ?thesis
      using print_concise_summary_raise [of s http ev1 x] j k1
      by (simp add: prints_kinds)
  next
    case (Inr ts)
    then show ?thesis
      using print_concise_summary_trace [of s http ev1 ts ev2 r2] j g k1 k2
      by (cases r2) (simp_all add: prints_kinds del: map_append)
  qed
qed

lemma missing_vars_init:
  "missing_vars \<lparr>jira_url = rstrip_slash (case environ ''JIRA_URL'' of None \<Rightarrow> [] | Some v \<Rightarrow> v),
               jira_email = environ ''JIRA_EMAIL'',
               jira_token = environ ''JIRA_API_TOKEN'',
               github_token = environ ''GITHUB_TOKEN'',
               github_username = environ ''GITHUB_USERNAME'',
               start_date = sd, end_date = ed\<rparr>
     = filter (unusable environ) required_vars"
  by (simp add: missing_vars_def required_vars_def unusable_def falsy_def)

lemma init_result:
  "init environ sd ed =
     (map Getenv required_vars
        @ (if filter (unusable environ) required_vars = [] then []
           else [Print (cross_mark @ '' Missing required environment variables:'')]
                @ map (\<lambda>v. Print (''   - '' @ v)) (filter (unusable environ) required_vars)
                @ [Print (CHR 10 # ''Please set these variables and try again.'')]),
      if filter (unusable environ) required_vars = []
      then Inr \<lparr>jira_url = rstrip_slash (case environ ''JIRA_URL'' of None \<Rightarrow> [] | Some v \<Rightarrow> v),
               jira_email = environ ''JIRA_EMAIL'',
               jira_token = environ ''JIRA_API_TOKEN'',
               github_token = environ ''GITHUB_TOKEN'',
               github_username = environ ''GITHUB_USERNAME'',
               start_date = sd, end_date = ed\<rparr>
      else Inl (SystemExit 1))"
  unfolding init_def Let_def validate_config_def missing_vars_init
  by (simp add: required_vars_def)

lemma full_report_result:
  "snd (print_summary s http) = Inr ()
     \<longleftrightarrow> isOK (snd (get_completed_jira_tickets s http))
         \<and> isOK (snd (get_github_pr_reviews s http))"
proof -
  obtain ev1 r1 where j: "get_completed_jira_tickets s http = (ev1, r1)"
    by (cases "get_completed_jira_tickets s http")
  obtain ev2 r2 where g: "get_github_pr_reviews s http = (ev2, r2)"
    by (cases "get_github_pr_reviews s http")
  show ?thesis
  proof (cases r1)
    case (Inl x)
    then show ?thesis using print_summary_raise [of s http ev1 x] j by (simp add: isOK_def)
  next
    case (Inr ts)
    then show ?thesis using print_summary_trace [of s http ev1 ts ev2 r2] j g
      by (cases r2) (simp_all add: isOK_def)
  qed
qed

lemma concise_report_result:
  "snd (print_concise_summary s http) = Inr ()
     \<longleftrightarrow> isOK (snd (get_completed_jira_tickets s http))
         \<and> isOK (snd (get_github_pr_reviews s http))"
proof -
  obtain ev1 r1 where j: "get_completed_jira_tickets s http = (ev1, r1)"
    by (cases "get_completed_jira_tickets s http")
  obtain ev2 r2 where g: "get_github_pr_reviews s http = (ev2, r2)"
    by (cases "get_github_pr_reviews s http")
  show ?thesis
  proof (cases r1)
    case (Inl x)
    then show ?thesis using print_concise_summary_raise [of s http ev1 x] j
      by (simp add: isOK_def)
  next
    case (Inr ts)
    then show ?thesis using print_concise_summary_trace [of s http ev1 ts ev2 r2] j g
      by (cases r2) (simp_all add: isOK_def)
  qed
qed

lemma jira_failure_keeps_ok:
  assumes "isOK (snd (get_completed_jira_tickets s http))"
    and "http' (jira_request s) = http (jira_request s)
         \<or> (\<exists>e. http' (jira_request s) = Inl (RequestException e))"
  shows "isOK (snd (get_completed_jira_tickets s http'))"
  using assms by (auto simp: get_completed_jira_tickets_def isOK_def)

lemma github_failure_keeps_ok:
  assumes "isOK (snd (get_github_pr_reviews s http))"
    and "http' (github_request s) = http (github_request s)
         \<or> (\<exists>e. http' (github_request s) = Inl (RequestException e))"
  shows "isOK (snd (get_github_pr_reviews s http'))"
  using assms by (auto simp: get_github_pr_reviews_def isOK_def)

lemma main_cases:
  obtains (start_raises) e1 x rest where
      "get_start_date U now1 lines = (e1, Inl x, rest)"
      "main concise U environ now1 now2 http lines = (e1, Inl x)"
  | (end_raises) e1 sd rest e2 x rest' where
      "get_start_date U now1 lines = (e1, Inr sd, rest)"
      "get_end_date U now2 rest = (e2, Inl x, rest')"
      "main concise U environ now1 now2 http lines = (e1 @ e2, Inl x)"
  | (init_raises) e1 sd rest e2 ed rest' e3 x where
      "get_start_date U now1 lines = (e1, Inr sd, rest)"
      "get_end_date U now2 rest = (e2, Inr ed, rest')"
      "init environ sd ed = (e3, Inl x)"
      "main concise U environ now1 now2 http lines = (e1 @ e2 @ e3, Inl x)"
  | (report) e1 sd rest e2 ed rest' e3 s where
      "get_start_date U now1 lines = (e1, Inr sd, rest)"
      "get_end_date U now2 rest = (e2, Inr ed, rest')"
      "init environ sd ed = (e3, Inr s)"
      "main concise U environ now1 now2 http lines
         = (e1 @ e2 @ e3 @ fst (if concise then print_concise_summary s http
                                else print_summary s http),
            snd (if concise then print_concise_summary s http else print_summary s http))"
proof -
  obtain e1 r1 rest where a: "get_start_date U now1 lines = (e1, r1, rest)"
    by (cases "get_start_date U now1 lines")
  show ?thesis
  proof (cases r1)
    case (Inl x)
    then show ?thesis using a start_raises by (simp add: main_def)
  next
    case sd: (Inr sd)
    obtain e2 r2 rest' where b: "get_end_date U now2 rest = (e2, r2, rest')"
      by (cases "get_end_date U now2 rest")
    show ?thesis
    proof (cases r2)
      case (Inl x)
      then show ?thesis using a sd b end_raises by (simp add: main_def)
    next
      case ed: (Inr ed)
      obtain e3 r3 where c: "init environ sd ed = (e3, r3)"
        by (cases "init environ sd ed")
      show ?thesis
      proof (cases r3)
        case (Inl x)
        then show ?thesis using a sd b ed c init_raises by (simp add: main_def)
      next
        case (Inr s)
        then show ?thesis using a sd b ed c report [of e1 sd rest e2 ed rest' e3 s]
          by (simp add: main_def split: prod.splits)
      qed
    qed
  qed
qed

lemma no_get_in_prompts:
  "list_all (\<lambda>e. kind_of e = KPrint \<or> kind_of e = KInput) evs
     \<Longrightarrow> filter (\<lambda>e. kind_of e = KGet) evs = []"
  by (auto simp: list_all_iff filter_empty_conv)

lemma no_get_in_validation:
  "list_all (\<lambda>e. kind_of e = KGetenv \<or> kind_of e = KPrint) evs
     \<Longrightarrow> filter (\<lambda>e. kind_of e = KGet) evs = []"
  by (auto simp: list_all_iff filter_empty_conv)

section \<open>Configuration and the whole run\<close>

lemma sample_start:
  "get_start_date sample_unicode sample_now [ustr ''2024-06-03'', []]
     = ([Print (calendar @ '' Enter the sprint start date''), Print [], Input start_prompt,
         Print ''Using start date: 2024-06-03'', Print []],
        Inr (midnight 2024 6 3), [[]])"
  by (simp add: get_start_date_def run_eval strftime_ymd_def str_nat.simps zero_pad_def
      digit_char_def)

lemma sample_end:
  "get_end_date sample_unicode sample_now [[]]
     = ([Print (calendar @ '' Enter the sprint end date''), Print [], Input end_prompt,
         Print ''Using end date: 2024-06-15'', Print []],
        Inr sample_now, [])"
  by (simp add: get_end_date_def run_eval strftime_ymd_def str_nat.simps zero_pad_def
      digit_char_def sample_now_def)

lemma http_empty_fetches:
  "get_completed_jira_tickets s http_empty = ([Get (jira_request s)], Inr [])"
  "get_github_pr_reviews s http_empty = ([Get (github_request s)], Inr [])"
  by (simp_all add: get_completed_jira_tickets_def get_github_pr_reviews_def http_empty_def
      get_or_empty_def bind_def iterate_def)

lemma sample_env_usable: "filter (unusable sample_env) required_vars = []"
  by (simp add: unusable_def sample_env_def required_vars_def rstrip_slash_def)

lemma no_token_env_unusable:
  "filter (unusable no_token_env) required_vars = [''JIRA_API_TOKEN'', ''GITHUB_TOKEN'']"
  by (simp add: unusable_def no_token_env_def sample_env_def required_vars_def
      rstrip_slash_def)

lemma slash_env_unusable: "filter (unusable slash_env) required_vars = [''JIRA_URL'']"
  by (simp add: unusable_def slash_env_def sample_env_def required_vars_def rstrip_slash_def)

lemma sample_run_completes:
  "snd (main False sample_unicode sample_env sample_now sample_now http_empty [ustr ''2024-06-03'', []]) = Inr ()"
proof -
  obtain e3 s where i: "init sample_env (midnight 2024 6 3) sample_now = (e3, Inr s)"
    using init_result [of sample_env "midnight 2024 6 3" sample_now]
    by (simp add: sample_env_usable)
  have "snd (print_summary s http_empty) = Inr ()"
    by (simp add: full_report_result http_empty_fetches isOK_def)
  then show ?thesis
    by (auto simp add: main_def sample_start sample_end i split: prod.splits)
qed

text \<open>
  Claim C1, as amended. The constructor reads the five variables and lists, after the
  heading, every one of them that is of no use (not set, empty, or for the base URL
  nothing but slashes), each on its line and in the order of the reads; it then raises
  \<open>SystemExit(1)\<close>, and it raises it exactly when there is such a variable. In a run whose
  prompts were answered, a variable of no use ends the process with status 1 and without
  any GET. A run that completes still completes, with status 0, when any of its fetches is
  replaced by one that fails.
\<close>

theorem missing_configuration_exits:
  "fst (init environ sd ed)
     = map Getenv required_vars
       @ (if filter (unusable environ) required_vars = [] then []
          else [Print (cross_mark @ '' Missing required environment variables:'')]
               @ map (\<lambda>v. Print (''   - '' @ v)) (filter (unusable environ) required_vars)
               @ [Print (CHR 10 # ''Please set these variables and try again.'')])
   \<and> (snd (init environ sd ed) = Inl (SystemExit 1)
        \<longleftrightarrow> filter (unusable environ) required_vars \<noteq> [])
   \<and> (isOK (snd (init environ sd ed)) \<longleftrightarrow> filter (unusable environ) required_vars = [])
   \<and> (filter (unusable environ) required_vars \<noteq> []
        \<and> get_start_date U nows lines = (ps, Inr sd, rest)
        \<and> get_end_date U nowe rest = (pe, Inr ed, rest') \<longrightarrow>
        snd (main concise U environ nows nowe http lines) = Inl (SystemExit 1)
        \<and> exit_status (snd (main concise U environ nows nowe http lines)) = 1
        \<and> filter (\<lambda>e. kind_of e = KGet) (fst (main concise U environ nows nowe http lines)) = [])
   \<and> (snd (main concise U environ nows nowe http lines) = Inr ()
        \<and> (\<forall>req. http' req = http req \<or> (\<exists>e. http' req = Inl (RequestException e))) \<longrightarrow>
        snd (main concise U environ nows nowe http' lines) = Inr ()
        \<and> exit_status (snd (main concise U environ nows nowe http' lines)) = 0)"
proof (intro conjI impI)
  show "fst (init environ sd ed)
     = map Getenv required_vars
       @ (if filter (unusable environ) required_vars = [] then []
          else [Print (cross_mark @ '' Missing required environment variables:'')]
               @ map (\<lambda>v. Print (''   - '' @ v)) (filter (unusable environ) required_vars)
               @ [Print (CHR 10 # ''Please set these variables and try again.'')])"
    by (simp add: init_result)
  show "snd (init environ sd ed) = Inl (SystemExit 1)
        \<longleftrightarrow> filter (unusable environ) required_vars \<noteq> []"
    by (simp add: init_result)
  show "isOK (snd (init environ sd ed)) \<longleftrightarrow> filter (unusable environ) required_vars = []"
    by (simp add: init_result isOK_def)
next
  assume a: "filter (unusable environ) required_vars \<noteq> []
        \<and> get_start_date U nows lines = (ps, Inr sd, rest)
        \<and> get_end_date U nowe rest = (pe, Inr ed, rest')"
  obtain e3 where i: "init environ sd ed = (e3, Inl (SystemExit 1))"
    using a init_result [of environ sd ed] by simp
  have m: "main concise U environ nows nowe http lines = (ps @ pe @ e3, Inl (SystemExit 1))"
    using a i by (simp add: main_def)
  show "snd (main concise U environ nows nowe http lines) = Inl (SystemExit 1)"
    by (simp add: m)
  show "exit_status (snd (main concise U environ nows nowe http lines)) = 1"
    by (simp add: m exit_status_def)
  have "filter (\<lambda>e. kind_of e = KGet) ps = []"
    using get_start_date_kinds [of U nows lines] a by (simp add: no_get_in_prompts)
  moreover have "filter (\<lambda>e. kind_of e = KGet) pe = []"
    using get_end_date_kinds [of U nowe rest] a by (simp add: no_get_in_prompts)
  moreover have "filter (\<lambda>e. kind_of e = KGet) e3 = []"
    using init_kinds [of environ sd ed] i by (simp add: no_get_in_validation)
  ultimately
  show "filter (\<lambda>e. kind_of e = KGet) (fst (main concise U environ nows nowe http lines)) = []"
    by (simp add: m)
next
  assume b: "snd (main concise U environ nows nowe http lines) = Inr ()
        \<and> (\<forall>req. http' req = http req \<or> (\<exists>e. http' req = Inl (RequestException e)))"
  have r: "snd (main concise U environ nows nowe http' lines) = Inr ()"
  proof (cases rule: main_cases [of U nows lines concise environ nowe http])
    case (start_raises ps x rest)
    then show ?thesis using b by simp
  next
    case (end_raises ps sd rest pe x rest')
    then show ?thesis using b by simp
  next
    case (init_raises ps sd rest pe ed rest' e3 x)
    then show ?thesis using b by simp
  next
    case (report ps sd rest pe ed rest' e3 s)
    have ok: "isOK (snd (get_completed_jira_tickets s http))
              \<and> isOK (snd (get_github_pr_reviews s http))"
      using report(4) b full_report_result [of s http] concise_report_result [of s http]
      by (cases concise) simp_all
    have ok': "isOK (snd (get_completed_jira_tickets s http'))
              \<and> isOK (snd (get_github_pr_reviews s http'))"
      using ok b jira_failure_keeps_ok [of s http http']
        github_failure_keeps_ok [of s http http'] by blast
    have "snd (if concise then print_concise_summary s http' else print_summary s http')
            = Inr ()"
      using ok' full_report_result [of s http'] concise_report_result [of s http']
      by (cases concise) simp_all
    then show ?thesis
      using report(1,2,3) by (cases concise) (auto simp add: main_def split: prod.splits)
  qed
  show "snd (main concise U environ nows nowe http' lines) = Inr ()" by (rule r)
  show "exit_status (snd (main concise U environ nows nowe http' lines)) = 0"
    by (simp add: r exit_status_def)
qed

theorem missing_configuration_exits_witness:
  "filter (unusable no_token_env) required_vars = [''JIRA_API_TOKEN'', ''GITHUB_TOKEN'']
   \<and> fst (init no_token_env (midnight 2024 6 3) sample_now)
       = map Getenv required_vars
         @ [Print (cross_mark @ '' Missing required environment variables:''),
            Print ''   - JIRA_API_TOKEN'', Print ''   - GITHUB_TOKEN'',
            Print (CHR 10 # ''Please set these variables and try again.'')]
   \<and> snd (init no_token_env (midnight 2024 6 3) sample_now) = Inl (SystemExit 1)
   \<and> isOK (snd (init sample_env (midnight 2024 6 3) sample_now))
   \<and> exit_status (snd (main False sample_unicode no_token_env sample_now sample_now http_sample
                          [ustr ''2024-06-03'', []])) = 1
   \<and> filter (\<lambda>e. kind_of e = KGet)
        (fst (main False sample_unicode no_token_env sample_now sample_now http_sample [ustr ''2024-06-03'', []]))
       = []
   \<and> snd (main False sample_unicode sample_env sample_now sample_now http_empty [ustr ''2024-06-03'', []]) = Inr ()
   \<and> exit_status (snd (main False sample_unicode sample_env sample_now sample_now http_down
                          [ustr ''2024-06-03'', []])) = 0"
proof -
  note t1 = missing_configuration_exits [where U = sample_unicode and environ = no_token_env
      and sd = "midnight 2024 6 3" and ed = sample_now and nows = sample_now
      and nowe = sample_now and lines = "[ustr ''2024-06-03'', []]" and rest = "[[]]"
      and rest' = "[]" and concise = False and http = http_sample and http' = http_sample
      and ps = "[Print (calendar @ '' Enter the sprint start date''), Print [],
                 Input start_prompt, Print ''Using start date: 2024-06-03'', Print []]"
      and pe = "[Print (calendar @ '' Enter the sprint end date''), Print [],
                 Input end_prompt, Print ''Using end date: 2024-06-15'', Print []]"]
  note t2 = missing_configuration_exits [where U = sample_unicode and environ = sample_env
      and sd = "midnight 2024 6 3" and ed = sample_now and nows = sample_now
      and nowe = sample_now and lines = "[ustr ''2024-06-03'', []]" and rest = "[[]]"
      and rest' = "[]" and concise = False and http = http_empty and http' = http_down
      and ps = "[]" and pe = "[]"]
  note p1 = t1 [THEN conjunct1]
  note p2 = t1 [THEN conjunct2, THEN conjunct1]
  note p4 = t1 [THEN conjunct2, THEN conjunct2, THEN conjunct2, THEN conjunct1]
  note q3 = t2 [THEN conjunct2, THEN conjunct2, THEN conjunct1]
  note q5 = t2 [THEN conjunct2, THEN conjunct2, THEN conjunct2, THEN conjunct2]
  have u: "filter (unusable no_token_env) required_vars \<noteq> []"
    by (simp add: no_token_env_unusable)
  have d: "\<forall>req. http_down req = http_empty req
                 \<or> (\<exists>e. http_down req = Inl (RequestException e))"
    by (simp add: http_down_def)
  have a: "fst (init no_token_env (midnight 2024 6 3) sample_now)
       = map Getenv required_vars
         @ [Print (cross_mark @ '' Missing required environment variables:''),
            Print ''   - JIRA_API_TOKEN'', Print ''   - GITHUB_TOKEN'',
            Print (CHR 10 # ''Please set these variables and try again.'')]"
    using p1 by (simp add: no_token_env_unusable)
  have b: "snd (init no_token_env (midnight 2024 6 3) sample_now) = Inl (SystemExit 1)"
    using p2 u by blast
  have c: "isOK (snd (init sample_env (midnight 2024 6 3) sample_now))"
    using q3 sample_env_usable by blast
  have e: "exit_status (snd (main False sample_unicode no_token_env sample_now sample_now http_sample
                          [ustr ''2024-06-03'', []])) = 1
   \<and> filter (\<lambda>e. kind_of e = KGet)
        (fst (main False sample_unicode no_token_env sample_now sample_now http_sample [ustr ''2024-06-03'', []]))
       = []"
    using p4 u sample_start sample_end by blast
  have f: "exit_status (snd (main False sample_unicode sample_env sample_now sample_now http_down
                          [ustr ''2024-06-03'', []])) = 0"
    using q5 sample_run_completes d by blast
  show ?thesis
    using a b c e f sample_run_completes no_token_env_unusable by blast
qed

text \<open>
  The claim as it was stated fails when every variable is set and not empty and the base
  URL is a single slash: the URL is empty once stripped, and the run exits with status 1.
\<close>

theorem slash_only_url_counterexample:
  "slash_env ''JIRA_URL'' = Some ''/'' \<and> slash_env ''JIRA_EMAIL'' = Some ''a@b.c''
   \<and> slash_env ''JIRA_API_TOKEN'' = Some ''t'' \<and> slash_env ''GITHUB_TOKEN'' = Some ''g''
   \<and> slash_env ''GITHUB_USERNAME'' = Some ''me''
   \<and> snd (main False sample_unicode slash_env sample_now sample_now http_empty [ustr ''2024-06-03'', []])
       = Inl (SystemExit 1)"
proof -
  obtain e3 where i: "init slash_env (midnight 2024 6 3) sample_now = (e3, Inl (SystemExit 1))"
    using init_result [of slash_env "midnight 2024 6 3" sample_now]
    by (simp add: slash_env_unusable)
  have "snd (main False sample_unicode slash_env sample_now sample_now http_empty [ustr ''2024-06-03'', []])
       = Inl (SystemExit 1)"
    by (simp add: main_def sample_start sample_end i)
  then show ?thesis by (simp add: slash_env_def sample_env_def)
qed

lemma report_trace:
  "\<exists>d1 r1 d2 r2.
     get_completed_jira_tickets s http = (Get (jira_request s) # map Print d1, r1)
     \<and> get_github_pr_reviews s http = (Get (github_request s) # map Print d2, r2)
     \<and> fst (if concise then print_concise_summary s http else print_summary s http)
         = map Print (lines_before_fetches concise s) @ Get (jira_request s) # map Print d1
           @ (case r1 of
                Inl x \<Rightarrow> []
              | Inr tickets \<Rightarrow>
                  map Print (lines_between_fetches concise tickets)
                  @ Get (github_request s) # map Print d2
                  @ (case r2 of
                       Inl x \<Rightarrow> []
                     | Inr prs \<Rightarrow> map Print (lines_after_fetches concise prs)))"
proof -
  obtain ev1 r1 where j: "get_completed_jira_tickets s http = (ev1, r1)"
    by (cases "get_completed_jira_tickets s http")
  obtain ev2 r2 where g: "get_github_pr_reviews s http = (ev2, r2)"
    by (cases "get_github_pr_reviews s http")
  have "ev1 = [Get (jira_request s)] \<or> (\<exists>l. ev1 = [Get (jira_request s), Print l])"
    using jira_events_shape [of s http] j by simp
  then obtain d1 where e1: "ev1 = Get (jira_request s) # map Print d1"
    by (auto intro: that [of "[]"] that [of "[_]"])
  have "ev2 = [Get (github_request s)] \<or> (\<exists>l. ev2 = [Get (github_request s), Print l])"
    using github_events_shape [of s http] g by simp
  then obtain d2 where e2: "ev2 = Get (github_request s) # map Print d2"
    by (auto intro: that [of "[]"] that [of "[_]"])
  have "fst (if concise then print_concise_summary s http else print_summary s http)
         = map Print (lines_before_fetches concise s) @ Get (jira_request s) # map Print d1
           @ (case r1 of
                Inl x \<Rightarrow> []
              | Inr tickets \<Rightarrow>
                  map Print (lines_between_fetches concise tickets)
                  @ Get (github_request s) # map Print d2
                  @ (case r2 of
                       Inl x \<Rightarrow> []
                     | Inr prs \<Rightarrow> map Print (lines_after_fetches concise prs)))"
  proof (cases r1)
    case (Inl x)
    then show ?thesis
      using print_summary_raise [of s http ev1 x] print_concise_summary_raise [of s http ev1 x]
        j e1
      by (simp add: lines_before_fetches_def)
  next
    case (Inr ts)
    then show ?thesis
      using print_summary_trace [of s http ev1 ts ev2 r2]
        print_concise_summary_trace [of s http ev1 ts ev2 r2] j g e1 e2
      by (cases r2)
         (simp_all add: lines_before_fetches_def lines_between_fetches_def
            lines_after_fetches_def)
  qed
  then show ?thesis using j g e1 e2 by blast
qed

text \<open>
  Claim C2, as amended. The events of every run are, in this order: those of the two date
  prompts (lines printed and lines asked for), those of the credential validation (the
  five reads of the environment, then the listing when a variable is of no use), those of
  the report. There is no report when a variable is of no use, and there is one when the
  run completes. The report is made of the lines that come before the fetches, the GET for
  the tickets and the error line of that fetch if it failed, the lines for the tickets
  that the fetch returned, the GET for the reviews and the error line of that fetch if it
  failed, the lines for the reviews that the fetch returned; it stops after the events of
  a fetch that raises. So the validation is over before any network call, it comes after
  the prompts, and the report prints before, between and after its two GETs.
\<close>

theorem run_order:
  "\<exists>prompts validation report.
      fst (main concise U environ nows nowe http lines) = prompts @ validation @ report
      \<and> list_all (\<lambda>e. kind_of e = KPrint \<or> kind_of e = KInput) prompts
      \<and> list_all (\<lambda>e. kind_of e = KGetenv \<or> kind_of e = KPrint) validation
      \<and> (filter (unusable environ) required_vars \<noteq> [] \<longrightarrow> report = [])
      \<and> (snd (main concise U environ nows nowe http lines) = Inr () \<longrightarrow> report \<noteq> [])
      \<and> (report = []
          \<or> (\<exists>sd ed s d1 r1 d2 r2.
                init environ sd ed = (validation, Inr s)
                \<and> get_completed_jira_tickets s http = (Get (jira_request s) # map Print d1, r1)
                \<and> get_github_pr_reviews s http = (Get (github_request s) # map Print d2, r2)
                \<and> report
                    = map Print (lines_before_fetches concise s)
                      @ Get (jira_request s) # map Print d1
                      @ (case r1 of
                           Inl x \<Rightarrow> []
                         | Inr tickets \<Rightarrow>
                             map Print (lines_between_fetches concise tickets)
                             @ Get (github_request s) # map Print d2
                             @ (case r2 of
                                  Inl x \<Rightarrow> []
                                | Inr prs \<Rightarrow> map Print (lines_after_fetches concise prs)))))"
proof (cases rule: main_cases [of U nows lines concise environ nowe http])
  case (start_raises e1 x rest)
  have "list_all (\<lambda>e. kind_of e = KPrint \<or> kind_of e = KInput) e1"
    using get_start_date_kinds [of U nows lines] start_raises(1) by simp
  then show ?thesis
    using start_raises(2) by (intro exI [of _ e1] exI [of _ "[]"]) simp
next
  case (end_raises e1 sd rest e2 x rest')
  have "list_all (\<lambda>e. kind_of e = KPrint \<or> kind_of e = KInput) (e1 @ e2)"
    using get_start_date_kinds [of U nows lines] get_end_date_kinds [of U nowe rest]
      end_raises(1,2) by simp
  then show ?thesis
    using end_raises(3) by (intro exI [of _ "e1 @ e2"] exI [of _ "[]"]) simp
next
  case (init_raises e1 sd rest e2 ed rest' e3 x)
  have p: "list_all (\<lambda>e. kind_of e = KPrint \<or> kind_of e = KInput) (e1 @ e2)"
    using get_start_date_kinds [of U nows lines] get_end_date_kinds [of U nowe rest]
      init_raises(1,2) by simp
  have v: "list_all (\<lambda>e. kind_of e = KGetenv \<or> kind_of e = KPrint) e3"
    using init_kinds [of environ sd ed] init_raises(3) by simp
  show ?thesis
    using init_raises(4) p v by (intro exI [of _ "e1 @ e2"] exI [of _ e3] exI [of _ "[]"]) simp
next
  case (report e1 sd rest e2 ed rest' e3 s)
  have p: "list_all (\<lambda>e. kind_of e = KPrint \<or> kind_of e = KInput) (e1 @ e2)"
    using get_start_date_kinds [of U nows lines] get_end_date_kinds [of U nowe rest]
      report(1,2) by simp
  have v: "list_all (\<lambda>e. kind_of e = KGetenv \<or> kind_of e = KPrint) e3"
    using init_kinds [of environ sd ed] report(3) by simp
  have ok: "filter (unusable environ) required_vars = []"
    using report(3) init_result [of environ sd ed] by (simp split: if_splits)
  define r where "r = fst (if concise then print_concise_summary s http
                           else print_summary s http)"
  obtain d1 r1 d2 r2 where
    j: "get_completed_jira_tickets s http = (Get (jira_request s) # map Print d1, r1)"
    and g: "get_github_pr_reviews s http = (Get (github_request s) # map Print d2, r2)"
    and t: "r = map Print (lines_before_fetches concise s)
                      @ Get (jira_request s) # map Print d1
                      @ (case r1 of
                           Inl x \<Rightarrow> []
                         | Inr tickets \<Rightarrow>
                             map Print (lines_between_fetches concise tickets)
                             @ Get (github_request s) # map Print d2
                             @ (case r2 of
                                  Inl x \<Rightarrow> []
                                | Inr prs \<Rightarrow> map Print (lines_after_fetches concise prs)))"
    unfolding r_def using report_trace [of s http concise] by blast
  have ne: "r \<noteq> []" unfolding t by simp
  have m: "fst (main concise U environ nows nowe http lines) = (e1 @ e2) @ e3 @ r"
    using report(4) by (simp add: r_def)
  have shape: "\<exists>sd ed s d1 r1 d2 r2.
                init environ sd ed = (e3, Inr s)
                \<and> get_completed_jira_tickets s http = (Get (jira_request s) # map Print d1, r1)
                \<and> get_github_pr_reviews s http = (Get (github_request s) # map Print d2, r2)
                \<and> r = map Print (lines_before_fetches concise s)
                      @ Get (jira_request s) # map Print d1
                      @ (case r1 of
                           Inl x \<Rightarrow> []
                         | Inr tickets \<Rightarrow>
                             map Print (lines_between_fetches concise tickets)
                             @ Get (github_request s) # map Print d2
                             @ (case r2 of
                                  Inl x \<Rightarrow> []
                                | Inr prs \<Rightarrow> map Print (lines_after_fetches concise prs)))"
    using report(3) j g t by blast
  show ?thesis
    using m p v ok ne shape
    by (intro exI [of _ "e1 @ e2"] exI [of _ e3] exI [of _ r]) blast
qed

theorem run_order_witness:
  "\<exists>prompts validation report.
      fst (main False sample_unicode sample_env sample_now sample_now http_sample
             [ustr ''2024-06-03'', []])
        = prompts @ validation @ report
      \<and> list_all (\<lambda>e. kind_of e = KPrint \<or> kind_of e = KInput) prompts
      \<and> list_all (\<lambda>e. kind_of e = KGetenv \<or> kind_of e = KPrint) validation
      \<and> (filter (unusable sample_env) required_vars \<noteq> [] \<longrightarrow> report = [])
      \<and> (snd (main False sample_unicode sample_env sample_now sample_now http_sample
                 [ustr ''2024-06-03'', []]) = Inr () \<longrightarrow> report \<noteq> [])
      \<and> (report = []
          \<or> (\<exists>sd ed s d1 r1 d2 r2.
                init sample_env sd ed = (validation, Inr s)
                \<and> get_completed_jira_tickets s http_sample
                    = (Get (jira_request s) # map Print d1, r1)
                \<and> get_github_pr_reviews s http_sample
                    = (Get (github_request s) # map Print d2, r2)
                \<and> report
                    = map Print (lines_before_fetches False s)
                      @ Get (jira_request s) # map Print d1
                      @ (case r1 of
                           Inl x \<Rightarrow> []
                         | Inr tickets \<Rightarrow>
                             map Print (lines_between_fetches False tickets)
                             @ Get (github_request s) # map Print d2
                             @ (case r2 of
                                  Inl x \<Rightarrow> []
                                | Inr prs \<Rightarrow> map Print (lines_after_fetches False prs)))))"
  using run_order [of False sample_unicode sample_env sample_now sample_now http_sample
      "[ustr ''2024-06-03'', []]"]
  by simp

text \<open>
  The claim as it was stated puts the validation before the prompts and both GETs before
  the rendering. In this run the two lines are asked for before the environment is read,
  seven lines of the report are printed before the first GET, and the ticket section is
  printed before the second GET.
\<close>

theorem run_order_counterexample:
  "map kind_of (fst (main False sample_unicode sample_env sample_now sample_now http_sample
                      [ustr ''2024-06-03'', []]))
     = [KPrint, KPrint, KInput, KPrint, KPrint, KPrint, KPrint, KInput, KPrint, KPrint,
        KGetenv, KGetenv, KGetenv, KGetenv, KGetenv,
        KPrint, KPrint, KPrint, KPrint, KPrint, KPrint, KPrint, KGet,
        KPrint, KPrint, KPrint, KPrint, KPrint, KPrint, KPrint, KPrint, KPrint, KPrint,
        KPrint, KPrint, KGet, KPrint, KPrint, KPrint, KPrint, KPrint, KPrint]"
proof -
  obtain s where i: "init sample_env (midnight 2024 6 3) sample_now
                       = (map Getenv required_vars, Inr s)"
    using init_result [of sample_env "midnight 2024 6 3" sample_now]
    by (simp add: sample_env_usable)
  have j: "get_completed_jira_tickets s http_sample
             = ([Get (jira_request s)],
                Inr [\<lparr>key = JStr ''AB-1'', summary = JStr ''Fix'', status = JStr ''Done'',
                      url = jira_url s @ ''/browse/AB-1''\<rparr>,
                     \<lparr>key = JStr ''AB-2'', summary = JStr ''Fix'', status = JStr ''Done'',
                      url = jira_url s @ ''/browse/AB-2''\<rparr>])"
    by (simp add: get_completed_jira_tickets_def http_sample_def jira_request_def
        get_or_empty_def iterate_def bind_def ticket_of_def subscript_def sample_issue_def
        py_str_def)
  have g: "get_github_pr_reviews s http_sample
             = ([Get (github_request s)],
                Inr [\<lparr>number = JInt 7, title = JStr ''T'', repo = ''myrepo'',
                      state = JStr ''closed'', pr_url = JStr ''https://h'',
                      updated = JStr ''2024-06-02T00:00:00Z''\<rparr>])"
    by (simp add: get_github_pr_reviews_def http_sample_def github_request_def
        get_or_empty_def iterate_def bind_def pr_of_def subscript_def sample_item_def
        last_segment_def)
  have p: "map kind_of (fst (print_summary s http_sample))
     = [KPrint, KPrint, KPrint, KPrint, KPrint, KPrint, KPrint, KGet,
        KPrint, KPrint, KPrint, KPrint, KPrint, KPrint, KPrint, KPrint, KPrint, KPrint,
        KPrint, KPrint, KGet, KPrint, KPrint, KPrint, KPrint, KPrint, KPrint]"
    by (simp add: print_summary_trace [OF j g] full_header_def full_ticket_lines_def
        full_pr_lines_def)
  obtain e4 r4 where ps: "print_summary s http_sample = (e4, r4)"
    by (cases "print_summary s http_sample")
  show ?thesis
    using p by (simp add: main_def sample_start sample_end i required_vars_def ps)
qed

end
